(* ===== verification/Text.thy ===== *)
theory Text
  imports Prelude
begin

text \<open>
  The text functions of the Rust standard library that the sources call, on byte strings:
  UTF-8 validity and character boundaries (\<^verbatim>\<open>str::is_char_boundary\<close>), Unicode white space and
  \<^verbatim>\<open>str::trim\<close>, \<^verbatim>\<open>str::trim_end\<close>, ASCII case folding (\<^verbatim>\<open>eq_ignore_ascii_case\<close>),
  \<^verbatim>\<open>Path::file_name\<close> and \<^verbatim>\<open>Path::extension\<close>, and the debug format of a path.
\<close>

section \<open>UTF-8\<close>

definition byte :: "char \<Rightarrow> nat" where
  "byte c = of_char c"

lemma byte_less [simp]: "byte c < 256"
  by (simp add: byte_def)

definition in_range :: "nat \<Rightarrow> nat \<Rightarrow> char \<Rightarrow> bool" where
  "in_range lo hi c \<longleftrightarrow> lo \<le> byte c \<and> byte c \<le> hi"

text \<open>A continuation byte has the bits \<open>10xxxxxx\<close>.\<close>

definition is_cont :: "char \<Rightarrow> bool" where
  "is_cont c \<longleftrightarrow> in_range 128 191 c"

text \<open>
  The width of the character at the head of a byte string, when it is well formed
  (the table of well-formed UTF-8 byte sequences of the Unicode standard).
\<close>

definition width2 :: "char \<Rightarrow> char \<Rightarrow> bool" where
  "width2 a b \<longleftrightarrow> in_range 194 223 a \<and> is_cont b"

definition width3 :: "char \<Rightarrow> char \<Rightarrow> char \<Rightarrow> bool" where
  "width3 a b c \<longleftrightarrow> is_cont c \<and>
     (byte a = 224 \<and> in_range 160 191 b
      \<or> (in_range 225 236 a \<or> in_range 238 239 a) \<and> is_cont b
      \<or> byte a = 237 \<and> in_range 128 159 b)"

definition width4 :: "char \<Rightarrow> char \<Rightarrow> char \<Rightarrow> char \<Rightarrow> bool" where
  "width4 a b c d \<longleftrightarrow> is_cont c \<and> is_cont d \<and>
     (byte a = 240 \<and> in_range 144 191 b
      \<or> in_range 241 243 a \<and> is_cont b
      \<or> byte a = 244 \<and> in_range 128 143 b)"

definition utf8_head :: "string \<Rightarrow> nat option" where
  "utf8_head s =
     (case s of [] \<Rightarrow> None
      | a # s1 \<Rightarrow> if byte a < 128 then Some 1 else
     (case s1 of [] \<Rightarrow> None
      | b # s2 \<Rightarrow> if width2 a b then Some 2 else
     (case s2 of [] \<Rightarrow> None
      | c # s3 \<Rightarrow> if width3 a b c then Some 3 else
     (case s3 of [] \<Rightarrow> None
      | d # s4 \<Rightarrow> if width4 a b c d then Some 4 else None))))"

lemma utf8_head_pos: "utf8_head s = Some n \<Longrightarrow> 0 < n \<and> n \<le> length s"
  by (auto simp: utf8_head_def split: list.splits if_splits)

function utf8_valid :: "string \<Rightarrow> bool" where
  "utf8_valid s =
     (s = [] \<or> (case utf8_head s of None \<Rightarrow> False | Some n \<Rightarrow> utf8_valid (drop n s)))"
  by pat_completeness auto
termination
  by (relation "measure length") (auto dest: utf8_head_pos)

declare utf8_valid.simps [simp del]

lemma utf8_valid_Nil [simp]: "utf8_valid []"
  by (simp add: utf8_valid.simps)

lemma utf8_valid_head: "utf8_head s = Some n \<Longrightarrow> utf8_valid s \<longleftrightarrow> utf8_valid (drop n s)"
  by (subst utf8_valid.simps) (auto simp: utf8_head_def)

text \<open>
  \<^verbatim>\<open>str::is_char_boundary\<close>: the start, the end, and every index whose byte is not a
  continuation byte; no index beyond the end.
\<close>

definition is_char_boundary :: "string \<Rightarrow> nat \<Rightarrow> bool" where
  "is_char_boundary s i =
     (if i = 0 then True
      else if i \<ge> length s then i = length s
      else \<not> is_cont (s ! i))"

lemma is_char_boundary_ends [simp]: "is_char_boundary s 0" "is_char_boundary s (length s)"
  by (simp_all add: is_char_boundary_def)

lemma utf8_head_cases:
  assumes "utf8_head s = Some n"
  obtains
    (one) a t where "s = a # t" "n = 1" "byte a < 128"
  | (two) a b t where "s = a # b # t" "n = 2" "width2 a b" "\<not> byte a < 128"
  | (three) a b c t where "s = a # b # c # t" "n = 3" "width3 a b c" "\<not> byte a < 128" "\<not> width2 a b"
  | (four) a b c d t where "s = a # b # c # d # t" "n = 4" "width4 a b c d"
      "\<not> byte a < 128" "\<not> width2 a b" "\<not> width3 a b c"
  using assms unfolding utf8_head_def by (auto split: list.splits if_splits)

lemma width_cont:
  "width2 a b \<Longrightarrow> is_cont b" "width3 a b c \<Longrightarrow> is_cont b" "width3 a b c \<Longrightarrow> is_cont c"
  "width4 a b c d \<Longrightarrow> is_cont b" "width4 a b c d \<Longrightarrow> is_cont c" "width4 a b c d \<Longrightarrow> is_cont d"
  by (auto simp: width2_def width3_def width4_def is_cont_def in_range_def)

lemma utf8_head_inner_cont:
  assumes "utf8_head s = Some n" and "0 < k" and "k < n"
  shows "is_cont (s ! k)"
  using assms(1)
proof (cases rule: utf8_head_cases)
  case three
  then have "k = 1 \<or> k = 2" using assms by auto
  then show ?thesis using three by (auto dest: width_cont)
next
  case four
  then have "k = 1 \<or> k = 2 \<or> k = 3" using assms by auto
  then show ?thesis using four by (auto dest: width_cont)
qed (use assms in \<open>auto simp: less_Suc_eq dest: width_cont\<close>)

lemma utf8_head_append: "utf8_head s = Some n \<Longrightarrow> utf8_head (s @ t) = Some n"
  by (erule utf8_head_cases) (simp_all add: utf8_head_def)

lemma utf8_head_take: "utf8_head s = Some n \<Longrightarrow> n \<le> i \<Longrightarrow> utf8_head (take i s) = Some n"
proof (erule utf8_head_cases)
  assume "n \<le> i"
  then obtain j where i: "i = n + j" by (auto simp: le_iff_add)
  show "utf8_head (take i s) = Some n" if "s = a # t" "n = 1" "byte a < 128" for a t
    using that i by (simp add: utf8_head_def)
  show "utf8_head (take i s) = Some n"
    if "s = a # b # t" "n = 2" "width2 a b" "\<not> byte a < 128" for a b t
    using that i by (simp add: utf8_head_def)
  show "utf8_head (take i s) = Some n"
    if "s = a # b # c # t" "n = 3" "width3 a b c" "\<not> byte a < 128" "\<not> width2 a b" for a b c t
    using that i by (simp add: utf8_head_def eval_nat_numeral)
  show "utf8_head (take i s) = Some n"
    if "s = a # b # c # d # t" "n = 4" "width4 a b c d" "\<not> byte a < 128" "\<not> width2 a b"
      "\<not> width3 a b c" for a b c d t
    using that i by (simp add: utf8_head_def eval_nat_numeral)
qed

text \<open>Cutting valid UTF-8 at a character boundary gives two valid strings.\<close>

lemma utf8_valid_split:
  "utf8_valid s \<Longrightarrow> is_char_boundary s i \<Longrightarrow> utf8_valid (take i s) \<and> utf8_valid (drop i s)"
proof (induction s arbitrary: i rule: utf8_valid.induct)
  case (1 s)
  show ?case
  proof (cases "s = [] \<or> i = 0 \<or> length s \<le> i")
    case True
    then show ?thesis using "1.prems"(1) by auto
  next
    case False
    then have i: "0 < i" "i < length s" and ne: "s \<noteq> []" by auto
    from "1.prems"(1) ne obtain n where n: "utf8_head s = Some n"
      by (subst (asm) utf8_valid.simps) (auto split: option.splits)
    have nl: "0 < n" "n \<le> length s" using utf8_head_pos [OF n] by auto
    have "n \<le> i"
    proof (rule ccontr)
      assume "\<not> n \<le> i"
      then have "is_cont (s ! i)" using utf8_head_inner_cont [OF n i(1)] by simp
      then show False using "1.prems"(2) i by (simp add: is_char_boundary_def)
    qed
    have v: "utf8_valid (drop n s)" using utf8_valid_head [OF n] "1.prems"(1) by simp
    have b: "is_char_boundary (drop n s) (i - n)"
      using "1.prems"(2) i \<open>n \<le> i\<close> by (auto simp: is_char_boundary_def)
    have ih: "utf8_valid (take (i - n) (drop n s)) \<and> utf8_valid (drop (i - n) (drop n s))"
      using "1.IH" [OF n v b] .
    have "utf8_valid (take i s)"
      using utf8_valid_head [OF utf8_head_take [OF n \<open>n \<le> i\<close>]] ih by (simp add: drop_take)
    then show ?thesis using ih \<open>n \<le> i\<close> by simp
  qed
qed

lemma utf8_valid_append: "utf8_valid s \<Longrightarrow> utf8_valid t \<Longrightarrow> utf8_valid (s @ t)"
proof (induction s rule: utf8_valid.induct)
  case (1 s)
  show ?case
  proof (cases "s = []")
    case True
    then show ?thesis using "1.prems" by simp
  next
    case False
    with "1.prems"(1) obtain n where n: "utf8_head s = Some n"
      by (subst (asm) utf8_valid.simps) (auto split: option.splits)
    have "utf8_valid (drop n s @ t)"
      using "1.IH" [OF n] utf8_valid_head [OF n] "1.prems" by simp
    then show ?thesis
      using utf8_valid_head [OF utf8_head_append [OF n, of t]] utf8_head_pos [OF n] by simp
  qed
qed

text \<open>ASCII text is valid UTF-8.\<close>

definition is_ascii :: "string \<Rightarrow> bool" where
  "is_ascii s \<longleftrightarrow> list_all (\<lambda>c. byte c < 128) s"

lemma utf8_valid_ascii: "is_ascii s \<Longrightarrow> utf8_valid s"
proof (induction s)
  case (Cons a s)
  then have "utf8_head (a # s) = Some 1" by (simp add: utf8_head_def is_ascii_def)
  from utf8_valid_head [OF this] show ?case using Cons by (simp add: is_ascii_def)
qed simp

text \<open>
  \<^verbatim>\<open>String::from_utf8_lossy\<close>: every maximal ill-formed part becomes one replacement character
  (U+FFFD). \<open>bad_len\<close> is the length of that part at the head of a string that does not start
  with a well-formed character.
\<close>

definition second3 :: "char \<Rightarrow> char \<Rightarrow> bool" where
  "second3 a b \<longleftrightarrow> byte a = 224 \<and> in_range 160 191 b
     \<or> (in_range 225 236 a \<or> in_range 238 239 a) \<and> is_cont b
     \<or> byte a = 237 \<and> in_range 128 159 b"

definition second4 :: "char \<Rightarrow> char \<Rightarrow> bool" where
  "second4 a b \<longleftrightarrow> byte a = 240 \<and> in_range 144 191 b
     \<or> in_range 241 243 a \<and> is_cont b
     \<or> byte a = 244 \<and> in_range 128 143 b"

definition bad_len :: "string \<Rightarrow> nat" where
  "bad_len s =
     (case s of
        a # b # s2 \<Rightarrow>
          if second3 a b then 2
          else if second4 a b then (case s2 of c # _ \<Rightarrow> if is_cont c then 3 else 2 | [] \<Rightarrow> 2)
          else 1
      | _ \<Rightarrow> 1)"

definition REPLACEMENT :: string where
  "REPLACEMENT = [char_of (239::nat), char_of (191::nat), char_of (189::nat)]"

function from_utf8_lossy :: "bytes \<Rightarrow> string" where
  "from_utf8_lossy s =
     (if s = [] then []
      else case utf8_head s of
             Some n \<Rightarrow> take n s @ from_utf8_lossy (drop n s)
           | None \<Rightarrow> REPLACEMENT @ from_utf8_lossy (drop (bad_len s) s))"
  by pat_completeness auto
termination
  by (relation "measure length")
    (auto dest: utf8_head_pos simp: bad_len_def neq_Nil_conv split: list.splits)

declare from_utf8_lossy.simps [simp del]

lemma utf8_head_drop_take: "utf8_head s = Some n \<Longrightarrow> utf8_valid (take n s)"
  using utf8_head_take [of s n n] utf8_valid_head [of "take n s" n] by simp

lemma from_utf8_lossy_valid: "utf8_valid (from_utf8_lossy s)"
proof (induction s rule: from_utf8_lossy.induct)
  case (1 s)
  have "utf8_valid REPLACEMENT"
    by (simp add: REPLACEMENT_def utf8_valid.simps utf8_head_def byte_def width2_def width3_def
        is_cont_def in_range_def)
  then show ?case using 1
    by (subst from_utf8_lossy.simps)
      (auto split: option.splits intro: utf8_valid_append utf8_head_drop_take)
qed

lemma from_utf8_lossy_id: "utf8_valid s \<Longrightarrow> from_utf8_lossy s = s"
proof (induction s rule: utf8_valid.induct)
  case (1 s)
  show ?case
  proof (cases "s = []")
    case True
    then show ?thesis by (simp add: from_utf8_lossy.simps)
  next
    case False
    with "1.prems" obtain n where n: "utf8_head s = Some n"
      by (subst (asm) utf8_valid.simps) (auto split: option.splits)
    then show ?thesis using False "1.IH" [OF n] utf8_valid_head [OF n] "1.prems"
      by (subst from_utf8_lossy.simps) simp
  qed
qed

text \<open>In valid text a boundary is never more than three bytes away.\<close>

lemma utf8_valid_first: "utf8_valid (c # s) \<Longrightarrow> \<not> is_cont c"
  by (subst (asm) utf8_valid.simps)
    (auto simp: is_cont_def in_range_def width2_def width3_def width4_def elim!: utf8_head_cases
      split: option.splits)

lemma boundary_shift:
  assumes "utf8_valid (drop n s)" "n \<le> length s" "is_char_boundary (drop n s) j"
  shows "is_char_boundary s (n + j)"
proof (cases "j = 0")
  case True
  show ?thesis
  proof (cases "n = length s")
    case False
    then have "drop n s = s ! n # drop (Suc n) s" using assms(2) by (simp add: Cons_nth_drop_Suc)
    then have "\<not> is_cont (s ! n)" using assms(1) utf8_valid_first by metis
    then show ?thesis using True False assms(2) by (simp add: is_char_boundary_def)
  qed (simp add: True is_char_boundary_def)
next
  case False
  then show ?thesis using assms(2,3) by (auto simp: is_char_boundary_def split: if_splits)
qed

lemma utf8_boundary_near:
  "utf8_valid s \<Longrightarrow> i \<le> length s \<Longrightarrow> \<exists>j. i \<le> j \<and> j \<le> i + 3 \<and> j \<le> length s \<and> is_char_boundary s j"
proof (induction s arbitrary: i rule: utf8_valid.induct)
  case (1 s)
  show ?case
  proof (cases "i = 0 \<or> i = length s")
    case True
    then show ?thesis by (intro exI [of _ i]) (auto simp: is_char_boundary_def)
  next
    case False
    with "1.prems" obtain n where n: "utf8_head s = Some n"
      by (subst (asm) utf8_valid.simps) (auto split: option.splits)
    have v: "utf8_valid (drop n s)" using utf8_valid_head [OF n] "1.prems"(1) by simp
    have pos: "0 < n" "n \<le> length s" using utf8_head_pos [OF n] by auto
    have "n \<le> 4" using n by (cases rule: utf8_head_cases) auto
    show ?thesis
    proof (cases "i < n")
      case True
      have "is_char_boundary s n"
        using boundary_shift [OF v pos(2), of 0] by (simp add: is_char_boundary_def)
      then show ?thesis using True False pos \<open>n \<le> 4\<close> by (intro exI [of _ n]) auto
    next
      case False
      have "i - n \<le> length (drop n s)" using "1.prems"(2) by simp
      then obtain j where j: "i - n \<le> j" "j \<le> i - n + 3" "j \<le> length (drop n s)"
          "is_char_boundary (drop n s) j"
        using "1.IH" [OF n v] by blast
      have "i \<le> n + j" "n + j \<le> i + 3" "n + j \<le> length s"
        using j(1-3) False pos by simp_all
      then show ?thesis using boundary_shift [OF v pos(2) j(4)] by blast
    qed
  qed
qed

section \<open>White space\<close>

text \<open>\<^verbatim>\<open>char::is_whitespace\<close>, by the UTF-8 encoding of the characters with that property.\<close>

definition ws1 :: "char \<Rightarrow> bool" where
  "ws1 a \<longleftrightarrow> in_range 9 13 a \<or> byte a = 32"

definition ws2 :: "char \<Rightarrow> char \<Rightarrow> bool" where
  "ws2 a b \<longleftrightarrow> byte a = 194 \<and> (byte b = 133 \<or> byte b = 160)"

definition ws3 :: "char \<Rightarrow> char \<Rightarrow> char \<Rightarrow> bool" where
  "ws3 a b c \<longleftrightarrow>
     byte a = 225 \<and> byte b = 154 \<and> byte c = 128
     \<or> byte a = 226 \<and> byte b = 128 \<and>
         (in_range 128 138 c \<or> byte c = 168 \<or> byte c = 169 \<or> byte c = 175)
     \<or> byte a = 226 \<and> byte b = 129 \<and> byte c = 159
     \<or> byte a = 227 \<and> byte b = 128 \<and> byte c = 128"

fun trim_start :: "string \<Rightarrow> string" where
  "trim_start [] = []"
| "trim_start [a] = (if ws1 a then [] else [a])"
| "trim_start [a, b] = (if ws1 a then trim_start [b] else if ws2 a b then [] else [a, b])"
| "trim_start (a # b # c # s) =
     (if ws1 a then trim_start (b # c # s)
      else if ws2 a b then trim_start (c # s)
      else if ws3 a b c then trim_start s
      else a # b # c # s)"

text \<open>The same from the other end; the argument is the reversed string.\<close>

fun trim_end_rev :: "string \<Rightarrow> string" where
  "trim_end_rev [] = []"
| "trim_end_rev [c] = (if ws1 c then [] else [c])"
| "trim_end_rev [c, b] = (if ws1 c then trim_end_rev [b] else if ws2 b c then [] else [c, b])"
| "trim_end_rev (c # b # a # s) =
     (if ws1 c then trim_end_rev (b # a # s)
      else if ws2 b c then trim_end_rev (a # s)
      else if ws3 a b c then trim_end_rev s
      else c # b # a # s)"

definition trim_end :: "string \<Rightarrow> string" where
  "trim_end s = rev (trim_end_rev (rev s))"

definition trim :: "string \<Rightarrow> string" where
  "trim s = trim_end (trim_start s)"

lemma trim_end_rev_suffix: "suffix (trim_end_rev s) s"
  by (induction s rule: trim_end_rev.induct) (auto intro: suffix_ConsI)

lemma trim_end_prefix: "prefix (trim_end s) s"
  using trim_end_rev_suffix [of "rev s"] by (simp add: trim_end_def suffix_to_prefix)

lemma utf8_valid_before: "utf8_valid (s @ c # t) \<Longrightarrow> \<not> is_cont c \<Longrightarrow> utf8_valid s"
  using utf8_valid_split [of "s @ c # t" "length s"] by (simp add: is_char_boundary_def nth_append)

lemma ws_not_cont:
  "ws1 c \<Longrightarrow> \<not> is_cont c" "ws2 b c \<Longrightarrow> \<not> is_cont b" "ws3 a b c \<Longrightarrow> \<not> is_cont a"
  by (auto simp: ws1_def ws2_def ws3_def is_cont_def in_range_def)

lemma trim_end_rev_utf8: "utf8_valid (rev s) \<Longrightarrow> utf8_valid (rev (trim_end_rev s))"
proof (induction s rule: trim_end_rev.induct)
  case (3 c b)
  have "utf8_valid [b]" if "ws1 c" using utf8_valid_before [of "[b]" c "[]"] 3 that by (simp add: ws_not_cont)
  then show ?case using 3 by auto
next
  case (4 c b a s)
  have "utf8_valid (rev (b # a # s))" if "ws1 c"
    using utf8_valid_before [of "rev (b # a # s)" c "[]"] 4 that by (simp add: ws_not_cont)
  moreover have "utf8_valid (rev (a # s))" if "ws2 b c"
    using utf8_valid_before [of "rev (a # s)" b "[c]"] 4 that by (simp add: ws_not_cont)
  moreover have "utf8_valid (rev s)" if "ws3 a b c"
    using utf8_valid_before [of "rev s" a "[b, c]"] 4 that by (simp add: ws_not_cont)
  ultimately show ?case using 4 by auto
qed simp_all

lemma utf8_valid_trim_end: "utf8_valid s \<Longrightarrow> utf8_valid (trim_end s)"
  using trim_end_rev_utf8 [of "rev s"] by (simp add: trim_end_def)

lemma trim_start_suffix: "suffix (trim_start s) s"
  by (induction s rule: trim_start.induct) (auto intro: suffix_ConsI)

section \<open>ASCII case\<close>

definition to_ascii_lowercase :: "char \<Rightarrow> char" where
  "to_ascii_lowercase c = (if in_range 65 90 c then char_of (byte c + 32) else c)"

definition eq_ignore_ascii_case :: "string \<Rightarrow> string \<Rightarrow> bool" where
  "eq_ignore_ascii_case s t \<longleftrightarrow> map to_ascii_lowercase s = map to_ascii_lowercase t"

lemma eq_ignore_ascii_case_refl [simp]: "eq_ignore_ascii_case s s"
  by (simp add: eq_ignore_ascii_case_def)

section \<open>Paths\<close>

text \<open>
  \<^verbatim>\<open>Path::file_name\<close>: the last component when it is a normal one. Empty components (repeated
  or trailing slashes) and \<open>.\<close> components are skipped from the end; \<open>..\<close> is not a file name.
\<close>

fun split_on :: "char \<Rightarrow> string \<Rightarrow> string list" where
  "split_on d [] = [[]]"
| "split_on d (c # cs) =
     (if c = d then [] # split_on d cs
      else (case split_on d cs of [] \<Rightarrow> [[c]] | w # ws \<Rightarrow> (c # w) # ws))"

definition path_file_name :: "path \<Rightarrow> string option" where
  "path_file_name p =
     (case dropWhile (\<lambda>w. w = [] \<or> w = ''.'') (rev (split_on (CHR ''/'') p)) of
        [] \<Rightarrow> None
      | w # _ \<Rightarrow> if w = ''..'' then None else Some w)"

text \<open>
  \<^verbatim>\<open>Path::extension\<close>: what follows the last dot of the file name, unless there is no dot or
  nothing stands before it.
\<close>

definition path_extension :: "path \<Rightarrow> string option" where
  "path_extension p =
     (case path_file_name p of
        None \<Rightarrow> None
      | Some f \<Rightarrow>
          (let after = rev (takeWhile (\<lambda>c. c \<noteq> CHR ''.'') (rev f));
               before = rev (drop 1 (dropWhile (\<lambda>c. c \<noteq> CHR ''.'') (rev f)))
           in if CHR ''.'' \<notin> set f \<or> before = [] then None else Some after))"

lemma split_on_nonempty [simp]: "split_on d s \<noteq> []"
  by (induction s) (auto split: list.splits)

lemma split_on_none: "d \<notin> set s \<Longrightarrow> split_on d s = [s]"
  by (induction s) auto

lemma split_on_append:
  "split_on d (s @ t) =
     butlast (split_on d s) @ (last (split_on d s) @ hd (split_on d t)) # tl (split_on d t)"
proof (induction s)
  case Nil
  then show ?case by (cases "split_on d t") simp_all
next
  case (Cons c s)
  then show ?case by (cases "split_on d s") (auto split: list.splits)
qed

text \<open>A name that ends in \<open>.ext\<close> after at least one other character has that extension.\<close>

lemma path_extension_dot:
  assumes "CHR ''/'' \<notin> set t" and "CHR ''/'' \<notin> set ext" and "CHR ''.'' \<notin> set ext"
    and "t \<noteq> []" and "ext \<noteq> []"
  shows "path_extension (s @ t @ ''.'' @ ext) = Some ext"
proof -
  define f where "f = last (split_on (CHR ''/'') s) @ t @ ''.'' @ ext"
  have "split_on (CHR ''/'') (t @ ''.'' @ ext) = [t @ ''.'' @ ext]"
    by (rule split_on_none) (use assms in auto)
  then have "rev (split_on (CHR ''/'') (s @ t @ ''.'' @ ext)) =
      f # rev (butlast (split_on (CHR ''/'') s))"
    by (subst split_on_append) (simp add: f_def)
  moreover have "f \<noteq> []" "f \<noteq> ''.''" "f \<noteq> ''..''"
    using assms(3,4,5) by (auto simp: f_def append_eq_Cons_conv)
  ultimately have fname: "path_file_name (s @ t @ ''.'' @ ext) = Some f"
    by (simp add: path_file_name_def)
  have nodot: "\<forall>c\<in>set (rev ext). c \<noteq> CHR ''.''" using assms(3) by auto
  then have "takeWhile (\<lambda>c. c \<noteq> CHR ''.'') (rev f) = rev ext"
    by (simp add: f_def) (subst takeWhile_append2, auto)
  moreover have "dropWhile (\<lambda>c. c \<noteq> CHR ''.'') (rev f) =
      CHR ''.'' # rev t @ rev (last (split_on (CHR ''/'') s))"
    using nodot by (simp add: f_def) (subst dropWhile_append2, auto)
  ultimately show ?thesis
    using assms(4) fname by (simp add: path_extension_def f_def Let_def)
qed

text \<open>
  The debug format of a string or path: quoted, with quotes, backslashes and the ASCII control characters
  escaped as \<^verbatim>\<open>char::escape_debug\<close> does; every other byte stands for itself, which is exact for
  printable text.
\<close>

definition hex_digit :: "nat \<Rightarrow> char" where
  "hex_digit d = (if d < 10 then char_of (48 + d) else char_of (87 + d))"

definition escape_debug :: "char \<Rightarrow> string" where
  "escape_debug c =
     (if byte c = 0 then [CHR 0x5C, CHR ''0'']
      else if byte c = 9 then [CHR 0x5C, CHR ''t'']
      else if byte c = 10 then [CHR 0x5C, CHR ''n'']
      else if byte c = 13 then [CHR 0x5C, CHR ''r'']
      else if byte c = 34 then [CHR 0x5C, CHR 0x22]
      else if byte c = 92 then [CHR 0x5C, CHR 0x5C]
      else if byte c < 32 \<or> byte c = 127 then
        [CHR 0x5C, CHR ''u'', CHR 0x7B]
        @ (if byte c < 16 then [] else [hex_digit (byte c div 16)])
        @ [hex_digit (byte c mod 16), CHR 0x7D]
      else [c])"

definition str_debug :: "string \<Rightarrow> string" where
  "str_debug s = [CHR 0x22] @ concat (map escape_debug s) @ [CHR 0x22]"

definition quoted :: "string \<Rightarrow> string" where
  "quoted s = [CHR 0x27] @ s @ [CHR 0x27]"

end
