(* ===== verification/World.thy ===== *)
theory World
  imports Text
begin

text \<open>
  The local machine as the sources see it through \<^verbatim>\<open>std::fs\<close>, \<^verbatim>\<open>tokio::fs\<close> and the \<^verbatim>\<open>tempfile\<close>
  crate: named files with their content, and operations that may fail. Which operations fail is
  decided by the environment, through the list \<open>faults\<close>: each operation takes one entry and fails
  with the given error when there is one. The random parts of temporary names come from the
  list \<open>rand_names\<close>. Everything else (database, network, clock) is the field \<open>outside\<close>.
\<close>

record 'e world =
  files :: "path \<rightharpoonup> bytes"
  faults :: "io_error option list"
  rand_names :: "string list"
  outside :: 'e

definition with_fault :: "('e world, io_error + 'a) io \<Rightarrow> ('e world, io_error + 'a) io" where
  "with_fault m w =
     (case faults w of
        [] \<Rightarrow> m w
      | None # fs \<Rightarrow> m (w\<lparr>faults := fs\<rparr>)
      | Some e # fs \<Rightarrow> (Inl e, w\<lparr>faults := fs\<rparr>))"

definition NO_SUCH_FILE :: io_error where
  "NO_SUCH_FILE = ''No such file or directory (os error 2)''"

text \<open>\<^verbatim>\<open>File::open\<close> and reading to the end: the content.\<close>

definition std_open :: "path \<Rightarrow> ('e world, io_error + bytes) io" where
  "std_open p = with_fault (\<lambda>w. (case files w p of None \<Rightarrow> Inl NO_SUCH_FILE | Some c \<Rightarrow> Inr c, w))"

text \<open>\<^verbatim>\<open>File::create\<close>: an empty file, replacing what was there.\<close>

definition std_create :: "path \<Rightarrow> ('e world, io_error + unit) io" where
  "std_create p = with_fault (\<lambda>w. (Inr (), w\<lparr>files := (files w)(p \<mapsto> [])\<rparr>))"

text \<open>
  \<^verbatim>\<open>write_all\<close> on an open file appends at its end. A file whose name is gone is still open, so the
  write succeeds without any named file changing.
\<close>

definition std_write :: "path \<Rightarrow> bytes \<Rightarrow> ('e world, io_error + unit) io" where
  "std_write p d = with_fault (\<lambda>w.
     (Inr (), case files w p of None \<Rightarrow> w | Some c \<Rightarrow> w\<lparr>files := (files w)(p \<mapsto> c @ d)\<rparr>))"

definition std_flush :: "path \<Rightarrow> ('e world, io_error + unit) io" where
  "std_flush p = with_fault (\<lambda>w. (Inr (), w))"

text \<open>Dropping a temporary file removes it; a failure is ignored.\<close>

definition std_remove :: "path \<Rightarrow> 'e world \<Rightarrow> 'e world" where
  "std_remove p w = w\<lparr>files := (files w)(p := None)\<rparr>"

section \<open>Temporary files\<close>

definition path_join :: "path \<Rightarrow> string \<Rightarrow> path" where
  "path_join base name =
     (if base = [] then name else if last base = CHR ''/'' then base @ name else base @ ''/'' @ name)"

definition NUM_RETRIES :: nat where
  "NUM_RETRIES = 65536"

definition tmpname :: "string \<Rightarrow> string \<Rightarrow> string \<Rightarrow> string" where
  "tmpname pre suf r = pre @ r @ suf"

text \<open>
  \<^verbatim>\<open>tempfile_in\<close>: names are drawn until one is free, at most \<^const>\<open>NUM_RETRIES\<close> times; the file is
  created exclusively, so it never replaces another one.
\<close>

fun create_helper ::
  "path \<Rightarrow> string \<Rightarrow> string \<Rightarrow> string list \<Rightarrow> ('e world, io_error + path) io" where
  "create_helper base pre suf [] w =
     (Inl (''too many temporary files exist at path '' @ str_debug base), w)"
| "create_helper base pre suf (r # rs) w =
     (let p = path_join base (tmpname pre suf r); w' = w\<lparr>rand_names := tl (rand_names w)\<rparr>
      in if files w p \<noteq> None then create_helper base pre suf rs w'
         else with_fault (\<lambda>w. (Inr p, w\<lparr>files := (files w)(p \<mapsto> [])\<rparr>)) w')"

definition tempfile_in :: "path \<Rightarrow> string \<Rightarrow> string \<Rightarrow> ('e world, io_error + path) io" where
  "tempfile_in base pre suf w =
     create_helper base pre suf (take NUM_RETRIES (rand_names w)) w"

section \<open>Lemmas\<close>

lemma with_fault_cases:
  obtains (fault) e w' where "with_fault m w = (Inl e, w')" "files w' = files w" "outside w' = outside w"
  | (run) fs where "with_fault m w = m (w\<lparr>faults := fs\<rparr>)"
proof (cases "faults w")
  case Nil
  then have eq: "w\<lparr>faults := []\<rparr> = w" by (cases w) simp
  show ?thesis by (rule run [of "[]"]) (simp only: eq, simp add: Nil with_fault_def)
next
  case (Cons f fs)
  then show ?thesis using fault run by (cases f) (auto simp: with_fault_def)
qed

lemma with_fault_Inr:
  "with_fault m w = (Inr x, w') \<Longrightarrow> \<exists>fs. m (w\<lparr>faults := fs\<rparr>) = (Inr x, w')"
  by (rule with_fault_cases [of m w]) auto

lemma with_fault_no_faults [simp]: "faults w = [] \<Longrightarrow> with_fault m w = m w"
  by (simp add: with_fault_def)

lemma std_create_Inr:
  assumes "std_create p w = (Inr u, w')"
  shows "files w' = (files w)(p \<mapsto> [])" "outside w' = outside w"
  using with_fault_Inr [OF assms [unfolded std_create_def]] by auto

lemma std_write_Inr:
  assumes "std_write p d w = (Inr u, w')" and "files w p = Some c"
  shows "files w' = (files w)(p \<mapsto> c @ d)" "outside w' = outside w"
  using with_fault_Inr [OF assms(1) [unfolded std_write_def]] assms(2) by auto

lemma std_flush_Inr:
  assumes "std_flush p w = (Inr u, w')"
  shows "files w' = files w" "outside w' = outside w"
  using with_fault_Inr [OF assms [unfolded std_flush_def]] by auto

lemma std_open_Inr:
  assumes "std_open p w = (Inr c, w')"
  shows "files w p = Some c" "files w' = files w" "outside w' = outside w"
  using with_fault_Inr [OF assms [unfolded std_open_def]] by (auto split: option.splits)

text \<open>
  A local file operation changes no file but its own: what the clients of this theory rely on.
\<close>

definition only_touches :: "path set \<Rightarrow> ('e world \<Rightarrow> 'a \<times> 'e world) \<Rightarrow> bool" where
  "only_touches P m \<longleftrightarrow> (\<forall>w q. q \<notin> P \<longrightarrow> files (snd (m w)) q = files w q)"

lemma only_touchesI: "(\<And>w q. q \<notin> P \<Longrightarrow> files (snd (m w)) q = files w q) \<Longrightarrow> only_touches P m"
  by (simp add: only_touches_def)

lemma only_touchesD: "only_touches P m \<Longrightarrow> q \<notin> P \<Longrightarrow> files (snd (m w)) q = files w q"
  by (simp add: only_touches_def)

lemma only_touches_fault: "only_touches P m \<Longrightarrow> only_touches P (with_fault m)"
proof (rule only_touchesI)
  fix w :: "'a world" and q
  assume *: "only_touches P m" "q \<notin> P"
  show "files (snd (with_fault m w)) q = files w q"
  proof (cases rule: with_fault_cases [of m w])
    case (run fs)
    then show ?thesis using only_touchesD [OF *, of "w\<lparr>faults := fs\<rparr>"] by simp
  qed simp
qed

lemma only_touches_try_io:
  assumes "only_touches P m" "\<And>x. only_touches P (k x)"
  shows "only_touches P (try_io m k)"
proof (rule only_touchesI)
  fix w q
  assume q: "q \<notin> P"
  show "files (snd (try_io m k w)) q = files w q"
  proof (cases "m w")
    case (Pair r w')
    then have "files w' q = files w q" using only_touchesD [OF assms(1) q, of w] by simp
    then show ?thesis using Pair only_touchesD [OF assms(2) q]
      by (cases r) (simp_all add: try_io_def)
  qed
qed

lemma only_touches_map_io [simp]: "only_touches P (map_io f m) = only_touches P m"
  by (simp add: only_touches_def map_io_def case_prod_beta)

lemma only_touches_std [simp]:
  "only_touches {p} (std_create p)" "only_touches {p} (std_write p d)"
  "only_touches {p} (std_flush p)" "only_touches {p} (std_open q)"
  unfolding std_create_def std_write_def std_flush_def std_open_def
  by (rule only_touches_fault, rule only_touchesI, simp split: option.split)+

lemma create_helper_spec:
  "create_helper base pre suf rs w = (res, w') \<Longrightarrow>
     outside w' = outside w \<and>
     (case res of
        Inl _ \<Rightarrow> files w' = files w
      | Inr p \<Rightarrow> files w p = None \<and> files w' = (files w)(p \<mapsto> [])
               \<and> (\<exists>x. p = path_join base (pre @ x @ suf)))"
proof (induction base pre suf rs w rule: create_helper.induct)
  case (2 base pre suf r rs w)
  let ?p = "path_join base (tmpname pre suf r)"
  let ?w = "w\<lparr>rand_names := tl (rand_names w)\<rparr>"
  show ?case
  proof (cases "files w ?p")
    case None
    let ?m = "\<lambda>w. (Inr ?p, w\<lparr>files := (files w)(?p \<mapsto> [])\<rparr>)"
    have eq: "with_fault ?m ?w = (res, w')" using "2.prems" None by (simp add: Let_def)
    show ?thesis
    proof (cases rule: with_fault_cases [of ?m ?w])
      case (run fs)
      then show ?thesis using eq None by (auto simp: tmpname_def)
    qed (use eq in auto)
  next
    case (Some c)
    then have ne: "files w ?p \<noteq> None" by simp
    have "create_helper base pre suf rs ?w = (res, w')"
      using "2.prems" Some by (simp add: Let_def)
    from "2.IH" [OF refl refl ne this] show ?thesis by (cases res) simp_all
  qed
qed auto

lemma tempfile_in_Inr:
  assumes "tempfile_in base pre suf w = (Inr p, w')"
  shows "files w p = None" "files w' = (files w)(p \<mapsto> [])" "outside w' = outside w"
    "\<exists>x. p = path_join base (pre @ x @ suf)"
  using create_helper_spec [OF assms [unfolded tempfile_in_def]] by auto

lemma tempfile_in_Inl:
  assumes "tempfile_in base pre suf w = (Inl e, w')"
  shows "files w' = files w" "outside w' = outside w"
  using create_helper_spec [OF assms [unfolded tempfile_in_def]] by auto

end
