(* ===== verification/Chrono.thy ===== *)
theory Chrono
  imports Prelude "HOL-Library.Product_Lexorder"
begin

text \<open>
  The part of \<^verbatim>\<open>chrono::DateTime<Utc>\<close> that FastBackup observes (vendored under
  \<^verbatim>\<open>src/vendor/chrono\<close>): construction from a calendar date and time, the order, the Unix
  timestamp, and the rendering with \<^verbatim>\<open>%Y-%m-%d_%H:%M:%S\<close>.

  A \<^verbatim>\<open>NaiveDate\<close> packs year, ordinal day and four year-flag bits into one \<^verbatim>\<open>i32\<close>. Of the flags
  only the top bit (1 in a common year, 0 in a leap year) is observed here, so the model keeps
  year, ordinal and that bit; the three weekday bits are left out.
\<close>

section \<open>Values and their order\<close>

datatype datetime =
  DateTime (dt_year: int) (dt_ordinal: nat) (dt_common: nat) (dt_secs: nat) (dt_frac: nat)

definition dt_key :: "datetime \<Rightarrow> int \<times> nat \<times> nat \<times> nat \<times> nat" where
  "dt_key t = (dt_year t, dt_ordinal t, dt_common t, dt_secs t, dt_frac t)"

lemma dt_key_inject [simp]: "dt_key s = dt_key t \<longleftrightarrow> s = t"
  by (cases s; cases t) (simp add: dt_key_def)

text \<open>The derived order: the packed date first, then seconds and nanoseconds.\<close>

instantiation datetime :: linorder
begin

definition less_eq_datetime :: "datetime \<Rightarrow> datetime \<Rightarrow> bool" where
  "less_eq_datetime s t \<longleftrightarrow> dt_key s \<le> dt_key t"

definition less_datetime :: "datetime \<Rightarrow> datetime \<Rightarrow> bool" where
  "less_datetime s t \<longleftrightarrow> dt_key s < dt_key t"

instance
proof
  fix x y z :: datetime
  show "x \<le> x"
    by (simp add: less_eq_datetime_def)
  show "x \<le> y \<Longrightarrow> y \<le> z \<Longrightarrow> x \<le> z"
    unfolding less_eq_datetime_def by (rule order_trans)
  show "x \<le> y \<Longrightarrow> y \<le> x \<Longrightarrow> x = y"
    using dt_key_inject [of x y] by (simp add: less_eq_datetime_def)
  show "x < y \<longleftrightarrow> x \<le> y \<and> \<not> y \<le> x"
    unfolding less_eq_datetime_def less_datetime_def by (rule less_le_not_le)
  show "x \<le> y \<or> y \<le> x"
    unfolding less_eq_datetime_def by (rule linear)
qed

end

section \<open>The Gregorian calendar\<close>

definition leap_year :: "int \<Rightarrow> bool" where
  "leap_year y \<longleftrightarrow> y mod 4 = 0 \<and> (y mod 100 \<noteq> 0 \<or> y mod 400 = 0)"

text \<open>The leap bit of \<^verbatim>\<open>YearFlags::from_year\<close>, which reads a table of the 400-year cycle.\<close>

definition common_flag :: "int \<Rightarrow> nat" where
  "common_flag y = (if leap_year (y mod 400) then 0 else 1)"

definition ndays :: "int \<Rightarrow> nat" where
  "ndays y = 366 - common_flag y"

text \<open>
  \<^verbatim>\<open>OL_TO_MDL\<close>: what to add to \<open>2 * ordinal + flag\<close> to get \<open>64 * month + 2 * day + flag\<close>.
  \<^verbatim>\<open>MDL_TO_OL\<close>: what to subtract for the way back, 0 where there is no such day.
\<close>

definition alt :: "nat \<Rightarrow> nat \<Rightarrow> nat \<Rightarrow> nat list" where
  "alt n a b = concat (replicate n [a, b])"

definition OL_TO_MDL :: "nat list" where
  "OL_TO_MDL =
     [0, 0] @ replicate 62 64 @ replicate 57 66 @ alt 31 74 72 @ alt 30 76 74 @ alt 31 80 78
     @ alt 30 82 80 @ alt 31 86 84 @ alt 31 88 86 @ alt 30 90 88 @ alt 31 94 92 @ alt 30 96 94
     @ alt 31 100 98"

definition MDL_TO_OL :: "nat list" where
  "MDL_TO_OL =
     replicate 64 0
     @ [0, 0] @ replicate 62 64
     @ [0, 0] @ replicate 57 66 @ replicate 5 0
     @ [0, 0] @ alt 31 72 74
     @ [0, 0] @ alt 30 74 76 @ [0, 0]
     @ [0, 0] @ alt 31 78 80
     @ [0, 0] @ alt 30 80 82 @ [0, 0]
     @ [0, 0] @ alt 31 84 86
     @ [0, 0] @ alt 31 86 88
     @ [0, 0] @ alt 30 88 90 @ [0, 0]
     @ [0, 0] @ alt 31 92 94
     @ [0, 0] @ alt 30 94 96 @ [0, 0]
     @ [0, 0] @ alt 31 98 100"

definition mdl :: "datetime \<Rightarrow> nat" where
  "mdl t = (let ol = 2 * dt_ordinal t + dt_common t in ol + OL_TO_MDL ! ol)"

definition month :: "datetime \<Rightarrow> nat" where
  "month t = mdl t div 64"

definition day :: "datetime \<Rightarrow> nat" where
  "day t = mdl t div 2 mod 32"

definition hour :: "datetime \<Rightarrow> nat" where
  "hour t = dt_secs t div 60 div 60"

definition minute :: "datetime \<Rightarrow> nat" where
  "minute t = dt_secs t div 60 mod 60"

definition second :: "datetime \<Rightarrow> nat" where
  "second t = dt_secs t mod 60"

definition MIN_YEAR :: int where
  "MIN_YEAR = - 262143"

definition MAX_YEAR :: int where
  "MAX_YEAR = 262142"

text \<open>\<^verbatim>\<open>Utc.with_ymd_and_hms(y, m, d, h, min, s)\<close>: \<^const>\<open>None\<close> when there is no such moment.\<close>

definition from_ymd_hms :: "int \<Rightarrow> nat \<Rightarrow> nat \<Rightarrow> nat \<Rightarrow> nat \<Rightarrow> nat \<Rightarrow> datetime option" where
  "from_ymd_hms y m d h mi s =
     (if \<not> (m \<le> 12 \<and> d \<le> 31) then None
      else if y < MIN_YEAR \<or> y > MAX_YEAR then None
      else let flag = common_flag y; i = 64 * m + 2 * d + flag; v = MDL_TO_OL ! i
           in if v = 0 then None
              else if h \<ge> 24 \<or> mi \<ge> 60 \<or> s \<ge> 60 then None
              else Some (DateTime y ((i - v) div 2) flag (h * 3600 + mi * 60 + s) 0))"

text \<open>Well-formed values: what every constructor of the crate establishes.\<close>

definition dt_wf :: "datetime \<Rightarrow> bool" where
  "dt_wf t \<longleftrightarrow> 1 \<le> dt_ordinal t \<and> dt_ordinal t \<le> ndays (dt_year t)
     \<and> dt_common t = common_flag (dt_year t)
     \<and> dt_secs t < 86400 \<and> dt_frac t < 2000000000"

section \<open>Unix time\<close>

definition num_days_from_ce :: "datetime \<Rightarrow> int" where
  "num_days_from_ce t =
     (let year = dt_year t - 1;
          excess = 1 + (- year) div 400;
          (year, ndays) = (if year < 0 then (year + excess * 400, - (excess * 146097)) else (year, 0));
          div_100 = year div 100
      in ndays + ((year * 1461) div 4 - div_100 + div_100 div 4) + int (dt_ordinal t))"

definition UNIX_EPOCH_DAY :: int where
  "UNIX_EPOCH_DAY = 719163"

definition timestamp :: "datetime \<Rightarrow> int" where
  "timestamp t = (num_days_from_ce t - UNIX_EPOCH_DAY) * 86400 + int (dt_secs t)"

definition timestamp_subsec_nanos :: "datetime \<Rightarrow> nat" where
  "timestamp_subsec_nanos t = dt_frac t"

section \<open>Rendering\<close>

text \<open>\<^verbatim>\<open>write_two\<close> with zero padding.\<close>

definition write_two :: "nat \<Rightarrow> string" where
  "write_two v = [digit_char (v div 10), digit_char (v mod 10)]"

text \<open>
  \<^verbatim>\<open>write_year\<close> with zero padding: two pairs of digits for years of four digits, else at least
  four digits, with a sign outside \<open>0..9999\<close> (the sign counts in the width of five).
\<close>

definition write_year :: "int \<Rightarrow> string" where
  "write_year y =
     (if 1000 \<le> y \<and> y \<le> 9999 then write_two (nat (y div 100)) @ write_two (nat (y mod 100))
      else if 0 \<le> y \<and> y < 10000 then pad_zeros 4 (show_nat (nat y))
      else (if y < 0 then ''-'' else ''+'') @ pad_zeros 4 (show_nat (nat \<bar>y\<bar>)))"

definition format_name_time :: "datetime \<Rightarrow> string" where
  "format_name_time t =
     write_year (dt_year t) @ ''-'' @ write_two (month t) @ ''-'' @ write_two (day t) @ ''_''
     @ write_two (hour t) @ '':'' @ write_two (minute t) @ '':''
     @ write_two (second t + dt_frac t div 1000000000)"

section \<open>Lemmas\<close>

text \<open>The shortcut of the crate equals the textbook count of days.\<close>

definition days_before_year :: "int \<Rightarrow> int" where
  "days_before_year y = 365 * (y - 1) + (y - 1) div 4 - (y - 1) div 100 + (y - 1) div 400"

lemma days_cycle: "days_before_year (y + 400 * k) = days_before_year y + 146097 * k"
proof -
  have shift: "y + 400 * k - 1 = (y - 1) + 4 * (100 * k)" "y + 400 * k - 1 = (y - 1) + 100 * (4 * k)"
    "y + 400 * k - 1 = (y - 1) + 400 * k"
    by simp_all
  have "(y + 400 * k - 1) div 4 = (y - 1) div 4 + 100 * k"
    unfolding shift(1) by (subst div_mult_self2) simp_all
  moreover have "(y + 400 * k - 1) div 100 = (y - 1) div 100 + 4 * k"
    unfolding shift(2) by (subst div_mult_self2) simp_all
  moreover have "(y + 400 * k - 1) div 400 = (y - 1) div 400 + k"
    unfolding shift(3) by (subst div_mult_self2) simp_all
  ultimately show ?thesis unfolding days_before_year_def by algebra
qed

lemma div_100_div_4: "(x::int) div 100 div 4 = x div 400"
  by (simp add: zdiv_zmult2_eq [symmetric])

lemma julian_quarter: "(x * 1461) div 4 = 365 * x + x div (4::int)"
proof -
  have "x * 1461 = x + 4 * (365 * x)" by simp
  then show ?thesis by (simp only: div_mult_self2)
qed

lemma days_after_year:
  "(x * 1461) div 4 - x div 100 + x div 100 div 4 = days_before_year (x + 1)"
  unfolding days_before_year_def julian_quarter div_100_div_4 by simp

lemma num_days_from_ce_eq:
  "num_days_from_ce t = days_before_year (dt_year t) + int (dt_ordinal t)"
proof (cases "dt_year t - 1 < 0")
  case True
  define e where "e = 1 + (- (dt_year t - 1)) div 400"
  have "days_before_year (dt_year t - 1 + e * 400 + 1) = days_before_year (dt_year t) + 146097 * e"
    using days_cycle [of "dt_year t" e] by (simp add: algebra_simps)
  moreover have "num_days_from_ce t =
      - (e * 146097) + days_before_year (dt_year t - 1 + e * 400 + 1) + int (dt_ordinal t)"
    unfolding num_days_from_ce_def Let_def e_def [symmetric] days_after_year [symmetric]
    using True by (simp only: if_True prod.case)
  ultimately show ?thesis by algebra
next
  case False
  then have "num_days_from_ce t = 0 + days_before_year (dt_year t - 1 + 1) + int (dt_ordinal t)"
    unfolding num_days_from_ce_def Let_def days_after_year [symmetric]
    by (simp only: if_False prod.case)
  then show ?thesis by simp
qed

lemma common_flag_eq: "common_flag y = (if leap_year y then 0 else 1)"
proof -
  have "y mod 400 mod 4 = y mod 4" "y mod 400 mod 100 = y mod 100"
    by (simp_all add: mod_mod_cancel)
  then show ?thesis by (simp add: common_flag_def leap_year_def)
qed

lemma div_pred:
  assumes "0 < (k::int)"
  shows "y div k = (y - 1) div k + (if y mod k = 0 then 1 else 0)"
proof (cases "y mod k = 0")
  case True
  have eq: "y - 1 = k * (y div k - 1) + (k - 1)"
    using True div_mult_mod_eq [of y k] by (simp add: algebra_simps)
  have "(y - 1) div k = y div k - 1"
    by (rule int_div_pos_eq [OF eq]) (use assms in simp_all)
  then show ?thesis using True by simp
next
  case False
  have eq: "y - 1 = k * (y div k) + (y mod k - 1)"
    using div_mult_mod_eq [of y k] by (simp add: algebra_simps)
  have "0 \<le> y mod k - 1" "y mod k - 1 < k"
    using False assms pos_mod_sign [of k y] pos_mod_bound [of k y] by linarith+
  then have "(y - 1) div k = y div k" by (rule int_div_pos_eq [OF eq])
  then show ?thesis using False by simp
qed

lemma leap_step:
  fixes a b c a' b' c' y :: int
  assumes "a' = a + (if p then 1 else 0)" "b' = b + (if q then 1 else 0)"
    "c' = c + (if r then 1 else 0)" "r \<Longrightarrow> q" "q \<Longrightarrow> p"
  shows "365 * y + a' - b' + c' =
    365 * (y - 1) + a - b + c + int (366 - (if p \<and> (\<not> q \<or> r) then 0 else 1))"
  using assms by auto

lemma days_before_year_Suc: "days_before_year (y + 1) = days_before_year y + int (ndays y)"
proof -
  have m: "y mod 400 = 0 \<Longrightarrow> y mod 100 = 0" "y mod 100 = 0 \<Longrightarrow> y mod 4 = 0"
    using dvd_trans [of 100 400 y] dvd_trans [of 4 100 y] by (simp_all add: mod_eq_0_iff_dvd)
  show ?thesis
    unfolding days_before_year_def ndays_def common_flag_eq leap_year_def add_diff_cancel_right'
    by (rule leap_step [OF div_pred div_pred div_pred m]) (assumption | rule zero_less_numeral)+
qed

lemma days_before_year_mono:
  assumes "y < y'"
  shows "days_before_year y + int (ndays y) \<le> days_before_year y'"
proof -
  obtain n where n: "y' = y + 1 + int n" using assms zless_iff_Suc_zadd [of y y'] by auto
  have "days_before_year (y + 1) \<le> days_before_year (y + 1 + int n)" for n
  proof (induction n)
    case (Suc n)
    then show ?case using days_before_year_Suc [of "y + 1 + int n"] by (simp add: algebra_simps)
  qed simp
  then show ?thesis using n by (simp add: days_before_year_Suc [symmetric])
qed

section \<open>Month and day from the packed ordinal\<close>

lemma length_alt [simp]: "length (alt n a b) = 2 * n"
  by (induction n) (simp_all add: alt_def)

lemma alt_Suc: "alt (Suc n) a b = a # b # alt n a b"
  by (simp add: alt_def)

lemma nth_alt: "i < 2 * n \<Longrightarrow> alt n a b ! i = (if even i then a else b)"
proof (induction n arbitrary: i)
  case (Suc n)
  consider "i = 0" | "i = 1" | j where "i = Suc (Suc j)"
    by (metis One_nat_def not0_implies_Suc)
  then show ?case using Suc by cases (simp_all add: alt_Suc)
qed simp

text \<open>One month of the table, from March on: \<open>B\<close> days precede it in a leap year.\<close>

lemma month_block:
  assumes T: "T = pre @ alt n (64 * m - 2 * B + 2) (64 * m - 2 * B) @ post"
    and pre: "length pre = 2 * B + 1" and f: "f \<le> 1" and B: "1 \<le> B" "2 * B \<le> 64 * m"
    and o: "B - f < k" "k \<le> B - f + n"
  shows "2 * k + f + T ! (2 * k + f) = 64 * m + 2 * (k - (B - f)) + f"
proof -
  define i where "i = 2 * k + f - (2 * B + 1)"
  have i: "2 * k + f = length pre + i" "i < 2 * n" "even i \<longleftrightarrow> f = 1"
    using f B o pre by (cases "f = 0"; auto simp: i_def)+
  have "T ! (2 * k + f) = alt n (64 * m - 2 * B + 2) (64 * m - 2 * B) ! i"
    unfolding T i(1) using i(2) by (simp add: nth_append)
  also have "\<dots> = 64 * m - 2 * B + (if f = 1 then 2 else 0)"
    using i by (simp add: nth_alt)
  finally show ?thesis using f B o by (cases "f = 0") auto
qed

lemma replicate_block:
  assumes "T = pre @ replicate n v @ post" "length pre \<le> i" "i < length pre + n"
  shows "T ! i = v"
proof -
  obtain j where "i = length pre + j" "j < n" using assms(2,3) by (auto simp: le_iff_add)
  then show ?thesis using assms(1) by (simp add: nth_append)
qed

definition month_lengths :: "nat \<Rightarrow> nat list" where
  "month_lengths flag = [31, 29 - flag, 31, 30, 31, 30, 31, 31, 30, 31, 30, 31]"

definition ol_splits :: "nat \<Rightarrow> nat \<Rightarrow> nat \<Rightarrow> bool" where
  "ol_splits f k m \<longleftrightarrow> 1 \<le> m \<and> m \<le> 12 \<and>
     (let b = sum_list (take (m - 1) (month_lengths f))
      in b < k \<and> k \<le> b + month_lengths f ! (m - 1)
         \<and> 2 * k + f + OL_TO_MDL ! (2 * k + f) = 64 * m + 2 * (k - b) + f)"

lemma ol_splits_jan_feb:
  assumes "f \<le> 1" "1 \<le> k"
  shows "k \<le> 31 \<Longrightarrow> ol_splits f k 1"
    and "31 < k \<Longrightarrow> k \<le> 60 - f \<Longrightarrow> ol_splits f k 2"
  subgoal using assms replicate_block [of OL_TO_MDL "[0, 0]" 62 64 _ "2 * k + f"]
    by (simp add: OL_TO_MDL_def ol_splits_def month_lengths_def)
  subgoal using assms replicate_block [of OL_TO_MDL "[0, 0] @ replicate 62 64" 57 66 _ "2 * k + f"]
    by (cases "f = 0") (simp_all add: OL_TO_MDL_def ol_splits_def month_lengths_def)
  done

lemma ol_splits_rest:
  assumes "f \<le> 1"
  shows "60 - f < k \<Longrightarrow> k \<le> 91 - f \<Longrightarrow> ol_splits f k 3"
    and "91 - f < k \<Longrightarrow> k \<le> 121 - f \<Longrightarrow> ol_splits f k 4"
    and "121 - f < k \<Longrightarrow> k \<le> 152 - f \<Longrightarrow> ol_splits f k 5"
    and "152 - f < k \<Longrightarrow> k \<le> 182 - f \<Longrightarrow> ol_splits f k 6"
    and "182 - f < k \<Longrightarrow> k \<le> 213 - f \<Longrightarrow> ol_splits f k 7"
    and "213 - f < k \<Longrightarrow> k \<le> 244 - f \<Longrightarrow> ol_splits f k 8"
    and "244 - f < k \<Longrightarrow> k \<le> 274 - f \<Longrightarrow> ol_splits f k 9"
    and "274 - f < k \<Longrightarrow> k \<le> 305 - f \<Longrightarrow> ol_splits f k 10"
    and "305 - f < k \<Longrightarrow> k \<le> 335 - f \<Longrightarrow> ol_splits f k 11"
    and "335 - f < k \<Longrightarrow> k \<le> 366 - f \<Longrightarrow> ol_splits f k 12"
  subgoal using assms month_block [of OL_TO_MDL "[0, 0] @ replicate 62 64 @ replicate 57 66" 31 3 60 _ f k]
    by (simp add: OL_TO_MDL_def ol_splits_def month_lengths_def)
  subgoal using assms month_block [of OL_TO_MDL "[0, 0] @ replicate 62 64 @ replicate 57 66 @ alt 31 74 72" 30 4 91 _ f k]
    by (simp add: OL_TO_MDL_def ol_splits_def month_lengths_def)
  subgoal using assms month_block [of OL_TO_MDL "[0, 0] @ replicate 62 64 @ replicate 57 66 @ alt 31 74 72 @ alt 30 76 74" 31 5 121 _ f k]
    by (simp add: OL_TO_MDL_def ol_splits_def month_lengths_def)
  subgoal using assms month_block [of OL_TO_MDL "[0, 0] @ replicate 62 64 @ replicate 57 66 @ alt 31 74 72 @ alt 30 76 74 @ alt 31 80 78" 30 6 152 _ f k]
    by (simp add: OL_TO_MDL_def ol_splits_def month_lengths_def)
  subgoal using assms month_block [of OL_TO_MDL "[0, 0] @ replicate 62 64 @ replicate 57 66 @ alt 31 74 72 @ alt 30 76 74 @ alt 31 80 78 @ alt 30 82 80" 31 7 182 _ f k]
    by (simp add: OL_TO_MDL_def ol_splits_def month_lengths_def)
  subgoal using assms month_block [of OL_TO_MDL "[0, 0] @ replicate 62 64 @ replicate 57 66 @ alt 31 74 72 @ alt 30 76 74 @ alt 31 80 78 @ alt 30 82 80 @ alt 31 86 84" 31 8 213 _ f k]
    by (simp add: OL_TO_MDL_def ol_splits_def month_lengths_def)
  subgoal using assms month_block [of OL_TO_MDL "[0, 0] @ replicate 62 64 @ replicate 57 66 @ alt 31 74 72 @ alt 30 76 74 @ alt 31 80 78 @ alt 30 82 80 @ alt 31 86 84 @ alt 31 88 86" 30 9 244 _ f k]
    by (simp add: OL_TO_MDL_def ol_splits_def month_lengths_def)
  subgoal using assms month_block [of OL_TO_MDL "[0, 0] @ replicate 62 64 @ replicate 57 66 @ alt 31 74 72 @ alt 30 76 74 @ alt 31 80 78 @ alt 30 82 80 @ alt 31 86 84 @ alt 31 88 86 @ alt 30 90 88" 31 10 274 _ f k]
    by (simp add: OL_TO_MDL_def ol_splits_def month_lengths_def)
  subgoal using assms month_block [of OL_TO_MDL "[0, 0] @ replicate 62 64 @ replicate 57 66 @ alt 31 74 72 @ alt 30 76 74 @ alt 31 80 78 @ alt 30 82 80 @ alt 31 86 84 @ alt 31 88 86 @ alt 30 90 88 @ alt 31 94 92" 30 11 305 _ f k]
    by (simp add: OL_TO_MDL_def ol_splits_def month_lengths_def)
  subgoal using assms month_block [of OL_TO_MDL "[0, 0] @ replicate 62 64 @ replicate 57 66 @ alt 31 74 72 @ alt 30 76 74 @ alt 31 80 78 @ alt 30 82 80 @ alt 31 86 84 @ alt 31 88 86 @ alt 30 90 88 @ alt 31 94 92 @ alt 30 96 94" 31 12 335 _ f k]
    by (simp add: OL_TO_MDL_def ol_splits_def month_lengths_def)
  done


lemma ol_splits_ex:
  assumes "f \<le> 1" "1 \<le> k" "k \<le> 366 - f"
  shows "\<exists>m. ol_splits f k m"
proof -
  note J = ol_splits_jan_feb [OF assms(1,2)] and R = ol_splits_rest [OF assms(1), of k]
  consider "k \<le> 31" | "31 < k" "k \<le> 60 - f" | "60 - f < k" "k \<le> 91 - f"
    | "91 - f < k" "k \<le> 121 - f" | "121 - f < k" "k \<le> 152 - f" | "152 - f < k" "k \<le> 182 - f"
    | "182 - f < k" "k \<le> 213 - f" | "213 - f < k" "k \<le> 244 - f" | "244 - f < k" "k \<le> 274 - f"
    | "274 - f < k" "k \<le> 305 - f" | "305 - f < k" "k \<le> 335 - f" | "335 - f < k" "k \<le> 366 - f"
    using assms(3) by (meson not_le)
  then show ?thesis by cases (blast intro: J R)+
qed

lemma month_lengths_le: "m < 12 \<Longrightarrow> month_lengths f ! m \<le> 31"
  by (auto simp: month_lengths_def less_Suc_eq numeral_eq_Suc)

lemma month_day_split:
  assumes "dt_wf t"
  shows "1 \<le> month t \<and> month t \<le> 12 \<and> 1 \<le> day t
    \<and> day t \<le> month_lengths (dt_common t) ! (month t - 1)
    \<and> dt_ordinal t = sum_list (take (month t - 1) (month_lengths (dt_common t))) + day t"
proof -
  let ?f = "dt_common t" and ?k = "dt_ordinal t"
  have f: "?f \<le> 1" "1 \<le> ?k" "?k \<le> 366 - ?f"
    using assms by (auto simp: dt_wf_def ndays_def common_flag_def)
  then obtain m where m: "ol_splits ?f ?k m" using ol_splits_ex by blast
  define b where "b = sum_list (take (m - 1) (month_lengths ?f))"
  define d where "d = ?k - b"
  have m: "1 \<le> m" "m \<le> 12" "?k = b + d" "1 \<le> d" "d \<le> month_lengths ?f ! (m - 1)"
    and eq: "mdl t = 64 * m + (2 * d + ?f)"
    using m by (auto simp: ol_splits_def b_def d_def Let_def mdl_def)
  have "m - 1 < 12" using m by linarith
  then have "d \<le> 31" using month_lengths_le m(5) order_trans by blast
  then have "month t = m" using f(1) eq by (simp add: month_def)
  moreover have "mdl t div 2 = 32 * m + d" using f(1) eq by auto
  then have "day t = d" using \<open>d \<le> 31\<close> by (simp add: day_def)
  ultimately show ?thesis using m by (simp add: b_def)
qed

section \<open>Time stamps respect the order\<close>

lemma num_days_less:
  assumes "dt_wf s" "dt_wf t" "(dt_year s, dt_ordinal s) < (dt_year t, dt_ordinal t)"
  shows "num_days_from_ce s < num_days_from_ce t"
proof (cases "dt_year s < dt_year t")
  case True
  from days_before_year_mono [OF this] assms(1,2) show ?thesis
    by (simp add: num_days_from_ce_eq dt_wf_def)
next
  case False
  with assms(3) have "dt_year s = dt_year t" "dt_ordinal s < dt_ordinal t" by auto
  then show ?thesis by (simp add: num_days_from_ce_eq)
qed

lemma timestamp_less:
  assumes "dt_wf s" "dt_wf t" "s < t"
  shows "(timestamp s, dt_frac s) < (timestamp t, dt_frac t)"
proof (cases "(dt_year s, dt_ordinal s) = (dt_year t, dt_ordinal t)")
  case True
  then have "num_days_from_ce s = num_days_from_ce t" "dt_common s = dt_common t"
    using assms(1,2) by (simp_all add: num_days_from_ce_eq dt_wf_def)
  then show ?thesis using True assms(3)
    by (auto simp: less_datetime_def dt_key_def timestamp_def)
next
  case False
  with assms(3) have "(dt_year s, dt_ordinal s) < (dt_year t, dt_ordinal t)"
    by (auto simp: less_datetime_def dt_key_def)
  from num_days_less [OF assms(1,2) this]
  have "(num_days_from_ce s - UNIX_EPOCH_DAY) * 86400 + 86400
      \<le> (num_days_from_ce t - UNIX_EPOCH_DAY) * 86400" by simp
  moreover have "int (dt_secs s) < 86400" using assms(1) by (simp add: dt_wf_def)
  ultimately have "timestamp s < timestamp t" by (simp add: timestamp_def)
  then show ?thesis by simp
qed

lemma timestamp_order:
  assumes "dt_wf s" "dt_wf t"
  shows "s < t \<longleftrightarrow> (timestamp s, dt_frac s) < (timestamp t, dt_frac t)"
  using timestamp_less [OF assms] timestamp_less [OF assms(2,1)]
  by (metis less_asym linorder_less_linear)

section \<open>The rendering determines the second\<close>

lemma digits_val_zeros: "digits_val 0 (replicate k (CHR ''0'') @ s) = digits_val 0 s"
  by (induction k) (simp_all add: digit_val_def)

lemma digits_val_pad [simp]: "digits_val 0 (pad_zeros k (show_nat n)) = Some n"
  by (simp add: pad_zeros_def digits_val_zeros)

lemma length_pad_zeros: "n < 10 ^ k \<Longrightarrow> 0 < k \<Longrightarrow> length (pad_zeros k (show_nat n)) = k"
  using length_show_nat [of n k] by (simp add: pad_zeros_def)

lemma write_two_inj: "v < 100 \<Longrightarrow> w < 100 \<Longrightarrow> write_two v = write_two w \<Longrightarrow> v = w"
proof -
  have "digits_val 0 (write_two v) = Some v" if "v < 100" for v
    using that by (simp add: write_two_def)
  then show "v < 100 \<Longrightarrow> w < 100 \<Longrightarrow> write_two v = write_two w \<Longrightarrow> v = w"
    by (metis option.inject)
qed

lemma length_write_two [simp]: "length (write_two v) = 2"
  by (simp add: write_two_def)

lemma write_year_four:
  assumes "0 \<le> y" "y \<le> 9999"
  shows "length (write_year y) = 4 \<and> digits_val 0 (write_year y) = Some (nat y)"
proof (cases "1000 \<le> y")
  case True
  define n where "n = nat y"
  have n: "y = int n" "n < 10000" using assms by (auto simp: n_def)
  have "nat (y div 100) = n div 100" "nat (y mod 100) = n mod 100"
    using n by (simp_all add: nat_div_distrib nat_mod_distrib)
  moreover have "digits_val 0 (write_two (n div 100) @ write_two (n mod 100)) = Some n"
  proof -
    have "n div 100 < 100" using n(2) by (simp add: less_mult_imp_div_less)
    then show ?thesis by (simp add: write_two_def digits_val_append)
  qed
  ultimately show ?thesis using True assms n by (simp add: write_year_def)
next
  case False
  then have "nat y < 10 ^ 4" using assms by simp
  then show ?thesis using False assms length_pad_zeros [of "nat y" 4] by (simp add: write_year_def)
qed

lemma month_le: "dt_wf t \<Longrightarrow> month t < 100"
  using month_day_split [of t] by simp

lemma day_le: "day t < 100"
  using mod_less_divisor [of 32 "mdl t div 2"] by (simp add: day_def)

lemma hms_less: "dt_wf t \<Longrightarrow> hour t < 100" "minute t < 100" "second t < 100"
proof -
  show "hour t < 100" if "dt_wf t"
    using that by (simp add: dt_wf_def hour_def less_mult_imp_div_less div_mult2_eq [symmetric])
qed (simp_all add: minute_def second_def order_less_trans [OF mod_less_divisor])

lemma secs_hms: "dt_secs t = hour t * 3600 + minute t * 60 + second t"
proof -
  have "dt_secs t = dt_secs t div 60 * 60 + second t"
    unfolding second_def by simp
  moreover have "dt_secs t div 60 = hour t * 60 + minute t"
    unfolding hour_def minute_def by simp
  ultimately show ?thesis by simp
qed

lemma format_name_time_inj:
  assumes wf: "dt_wf s" "dt_wf t"
    and year: "0 \<le> dt_year s" "dt_year s \<le> 9999" "0 \<le> dt_year t" "dt_year t \<le> 9999"
    and frac: "dt_frac s < 1000000000" "dt_frac t < 1000000000"
    and eq: "format_name_time s = format_name_time t"
  shows "dt_year s = dt_year t \<and> dt_ordinal s = dt_ordinal t \<and> dt_secs s = dt_secs t"
proof -
  note ws = write_year_four [OF year(1,2)] and wt = write_year_four [OF year(3,4)]
  have "write_year (dt_year s) = write_year (dt_year t)"
    and two: "write_two (month s) = write_two (month t)" "write_two (day s) = write_two (day t)"
      "write_two (hour s) = write_two (hour t)" "write_two (minute s) = write_two (minute t)"
      "write_two (second s) = write_two (second t)"
    using eq frac ws wt by (simp_all add: format_name_time_def)
  then have y: "dt_year s = dt_year t" using ws wt year by (metis eq_nat_nat_iff option.inject)
  have "month s = month t" "day s = day t" "hour s = hour t" "minute s = minute t" "second s = second t"
    using two by (simp_all add: write_two_inj month_le [OF wf(1)] month_le [OF wf(2)] day_le
        hms_less(1) [OF wf(1)] hms_less(1) [OF wf(2)] hms_less(2,3))
  then show ?thesis
    using y wf month_day_split [OF wf(1)] month_day_split [OF wf(2)] secs_hms [of s] secs_hms [of t]
    by (simp add: dt_wf_def)
qed

lemma format_name_time_plain:
  assumes "dt_wf t" "0 \<le> dt_year t" "dt_year t \<le> 9999" "dt_frac t < 1000000000"
  shows "length (format_name_time t) = 19"
  using write_year_four [OF assms(2,3)] by (simp add: format_name_time_def)

end
