(* ===== verification/Core.thy ===== *)
theory Core
  imports World Chrono "HOL-Library.Multiset"
begin

text \<open>
  The crate \<^verbatim>\<open>backup-core\<close>: the error type and its messages (\<^verbatim>\<open>error.rs\<close>), backup formats, kinds
  and file names (\<^verbatim>\<open>format.rs\<close>, \<^verbatim>\<open>backup.rs\<close>), the retention rule, the database target with its
  secret (\<^verbatim>\<open>target.rs\<close>) and the decompression of legacy backups (\<^verbatim>\<open>compression.rs\<close>).
\<close>

section \<open>Errors\<close>

datatype error =
    Config string
  | NotFound string
  | FailedPrecondition string
  | Busy string
  | Timeout string duration
  | InvalidArgument string
  | Storage string
  | Unavailable string
  | Process string string string
  | Io string io_error

type_synonym 'a result = "error + 'a"

fun display_error :: "error \<Rightarrow> string" where
  "display_error (Config m) = ''configuration error: '' @ m"
| "display_error (NotFound m) = ''not found: '' @ m"
| "display_error (FailedPrecondition m) = ''precondition failed: '' @ m"
| "display_error (Busy m) = ''busy: '' @ m"
| "display_error (Timeout operation limit) = operation @ '' timed out after '' @ duration_debug limit"
| "display_error (InvalidArgument m) = ''invalid argument: '' @ m"
| "display_error (Storage m) = ''storage error: '' @ m"
| "display_error (Unavailable m) = ''storage unavailable: '' @ m"
| "display_error (Process program status stderr) =
     ''`'' @ program @ ''` failed with '' @ status @ '': '' @ stderr"
| "display_error (Io ctxt source) = ctxt @ '': '' @ source"

section \<open>Names of formats and kinds\<close>

text \<open>
  An enumeration that is stored by name: every value has a name, a name is read back as its
  value, and nothing else is read. The two enumerations below have this contract.
\<close>

locale named_enum =
  fixes as_str :: "'a \<Rightarrow> string"
    and parse :: "string \<Rightarrow> 'a option"
  assumes parse_as_str: "parse (as_str x) = Some x"
    and as_str_parse: "parse s = Some x \<Longrightarrow> as_str x = s"
begin

lemma as_str_inject: "as_str x = as_str y \<longleftrightarrow> x = y"
  using parse_as_str by (metis option.inject)

lemma parse_iff: "parse s = Some x \<longleftrightarrow> s = as_str x"
  using parse_as_str as_str_parse by blast

lemma parse_unknown: "s \<notin> range as_str \<Longrightarrow> parse s = None"
  using as_str_parse by (cases "parse s") auto

end

datatype backup_format = PgCustom | LegacyJsonZstd

fun format_as_str :: "backup_format \<Rightarrow> string" where
  "format_as_str PgCustom = ''pg_custom''"
| "format_as_str LegacyJsonZstd = ''legacy_json_zstd''"

definition format_parse :: "string \<Rightarrow> backup_format option" where
  "format_parse value =
     (if value = ''pg_custom'' then Some PgCustom
      else if value = ''legacy_json_zstd'' then Some LegacyJsonZstd
      else None)"

interpretation fmt: named_enum format_as_str format_parse
proof
  show "format_parse (format_as_str x) = Some x" for x
    by (cases x) (simp_all add: format_parse_def)
  show "format_parse s = Some x \<Longrightarrow> format_as_str x = s" for s x
    by (auto simp: format_parse_def split: if_splits)
qed

datatype backup_kind = Regular | PreRestore

fun kind_as_str :: "backup_kind \<Rightarrow> string" where
  "kind_as_str Regular = ''regular''"
| "kind_as_str PreRestore = ''pre_restore''"

definition kind_parse :: "string option \<Rightarrow> backup_kind result" where
  "kind_parse value =
     (case value of
        None \<Rightarrow> Inr Regular
      | Some v \<Rightarrow>
          if v = ''regular'' then Inr Regular
          else if v = ''pre_restore'' then Inr PreRestore
          else Inl (FailedPrecondition (''unknown backup kind '' @ quoted v)))"

interpretation knd: named_enum kind_as_str "\<lambda>s. res_ok (kind_parse (Some s))"
proof
  show "res_ok (kind_parse (Some (kind_as_str x))) = Some x" for x
    by (cases x) (simp_all add: kind_parse_def)
  show "res_ok (kind_parse (Some s)) = Some x \<Longrightarrow> kind_as_str x = s" for s x
    by (auto simp: kind_parse_def split: if_splits)
qed

lemma kind_parse_as_str [simp]: "kind_parse (Some (kind_as_str k)) = Inr k"
  using knd.parse_as_str [of k] by (simp add: res_ok_Some_iff)

section \<open>File names\<close>

definition PG_CUSTOM_EXTENSION :: string where
  "PG_CUSTOM_EXTENSION = ''pgdump''"

definition LEGACY_EXTENSION :: string where
  "LEGACY_EXTENSION = ''dump''"

definition PRE_RESTORE_PREFIX :: string where
  "PRE_RESTORE_PREFIX = ''pre_restore_''"

lemmas [fb_const] = PG_CUSTOM_EXTENSION_def LEGACY_EXTENSION_def PRE_RESTORE_PREFIX_def

definition backup_file_name :: "string \<Rightarrow> backup_kind \<Rightarrow> datetime \<Rightarrow> string" where
  "backup_file_name db_name kind now =
     (case kind of Regular \<Rightarrow> [] | PreRestore \<Rightarrow> PRE_RESTORE_PREFIX)
     @ ''backup_'' @ db_name @ ''_'' @ format_name_time now @ ''.'' @ PG_CUSTOM_EXTENSION"

definition detect_format :: "string \<Rightarrow> string option \<Rightarrow> backup_format result" where
  "detect_format file_name format_property =
     (case format_property of
        Some value \<Rightarrow>
          ok_or (FailedPrecondition (''unknown backup format '' @ quoted value @ '' of '' @ quoted file_name))
            (format_parse value)
      | None \<Rightarrow>
          (case path_extension file_name of
             Some e \<Rightarrow>
               if e = PG_CUSTOM_EXTENSION then Inr PgCustom
               else if e = LEGACY_EXTENSION then Inr LegacyJsonZstd
               else Inl (FailedPrecondition (''could not detect backup format of '' @ quoted file_name))
           | None \<Rightarrow> Inl (FailedPrecondition (''could not detect backup format of '' @ quoted file_name))))"

section \<open>Backups\<close>

record backup_info =
  b_id :: string
  b_name :: string
  b_created_at :: datetime
  b_size_bytes :: "64 word option"
  b_md5 :: "string option"
  b_format :: backup_format
  b_kind :: backup_kind

record 'a page =
  items :: "'a list"
  next_page_token :: "string option"

record upload_request =
  ur_path :: path
  ur_name :: string
  ur_db_name :: string
  ur_format :: backup_format
  ur_kind :: backup_kind

definition pg_dump :: "path \<Rightarrow> string \<Rightarrow> backup_kind \<Rightarrow> datetime \<Rightarrow> upload_request" where
  "pg_dump path db_name kind now =
     \<lparr>ur_path = path, ur_name = backup_file_name db_name kind now, ur_db_name = db_name,
      ur_format = PgCustom, ur_kind = kind\<rparr>"

definition prunable :: "backup_info \<Rightarrow> bool" where
  "prunable b \<longleftrightarrow> b_kind b = Regular \<and> b_format b = PgCustom"

text \<open>\<^verbatim>\<open>sort_by_key\<close> is a stable sort; so is \<^const>\<open>sort_key\<close>.\<close>

definition retention_candidates :: "backup_info list \<Rightarrow> nat \<Rightarrow> backup_info list" where
  "retention_candidates backups keep =
     drop keep (sort_key (\<lambda>b. Reverse (b_created_at b)) (filter prunable backups))"

section \<open>The database target\<close>

datatype secret = Secret (expose: string)

definition debug_secret :: "secret \<Rightarrow> string" where
  "debug_secret s = ''Secret(***)''"

record db_target =
  host :: string
  port :: "16 word"
  user :: string
  password :: secret
  db_name :: string

definition debug_db_target :: "db_target \<Rightarrow> string" where
  "debug_db_target t =
     ''DbTarget { host: '' @ str_debug (host t) @ '', port: '' @ show_nat (unat (port t))
     @ '', user: '' @ str_debug (user t) @ '', password: '' @ debug_secret (password t)
     @ '', name: '' @ str_debug (db_name t) @ '' }''"

section \<open>Decompression of legacy backups\<close>

text \<open>
  \<open>copy_decode\<close> stands for \<^verbatim>\<open>zstd::stream::copy_decode\<close>, the decoder of the C library: it decodes
  an input and writes the result to an open file.
\<close>

definition decompress_file ::
  "(bytes \<Rightarrow> path \<Rightarrow> ('e world, io_error + unit) io) \<Rightarrow> path \<Rightarrow> path \<Rightarrow> ('e world, unit result) io" where
  "decompress_file copy_decode src dst =
     try_io (map_io (map_err (Io (''Could not open '' @ str_debug src))) (std_open src)) (\<lambda>input.
     try_io (map_io (map_err (Io (''Could not create '' @ str_debug dst))) (std_create dst)) (\<lambda>_.
     try_io (map_io (map_err (Io ''Could not decompress legacy backup'')) (copy_decode input dst)) (\<lambda>_.
     map_io (map_err (Io ''Could not write decompressed backup'')) (std_flush dst))))"

section \<open>Properties\<close>

subsection \<open>Retention\<close>

lemma retention_split:
  "\<exists>kept. mset kept + mset (retention_candidates bs keep) = mset (filter prunable bs)
     \<and> length kept = min keep (length (filter prunable bs))
     \<and> (\<forall>k\<in>set kept. \<forall>c\<in>set (retention_candidates bs keep). b_created_at c \<le> b_created_at k)"
proof -
  define srt where "srt = sort_key (\<lambda>b. Reverse (b_created_at b)) (filter prunable bs)"
  have s: "sorted (map (\<lambda>b. Reverse (b_created_at b)) (take keep srt @ drop keep srt))"
    by (simp add: srt_def)
  have "mset (take keep srt) + mset (drop keep srt) = mset (take keep srt @ drop keep srt)"
    by (simp only: mset_append)
  also have "\<dots> = mset (filter prunable bs)" by (simp add: srt_def)
  finally have "mset (take keep srt) + mset (retention_candidates bs keep) = mset (filter prunable bs)"
    by (simp add: retention_candidates_def srt_def)
  moreover have "length (take keep srt) = min keep (length (filter prunable bs))"
    by (simp add: srt_def min.commute)
  moreover have "\<forall>k\<in>set (take keep srt). \<forall>c\<in>set (retention_candidates bs keep).
      b_created_at c \<le> b_created_at k"
    using s unfolding map_append sorted_append
    by (auto simp: retention_candidates_def srt_def)
  ultimately show ?thesis by blast
qed

lemma retention_candidates_subset: "set (retention_candidates bs keep) \<subseteq> {b \<in> set bs. prunable b}"
  using set_drop_subset [of keep "sort_key (\<lambda>b. Reverse (b_created_at b)) (filter prunable bs)"]
  by (auto simp: retention_candidates_def)

lemma retention_candidates_distinct: "distinct bs \<Longrightarrow> distinct (retention_candidates bs keep)"
  by (simp add: retention_candidates_def)

lemma length_retention_candidates:
  "length (retention_candidates bs keep) = length (filter prunable bs) - keep"
  by (simp add: retention_candidates_def)

text \<open>
  Claim C14 (retention_spec). The candidates for removal are regular \<^verbatim>\<open>pg_dump\<close> backups only, and
  together with the backups that are kept they are exactly the regular \<^verbatim>\<open>pg_dump\<close> backups of the
  input, with multiplicity. As many are kept as the limit allows, and no kept backup is older than
  a candidate: only the oldest ones go.
\<close>

theorem retention_spec:
  "\<exists>kept. mset kept + mset (retention_candidates bs keep) = mset (filter prunable bs)
     \<and> length kept = min keep (length (filter prunable bs))
     \<and> (\<forall>c\<in>set (retention_candidates bs keep). b_kind c = Regular \<and> b_format c = PgCustom
          \<and> (\<forall>k\<in>set kept. b_created_at c \<le> b_created_at k))"
  using retention_split [of bs keep] retention_candidates_subset [of bs keep]
  by (auto simp: prunable_def)

definition demo_backup :: "string \<Rightarrow> nat \<Rightarrow> backup_format \<Rightarrow> backup_kind \<Rightarrow> backup_info" where
  "demo_backup i d f k =
     \<lparr>b_id = i, b_name = i, b_created_at = DateTime 2026 d 1 0 0, b_size_bytes = None,
      b_md5 = None, b_format = f, b_kind = k\<rparr>"

theorem retention_spec_witness:
  "\<exists>kept. mset kept + mset (retention_candidates
         [demo_backup ''a'' 1 PgCustom Regular, demo_backup ''c'' 3 PgCustom Regular,
          demo_backup ''b'' 2 PgCustom Regular] 2)
       = mset (filter prunable
         [demo_backup ''a'' 1 PgCustom Regular, demo_backup ''c'' 3 PgCustom Regular,
          demo_backup ''b'' 2 PgCustom Regular])
     \<and> length kept = 2"
  using retention_spec [of "[demo_backup ''a'' 1 PgCustom Regular,
      demo_backup ''c'' 3 PgCustom Regular, demo_backup ''b'' 2 PgCustom Regular]" 2]
  by (auto simp: demo_backup_def prunable_def)

subsection \<open>Names and formats\<close>

lemma digit_char_plain: "d < 10 \<Longrightarrow> digit_char d \<noteq> CHR ''/'' \<and> digit_char d \<noteq> CHR ''.''"
  using digit_val_digit_char [of d] by (auto simp: digit_val_def)

lemma write_two_plain: "v < 100 \<Longrightarrow> CHR ''/'' \<notin> set (write_two v)"
  using digit_char_plain [of "v div 10"] digit_char_plain [of "v mod 10"]
  by (auto simp: write_two_def less_mult_imp_div_less)

lemma show_nat_plain: "CHR ''/'' \<notin> set (show_nat n)"
  using show_nat_digits [of "CHR ''/''" n] by (auto simp: is_digit_def digit_val_def)

lemma write_year_plain: "CHR ''/'' \<notin> set (write_year y)"
proof (cases "1000 \<le> y \<and> y \<le> 9999")
  case True
  then have "nat (y div 100) < 100" "nat (y mod 100) < 100" by auto
  then show ?thesis using True write_two_plain by (simp add: write_year_def)
next
  case False
  then show ?thesis
    using show_nat_plain [of "nat y"] show_nat_plain [of "nat \<bar>y\<bar>"]
    by (auto simp: write_year_def pad_zeros_def)
qed

lemma format_name_time_no_slash:
  assumes "dt_wf t"
  shows "CHR ''/'' \<notin> set (format_name_time t)"
proof -
  have "dt_frac t div 1000000000 < 2" using assms by (simp add: dt_wf_def less_mult_imp_div_less)
  moreover have "second t < 60" by (simp add: second_def)
  ultimately have "second t + dt_frac t div 1000000000 < 100" by linarith
  then show ?thesis
    using write_two_plain write_year_plain month_le [OF assms] day_le [of t]
      hms_less(1) [OF assms] hms_less(2) [of t]
    by (simp add: format_name_time_def)
qed

lemma backup_file_name_extension:
  assumes "dt_wf now"
  shows "path_extension (backup_file_name db kind now) = Some ''pgdump''"
proof -
  have "format_name_time now \<noteq> []" by (simp add: format_name_time_def write_two_def)
  then show ?thesis
    using path_extension_dot [of "format_name_time now" "''pgdump''"
        "(case kind of Regular \<Rightarrow> [] | PreRestore \<Rightarrow> PRE_RESTORE_PREFIX) @ ''backup_'' @ db @ ''_''"]
      format_name_time_no_slash [OF assms]
    by (simp add: backup_file_name_def PG_CUSTOM_EXTENSION_def)
qed

text \<open>
  A name that the service gives to a new backup, for any
  database name, kind and time, is recognised by its extension as a \<^verbatim>\<open>pg_dump\<close> backup when the
  stored format property is missing, and a stored property always decides instead of the name:
  a known one gives its format, an unknown one is an error.
\<close>

lemma detect_generated_format:
  assumes "dt_wf now"
  shows "detect_format (backup_file_name db kind now) None = Inr PgCustom
    \<and> detect_format name (Some (format_as_str f)) = Inr f
    \<and> (s \<notin> range format_as_str \<longrightarrow> (\<exists>m. detect_format name (Some s) = Inl (FailedPrecondition m)))"
  using backup_file_name_extension [OF assms, of db kind] fmt.parse_as_str [of f]
    fmt.parse_unknown [of s]
  by (simp add: detect_format_def PG_CUSTOM_EXTENSION_def)

definition demo_time :: datetime where
  "demo_time = DateTime 2026 310 1 45005 0"

lemma demo_time_wf: "dt_wf demo_time"
  by (simp add: demo_time_def dt_wf_def ndays_def common_flag_def leap_year_def)

lemma backup_file_name_kind:
  "backup_file_name db k t = backup_file_name db' k' t' \<Longrightarrow> k = k'"
  by (cases k; cases k') (simp_all add: backup_file_name_def PRE_RESTORE_PREFIX_def)

text \<open>
  Claim C39 (backup_file_name_inj). Backup names collide only within one second: for times in the
  years 0 to 9999 without leap seconds, two equal names come from the same database name, the same
  kind and the same second.
\<close>

theorem backup_file_name_inj:
  assumes "dt_wf s" "dt_wf t" "0 \<le> dt_year s" "dt_year s \<le> 9999" "0 \<le> dt_year t" "dt_year t \<le> 9999"
    and "dt_frac s < 1000000000" "dt_frac t < 1000000000"
    and eq: "backup_file_name db k s = backup_file_name db' k' t"
  shows "db = db' \<and> k = k' \<and> timestamp s = timestamp t"
proof -
  have k: "k = k'" using backup_file_name_kind [OF eq] .
  have "db @ ''_'' @ format_name_time s = db' @ ''_'' @ format_name_time t"
    using eq k by (simp add: backup_file_name_def)
  moreover have "length (format_name_time s) = length (format_name_time t)"
    using format_name_time_plain assms(1-8) by simp
  ultimately have db: "db = db'" and "format_name_time s = format_name_time t"
    by (simp_all add: append_eq_append_conv)
  with format_name_time_inj [OF assms(1-8)] have
    "dt_year s = dt_year t \<and> dt_ordinal s = dt_ordinal t \<and> dt_secs s = dt_secs t" by simp
  then show ?thesis using db k by (simp add: timestamp_def num_days_from_ce_eq)
qed

theorem backup_file_name_inj_witness:
  "backup_file_name ''a'' Regular demo_time = backup_file_name ''a'' Regular (DateTime 2026 310 1 45005 7)
   \<and> timestamp demo_time = timestamp (DateTime 2026 310 1 45005 7)"
proof -
  have wf: "dt_wf (DateTime 2026 310 1 45005 7)"
    using demo_time_wf by (simp add: demo_time_def dt_wf_def)
  have eq: "backup_file_name ''a'' Regular demo_time = backup_file_name ''a'' Regular (DateTime 2026 310 1 45005 7)"
    by (simp add: backup_file_name_def format_name_time_def month_def day_def hour_def minute_def
        second_def mdl_def demo_time_def)
  show ?thesis using eq backup_file_name_inj [OF demo_time_wf wf _ _ _ _ _ _ eq]
    by (simp add: demo_time_def)
qed

end
