(* ===== verification/Prog.thy ===== *)
theory Prog
  imports Core
begin

text \<open>
  The service layer as programs that call the ports of \<^verbatim>\<open>ports.rs\<close> and \<^verbatim>\<open>clock.rs\<close>, own temporary
  files and hold the write lock. A program is a tree: a call to the outside and, for every
  answer, the rest of the program; every \<^verbatim>\<open>await\<close> of the sources is such a call. The tree form
  makes the points visible at which calls of several tasks interleave, at which a task can be
  cancelled, and at which Rust drops the values that own a resource.
\<close>

section \<open>Programs\<close>

text \<open>What a value owns: the guard of the write lock, or a temporary file on disk.\<close>

datatype resource = Guard | Temp path

text \<open>The port calls that answer \<^verbatim>\<open>Result<()>\<close>, and those that answer \<^verbatim>\<open>Result<BackupInfo>\<close>.\<close>

datatype unit_call =
    Dump path
  | RestoreDb path
  | Ping
  | Download backup_info path
  | Delete string

datatype info_call =
    Upload upload_request
  | Get string

text \<open>
  \<open>DoBlocking\<close> is \<^verbatim>\<open>spawn_blocking(decompress_file(src, dst)).await\<close>: an answer \<^const>\<open>Inl\<close> is a
  failed task. \<open>Release\<close> is the drop of the value that owns the resource.
\<close>

datatype 'r prog =
    Ret 'r
  | TryLock "bool \<Rightarrow> 'r prog"
  | TempFile string "io_error + path \<Rightarrow> 'r prog"
  | Release resource "'r prog"
  | DoUnit unit_call "unit result \<Rightarrow> 'r prog"
  | DoInfo info_call "backup_info result \<Rightarrow> 'r prog"
  | DoList "32 word" "string option" "backup_info page result \<Rightarrow> 'r prog"
  | DoLatest "backup_info option result \<Rightarrow> 'r prog"
  | DoNow "datetime \<Rightarrow> 'r prog"
  | DoBlocking path path "string + unit result \<Rightarrow> 'r prog"

primrec bind_prog :: "'a prog \<Rightarrow> ('a \<Rightarrow> 'b prog) \<Rightarrow> 'b prog" where
  "bind_prog (Ret x) f = f x"
| "bind_prog (TryLock k) f = TryLock (\<lambda>r. bind_prog (k r) f)"
| "bind_prog (TempFile s k) f = TempFile s (\<lambda>r. bind_prog (k r) f)"
| "bind_prog (Release x p) f = Release x (bind_prog p f)"
| "bind_prog (DoUnit c k) f = DoUnit c (\<lambda>r. bind_prog (k r) f)"
| "bind_prog (DoInfo c k) f = DoInfo c (\<lambda>r. bind_prog (k r) f)"
| "bind_prog (DoList n t k) f = DoList n t (\<lambda>r. bind_prog (k r) f)"
| "bind_prog (DoLatest k) f = DoLatest (\<lambda>r. bind_prog (k r) f)"
| "bind_prog (DoNow k) f = DoNow (\<lambda>r. bind_prog (k r) f)"
| "bind_prog (DoBlocking a b k) f = DoBlocking a b (\<lambda>r. bind_prog (k r) f)"

text \<open>\<open>try_prog m k\<close> is \<^verbatim>\<open>let x = m.await?; k(x)\<close>.\<close>

definition try_prog :: "'a result prog \<Rightarrow> ('a \<Rightarrow> 'b result prog) \<Rightarrow> 'b result prog" where
  "try_prog m k = bind_prog m (\<lambda>r. case r of Inl e \<Rightarrow> Ret (Inl e) | Inr x \<Rightarrow> k x)"

text \<open>The end of the scope of a value that owns \<open>x\<close>, on every path through \<open>m\<close>.\<close>

definition scoped :: "resource \<Rightarrow> 'a prog \<Rightarrow> 'a prog" where
  "scoped x m = bind_prog m (\<lambda>r. Release x (Ret r))"

section \<open>Runs\<close>

text \<open>
  An event is a call together with its answer. The answers are not constrained here: whatever
  holds of all event sequences of a program holds for every behaviour of the outside.
\<close>

datatype event =
    ELock bool
  | ETemp string "io_error + path"
  | ERelease resource
  | EUnit unit_call "unit result"
  | EInfo info_call "backup_info result"
  | EList "32 word" "string option" "backup_info page result"
  | ELatest "backup_info option result"
  | ENow datetime
  | EBlocking path path "string + unit result"

inductive pstep :: "'r prog \<Rightarrow> event \<Rightarrow> 'r prog \<Rightarrow> bool" where
  lock: "pstep (TryLock k) (ELock r) (k r)"
| temp: "pstep (TempFile s k) (ETemp s r) (k r)"
| release: "pstep (Release x p) (ERelease x) p"
| unit: "pstep (DoUnit c k) (EUnit c r) (k r)"
| info: "pstep (DoInfo c k) (EInfo c r) (k r)"
| list: "pstep (DoList n t k) (EList n t r) (k r)"
| latest: "pstep (DoLatest k) (ELatest r) (k r)"
| now: "pstep (DoNow k) (ENow r) (k r)"
| blocking: "pstep (DoBlocking a b k) (EBlocking a b r) (k r)"

inductive_simps pstep_simps [simp]:
  "pstep (Ret x) e p'"
  "pstep (TryLock k) e p'"
  "pstep (TempFile s k) e p'"
  "pstep (Release x p) e p'"
  "pstep (DoUnit c k) e p'"
  "pstep (DoInfo c k) e p'"
  "pstep (DoList n t k) e p'"
  "pstep (DoLatest k) e p'"
  "pstep (DoNow k) e p'"
  "pstep (DoBlocking a b k) e p'"

inductive psteps :: "'r prog \<Rightarrow> event list \<Rightarrow> 'r prog \<Rightarrow> bool" where
  refl: "psteps p [] p"
| step: "pstep p e q \<Longrightarrow> psteps q es r \<Longrightarrow> psteps p (e # es) r"

inductive_simps psteps_Nil [simp]: "psteps p [] q"
inductive_simps psteps_Cons: "psteps p (e # es) r"
inductive_cases psteps_ConsE: "psteps p (e # es) r"

lemma psteps_Ret [simp]: "psteps (Ret x) es q \<longleftrightarrow> es = [] \<and> q = Ret x"
  by (cases es) (auto simp: psteps_Cons)

lemma psteps_append:
  "psteps p (es @ fs) r \<longleftrightarrow> (\<exists>q. psteps p es q \<and> psteps q fs r)"
  by (induction es arbitrary: p) (auto simp: psteps_Cons)

section \<open>Lemmas\<close>

lemma bind_prog_Ret [simp]: "bind_prog p Ret = p"
  by (induction p) auto

lemma bind_prog_assoc: "bind_prog (bind_prog p f) g = bind_prog p (\<lambda>x. bind_prog (f x) g)"
  by (induction p) auto

text \<open>A run of a sequence is a run of its first part, possibly followed by one of the second.\<close>

lemma psteps_bind:
  "psteps (bind_prog p f) es r \<Longrightarrow>
     (\<exists>p'. psteps p es p' \<and> r = bind_prog p' f) \<or>
     (\<exists>es1 es2 x. es = es1 @ es2 \<and> psteps p es1 (Ret x) \<and> psteps (f x) es2 r)"
proof (induction es arbitrary: p)
  case (Cons e es)
  show ?case
  proof (cases "\<exists>x. p = Ret x")
    case True
    then obtain x where "p = Ret x" ..
    then show ?thesis using Cons.prems by (intro disjI2 exI [of _ "[]"] exI [of _ "e # es"]) simp
  next
    case False
    then obtain p1 where p1: "pstep p e p1" "psteps (bind_prog p1 f) es r"
      using Cons.prems by (cases p) (auto simp: psteps_Cons)
    from Cons.IH [OF p1(2)] show ?thesis
    proof (elim disjE exE conjE)
      fix p' assume "psteps p1 es p'" "r = bind_prog p' f"
      then show ?thesis using p1(1) by (auto simp: psteps_Cons)
    next
      fix es1 es2 x assume "es = es1 @ es2" "psteps p1 es1 (Ret x)" "psteps (f x) es2 r"
      then show ?thesis
        using p1(1) by (intro disjI2 exI [of _ "e # es1"] exI [of _ es2] exI [of _ x]) (auto simp: psteps_Cons)
    qed
  qed
qed auto

section \<open>Ownership\<close>

text \<open>
  \<open>owned p H Q\<close>: run from the resources \<open>H\<close>, the program \<open>p\<close> releases only what it owns, writes,
  reads and uploads only temporary files that it owns, dumps and overwrites the database only
  while it holds the write lock, never asks for the lock while holding it, and returns with a
  result and resources in \<open>Q\<close>, whatever the outside answers. A fresh temporary file has a name
  that the program does not own yet.
\<close>

fun unit_needs :: "unit_call \<Rightarrow> resource set" where
  "unit_needs (Dump f) = {Guard, Temp f}"
| "unit_needs (RestoreDb f) = {Guard, Temp f}"
| "unit_needs (Download b f) = {Temp f}"
| "unit_needs c = {}"

fun info_needs :: "info_call \<Rightarrow> resource set" where
  "info_needs (Upload req) = {Temp (ur_path req)}"
| "info_needs (Get i) = {}"

primrec owned :: "'r prog \<Rightarrow> resource set \<Rightarrow> ('r \<Rightarrow> resource set \<Rightarrow> bool) \<Rightarrow> bool" where
  "owned (Ret x) H Q = Q x H"
| "owned (TryLock k) H Q = (Guard \<notin> H \<and> owned (k True) (insert Guard H) Q \<and> owned (k False) H Q)"
| "owned (TempFile s k) H Q =
     ((\<forall>f. Temp f \<notin> H \<longrightarrow> owned (k (Inr f)) (insert (Temp f) H) Q) \<and> (\<forall>e. owned (k (Inl e)) H Q))"
| "owned (Release x p) H Q = (x \<in> H \<and> owned p (H - {x}) Q)"
| "owned (DoUnit c k) H Q = (unit_needs c \<subseteq> H \<and> (\<forall>r. owned (k r) H Q))"
| "owned (DoInfo c k) H Q = (info_needs c \<subseteq> H \<and> (\<forall>r. owned (k r) H Q))"
| "owned (DoList n t k) H Q = (\<forall>r. owned (k r) H Q)"
| "owned (DoLatest k) H Q = (\<forall>r. owned (k r) H Q)"
| "owned (DoNow k) H Q = (\<forall>r. owned (k r) H Q)"
| "owned (DoBlocking a b k) H Q = ({Temp a, Temp b} \<subseteq> H \<and> (\<forall>r. owned (k r) H Q))"

lemma owned_bind [simp]: "owned (bind_prog p f) H Q \<longleftrightarrow> owned p H (\<lambda>x H'. owned (f x) H' Q)"
  by (induction p arbitrary: H) auto

lemma owned_mono: "owned p H Q \<Longrightarrow> (\<And>x H'. Q x H' \<Longrightarrow> Q' x H') \<Longrightarrow> owned p H Q'"
  by (induction p arbitrary: H) auto

lemma owned_try:
  "owned (try_prog m k) H Q \<longleftrightarrow>
     owned m H (\<lambda>r H'. case r of Inl e \<Rightarrow> Q (Inl e) H' | Inr x \<Rightarrow> owned (k x) H' Q)"
proof -
  have eq: "(\<lambda>r H'. owned (case r of Inl e \<Rightarrow> Ret (Inl e) | Inr x \<Rightarrow> k x) H' Q) =
    (\<lambda>r H'. case r of Inl e \<Rightarrow> Q (Inl e) H' | Inr x \<Rightarrow> owned (k x) H' Q)"
    by (auto simp: fun_eq_iff split: sum.split)
  show ?thesis by (simp add: try_prog_def eq)
qed

lemma owned_scoped [simp]: "owned (scoped x m) H Q \<longleftrightarrow> owned m H (\<lambda>r H'. x \<in> H' \<and> Q r (H' - {x}))"
  by (simp add: scoped_def)

text \<open>What an event does to the resources, and which events an owner may see.\<close>

fun held_after :: "resource set \<Rightarrow> event \<Rightarrow> resource set" where
  "held_after H (ELock True) = insert Guard H"
| "held_after H (ETemp s (Inr f)) = insert (Temp f) H"
| "held_after H (ERelease x) = H - {x}"
| "held_after H e = H"

definition holds :: "event list \<Rightarrow> resource set" where
  "holds es = foldl held_after {} es"

fun fresh_event :: "resource set \<Rightarrow> event \<Rightarrow> bool" where
  "fresh_event H (ETemp s (Inr f)) \<longleftrightarrow> Temp f \<notin> H"
| "fresh_event H e \<longleftrightarrow> True"

fun event_needs :: "event \<Rightarrow> resource set" where
  "event_needs (EUnit c r) = unit_needs c"
| "event_needs (EInfo c r) = info_needs c"
| "event_needs (EBlocking a b r) = {Temp a, Temp b}"
| "event_needs (ERelease x) = {x}"
| "event_needs e = {}"

lemma owned_pstep:
  assumes "pstep p e q" and "owned p H Q" and "fresh_event H e"
  shows "owned q (held_after H e) Q \<and> event_needs e \<subseteq> H"
  using assms
proof (cases rule: pstep.cases)
  case (lock k r)
  then show ?thesis using assms by (cases r) auto
next
  case (temp s k r)
  then show ?thesis using assms by (cases r) auto
qed (use assms in auto)

text \<open>Along a run: every new temporary file is fresh, and every event has what it needs.\<close>

fun fresh_run :: "resource set \<Rightarrow> event list \<Rightarrow> bool" where
  "fresh_run H [] \<longleftrightarrow> True"
| "fresh_run H (e # es) \<longleftrightarrow> fresh_event H e \<and> fresh_run (held_after H e) es"

fun well_used :: "resource set \<Rightarrow> event list \<Rightarrow> bool" where
  "well_used H [] \<longleftrightarrow> True"
| "well_used H (e # es) \<longleftrightarrow> event_needs e \<subseteq> H \<and> well_used (held_after H e) es"

lemma owned_psteps:
  "psteps p es q \<Longrightarrow> owned p H Q \<Longrightarrow> fresh_run H es \<Longrightarrow>
     owned q (foldl held_after H es) Q \<and> well_used H es"
proof (induction es arbitrary: p H)
  case (Cons e es)
  then obtain p1 where "pstep p e p1" "psteps p1 es q" by (auto simp: psteps_Cons)
  then show ?case using Cons owned_pstep [of p e p1 H Q] by simp
qed simp

lemma well_used_split:
  "well_used H (es @ e # fs) \<Longrightarrow> event_needs e \<subseteq> foldl held_after H es"
  by (induction es arbitrary: H) auto

end
