(* ===== verification/Paging.thy ===== *)
theory Paging
  imports Core
begin

text \<open>
  The paging contract of the port \<^verbatim>\<open>Storage::list\<close> (\<^verbatim>\<open>ports.rs\<close>): a listing comes in pages, each
  page names the token of the next one, and the token of the last page is absent or empty. The
  two scans of the program, \<^verbatim>\<open>GoogleDriveStorage::latest\<close> and \<^verbatim>\<open>BackupService::list_all\<close>, are clients
  of this contract; their lemmas are proved once in the locale below.
\<close>

text \<open>The token with which a scan goes on, as both loops compute it.\<close>

definition continue_token :: "'a page \<Rightarrow> string option" where
  "continue_token page =
     (case next_page_token page of
        Some next \<Rightarrow> if next \<noteq> [] then Some next else None
      | None \<Rightarrow> None)"

locale paged_listing =
  fixes fetch :: "string option \<Rightarrow> ('w, 'a page result) io"
    and serves :: "'a list list \<Rightarrow> 'w \<Rightarrow> bool"
    and token :: "nat \<Rightarrow> string"
  assumes serves_page: "serves P w \<Longrightarrow> i < length P \<Longrightarrow>
      \<exists>page w'. fetch (if i = 0 then None else Some (token i)) w = (Inr page, w')
        \<and> serves P w' \<and> items page = P ! i
        \<and> continue_token page = (if Suc i < length P then Some (token (Suc i)) else None)"
    and serves_some: "serves P w \<Longrightarrow> P \<noteq> []"
begin

abbreviation at :: "nat \<Rightarrow> string option" where
  "at i \<equiv> (if i = 0 then None else Some (token i))"

lemma page_cases:
  assumes "serves P w" "i < length P"
  obtains (final) page w' where "fetch (at i) w = (Inr page, w')" "serves P w'" "items page = P ! i"
      "continue_token page = None" "Suc i = length P"
  | (more) page w' where "fetch (at i) w = (Inr page, w')" "serves P w'" "items page = P ! i"
      "continue_token page = at (Suc i)" "Suc i < length P"
proof -
  obtain page w' where *: "fetch (at i) w = (Inr page, w')" "serves P w'" "items page = P ! i"
    "continue_token page = (if Suc i < length P then Some (token (Suc i)) else None)"
    using serves_page [OF assms] by blast
  show ?thesis
  proof (cases "Suc i < length P")
    case True
    then show ?thesis using * by (intro more) auto
  next
    case False
    then show ?thesis using * assms(2) by (intro final) auto
  qed
qed

end

end
