(* ===== verification/Service.thy ===== *)
theory Service
  imports Prog Paging
begin

text \<open>
  \<^verbatim>\<open>BackupService\<close> (\<^verbatim>\<open>service.rs\<close>): the use cases of the server, written as programs over the ports,
  one definition per function of the source, and the interpreter that runs them on a concrete
  set of ports.
\<close>

section \<open>The service\<close>

definition DEFAULT_PAGE_SIZE :: "32 word" where "DEFAULT_PAGE_SIZE = 20"
definition MAX_PAGE_SIZE :: "32 word" where "MAX_PAGE_SIZE = 100"
definition MAX_RETENTION_PAGES :: nat where "MAX_RETENTION_PAGES = 100"

datatype backup_target = Id string | Latest

text \<open>
  \<^verbatim>\<open>ServiceDeps\<close>: the plain values first; \<open>ports\<close> below adds the trait objects, each by its methods.
\<close>

record service_deps =
  dumper_db_name :: string
  restorer_db_name :: string
  data_folder :: path
  retention :: "nat option"

record restore_outcome =
  restored :: backup_info
  pre_restore :: backup_info

text \<open>\<^verbatim>\<open>BackupService::db_name\<close>\<close>

definition svc_db_name :: "'a service_deps_scheme \<Rightarrow> string" where
  "svc_db_name deps = restorer_db_name deps"

text \<open>\<^verbatim>\<open>let _guard = self.lock()?; body\<close>: the guard lives until the function returns.\<close>

definition with_lock :: "'a result prog \<Rightarrow> 'a result prog" where
  "with_lock body =
     TryLock (\<lambda>locked.
       if locked then scoped Guard body
       else Ret (Inl (Busy ''another backup or restore is in progress'')))"

definition temp_file :: "string \<Rightarrow> path result prog" where
  "temp_file suf = TempFile suf (\<lambda>r. Ret (map_err (Io ''Could not create temporary file'') r))"

definition call_unit :: "unit_call \<Rightarrow> unit result prog" where
  "call_unit c = DoUnit c Ret"

definition call_info :: "info_call \<Rightarrow> backup_info result prog" where
  "call_info c = DoInfo c Ret"

definition call_list :: "32 word \<Rightarrow> string option \<Rightarrow> backup_info page result prog" where
  "call_list page_size page_token = DoList page_size page_token Ret"

definition dump_and_upload :: "'a service_deps_scheme \<Rightarrow> backup_kind \<Rightarrow> backup_info result prog" where
  "dump_and_upload deps kind =
     try_prog (temp_file ''.pgdump'') (\<lambda>f.
     scoped (Temp f)
       (try_prog (call_unit (Dump f)) (\<lambda>_.
        DoNow (\<lambda>now. call_info (Upload (pg_dump f (dumper_db_name deps) kind now))))))"

fun list_all_loop :: "nat \<Rightarrow> string option \<Rightarrow> backup_info list \<Rightarrow> backup_info list result prog" where
  "list_all_loop 0 token acc =
     Ret (Inl (Storage (''more than '' @ show_nat MAX_RETENTION_PAGES @ '' pages of backups'')))"
| "list_all_loop (Suc n) token acc =
     try_prog (call_list MAX_PAGE_SIZE token) (\<lambda>page.
       let acc' = acc @ items page
       in case continue_token page of
            Some next \<Rightarrow> list_all_loop n (Some next) acc'
          | None \<Rightarrow> Ret (Inr acc'))"

definition list_all_backups :: "backup_info list result prog" where
  "list_all_backups = list_all_loop MAX_RETENTION_PAGES None []"

text \<open>The loop over the retention candidates: failures are only logged.\<close>

fun delete_each :: "backup_info list \<Rightarrow> unit prog" where
  "delete_each [] = Ret ()"
| "delete_each (b # bs) = bind_prog (call_unit (Delete (b_id b))) (\<lambda>r. delete_each bs)"

definition prune_old_backups :: "'a service_deps_scheme \<Rightarrow> unit prog" where
  "prune_old_backups deps =
     (case retention deps of
        None \<Rightarrow> Ret ()
      | Some keep \<Rightarrow>
          bind_prog list_all_backups (\<lambda>r.
            case r of
              Inl e \<Rightarrow> Ret ()
            | Inr all \<Rightarrow> delete_each (retention_candidates all keep)))"

definition create_backup :: "'a service_deps_scheme \<Rightarrow> backup_info result prog" where
  "create_backup deps =
     with_lock
       (try_prog (dump_and_upload deps Regular) (\<lambda>info.
        bind_prog (prune_old_backups deps) (\<lambda>_. Ret (Inr info))))"

definition list_backups :: "32 word \<Rightarrow> string option \<Rightarrow> backup_info page result prog" where
  "list_backups page_size page_token =
     (let page_size = (if page_size = 0 then DEFAULT_PAGE_SIZE else min page_size MAX_PAGE_SIZE)
      in call_list page_size page_token)"

fun resolve :: "backup_target \<Rightarrow> backup_info result prog" where
  "resolve (Id i) = call_info (Get i)"
| "resolve Latest =
     try_prog (DoLatest Ret) (\<lambda>latest. Ret (ok_or (NotFound ''no backups'') latest))"

text \<open>
  The result owns the file it names; every other file is dropped where its scope ends.
\<close>

definition download :: "backup_target \<Rightarrow> (backup_info \<times> path) result prog" where
  "download target =
     try_prog (resolve target) (\<lambda>info.
     try_prog (temp_file ''.download'') (\<lambda>f.
     bind_prog (call_unit (Download info f)) (\<lambda>r.
       case r of
         Inl e \<Rightarrow> Release (Temp f) (Ret (Inl e))
       | Inr _ \<Rightarrow>
           if b_format info \<noteq> LegacyJsonZstd then Ret (Inr (info, f))
           else scoped (Temp f)
             (try_prog (temp_file ''.json'') (\<lambda>json.
              DoBlocking f json (\<lambda>outcome.
                case and_then (map_err (\<lambda>e. Storage (''Decompression task failed: '' @ e)) outcome) (\<lambda>r. r) of
                  Inl e \<Rightarrow> Release (Temp json) (Ret (Inl e))
                | Inr _ \<Rightarrow> Ret (Inr (info, json))))))))"

definition restore ::
  "'a service_deps_scheme \<Rightarrow> backup_target \<Rightarrow> string \<Rightarrow> restore_outcome result prog" where
  "restore deps target confirm_db_name =
     (if confirm_db_name \<noteq> svc_db_name deps
      then Ret (Inl (FailedPrecondition (''confirm_db_name '' @ quoted confirm_db_name
             @ '' does not match the configured database'')))
      else with_lock
        (try_prog (resolve target) (\<lambda>restored.
         if b_format restored \<noteq> PgCustom
         then Ret (Inl (FailedPrecondition (quoted (b_name restored) @ '' is ''
                @ format_as_str (b_format restored) @ ''; restore it with DownloadBackup and the legacy client'')))
         else
           try_prog (temp_file ''.pgdump'') (\<lambda>f.
           scoped (Temp f)
             (try_prog (call_unit (Download restored f)) (\<lambda>_.
              try_prog (dump_and_upload deps PreRestore) (\<lambda>pre_restore.
              try_prog (call_unit (RestoreDb f)) (\<lambda>_.
              Ret (Inr \<lparr>restored = restored, pre_restore = pre_restore\<rparr>)))))))))"

definition healthcheck :: "bool prog" where
  "healthcheck = bind_prog (call_unit Ping) (\<lambda>r. Ret (is_ok r))"

section \<open>Ports\<close>

text \<open>
  The trait objects of \<^verbatim>\<open>ServiceDeps\<close> by their methods. \<open>blocking\<close> is the pool that runs
  \<^const>\<open>decompress_file\<close>; it answers \<^const>\<open>Inl\<close> when the task panics or is cancelled.
\<close>

record 'e ports = service_deps +
  dump_op :: "path \<Rightarrow> ('e world, unit result) io"
  restore_op :: "path \<Rightarrow> ('e world, unit result) io"
  ping_op :: "('e world, unit result) io"
  upload_op :: "upload_request \<Rightarrow> ('e world, backup_info result) io"
  list_op :: "32 word \<Rightarrow> string option \<Rightarrow> ('e world, backup_info page result) io"
  latest_op :: "('e world, backup_info option result) io"
  get_op :: "string \<Rightarrow> ('e world, backup_info result) io"
  download_op :: "backup_info \<Rightarrow> path \<Rightarrow> ('e world, unit result) io"
  delete_op :: "string \<Rightarrow> ('e world, unit result) io"
  now_op :: "('e world, datetime) io"
  blocking :: "path \<Rightarrow> path \<Rightarrow> ('e world, string + unit result) io"

text \<open>The service at run time: the write lock and the world.\<close>

record 'e service_state =
  write_lock :: bool
  machine :: "'e world"

fun unit_op :: "'e ports \<Rightarrow> unit_call \<Rightarrow> ('e world, unit result) io" where
  "unit_op D (Dump f) = dump_op D f"
| "unit_op D (RestoreDb f) = restore_op D f"
| "unit_op D Ping = ping_op D"
| "unit_op D (Download b f) = download_op D b f"
| "unit_op D (Delete i) = delete_op D i"

fun info_op :: "'e ports \<Rightarrow> info_call \<Rightarrow> ('e world, backup_info result) io" where
  "info_op D (Upload req) = upload_op D req"
| "info_op D (Get i) = get_op D i"

text \<open>Run an operation of the machine.\<close>

definition on_machine :: "('e world, 'a) io \<Rightarrow> ('e service_state, 'a) io" where
  "on_machine m s = (case m (machine s) of (r, w) \<Rightarrow> (r, s\<lparr>machine := w\<rparr>))"

fun release :: "resource \<Rightarrow> 'e service_state \<Rightarrow> 'e service_state" where
  "release Guard s = s\<lparr>write_lock := False\<rparr>"
| "release (Temp f) s = s\<lparr>machine := std_remove f (machine s)\<rparr>"

primrec run :: "'e ports \<Rightarrow> 'r prog \<Rightarrow> ('e service_state, 'r) io" where
  "run D (Ret x) = (\<lambda>s. (x, s))"
| "run D (TryLock k) =
     (\<lambda>s. if write_lock s then run D (k False) s else run D (k True) (s\<lparr>write_lock := True\<rparr>))"
| "run D (TempFile suf k) =
     (\<lambda>s. case on_machine (tempfile_in (data_folder D) ''backup_'' suf) s of (r, s') \<Rightarrow> run D (k r) s')"
| "run D (Release x p) = (\<lambda>s. run D p (release x s))"
| "run D (DoUnit c k) = (\<lambda>s. case on_machine (unit_op D c) s of (r, s') \<Rightarrow> run D (k r) s')"
| "run D (DoInfo c k) = (\<lambda>s. case on_machine (info_op D c) s of (r, s') \<Rightarrow> run D (k r) s')"
| "run D (DoList n t k) = (\<lambda>s. case on_machine (list_op D n t) s of (r, s') \<Rightarrow> run D (k r) s')"
| "run D (DoLatest k) = (\<lambda>s. case on_machine (latest_op D) s of (r, s') \<Rightarrow> run D (k r) s')"
| "run D (DoNow k) = (\<lambda>s. case on_machine (now_op D) s of (r, s') \<Rightarrow> run D (k r) s')"
| "run D (DoBlocking a b k) = (\<lambda>s. case on_machine (blocking D a b) s of (r, s') \<Rightarrow> run D (k r) s')"

end
