(* ===== verification/Wire.thy ===== *)
theory Wire
  imports Service
begin

text \<open>
  The messages of \<^verbatim>\<open>backup.proto\<close> and the conversions of the server between them and its own types
  (\<^verbatim>\<open>convert.rs\<close>), and the map from errors to gRPC statuses (\<^verbatim>\<open>status.rs\<close>).
\<close>

section \<open>Messages\<close>

text \<open>An enumeration travels as an \<^verbatim>\<open>int32\<close>.\<close>

datatype proto_format = FORMAT_UNSPECIFIED | FORMAT_PG_CUSTOM | FORMAT_LEGACY_JSON_ZSTD

fun proto_format_number :: "proto_format \<Rightarrow> 32 word" where
  "proto_format_number FORMAT_UNSPECIFIED = 0"
| "proto_format_number FORMAT_PG_CUSTOM = 1"
| "proto_format_number FORMAT_LEGACY_JSON_ZSTD = 2"

datatype proto_kind = KIND_UNSPECIFIED | KIND_REGULAR | KIND_PRE_RESTORE

fun proto_kind_number :: "proto_kind \<Rightarrow> 32 word" where
  "proto_kind_number KIND_UNSPECIFIED = 0"
| "proto_kind_number KIND_REGULAR = 1"
| "proto_kind_number KIND_PRE_RESTORE = 2"

record proto_timestamp =
  seconds :: "64 word"
  nanos :: "32 word"

record proto_info =
  pi_id :: string
  pi_name :: string
  pi_created_at :: "proto_timestamp option"
  pi_size_bytes :: "64 word option"
  pi_format :: "32 word"
  pi_kind :: "32 word"

datatype proto_target = ProtoId string | ProtoLatest bool

record proto_ref =
  ref_target :: "proto_target option"

record list_request_msg =
  lr_page_size :: "32 word"
  lr_page_token :: string

record list_reply =
  lr_backups :: "proto_info list"
  lr_next_page_token :: string

record restore_request_msg =
  rr_backup :: "proto_ref option"
  rr_confirm_db_name :: string

record restore_reply =
  rr_restored :: "proto_info option"
  rr_pre_restore :: "proto_info option"

datatype payload = Info proto_info | Data bytes

record download_chunk =
  chunk_payload :: "payload option"

section \<open>Statuses\<close>

datatype code =
    Code_Ok | Code_Cancelled | Code_Unknown | Code_InvalidArgument | Code_DeadlineExceeded
  | Code_NotFound | Code_AlreadyExists | Code_PermissionDenied | Code_ResourceExhausted
  | Code_FailedPrecondition | Code_Aborted | Code_OutOfRange | Code_Unimplemented | Code_Internal
  | Code_Unavailable | Code_DataLoss | Code_Unauthenticated

record status =
  st_code :: code
  st_message :: string

datatype log_level = LogInfo | LogError

text \<open>The log record and the status.\<close>

definition to_status :: "string \<Rightarrow> error \<Rightarrow> (log_level \<times> string) \<times> status" where
  "to_status ctxt err =
     (let msg = ctxt @ '': '' @ display_error err
      in case err of
           NotFound _ \<Rightarrow> ((LogInfo, msg), \<lparr>st_code = Code_NotFound, st_message = msg\<rparr>)
         | InvalidArgument _ \<Rightarrow> ((LogInfo, msg), \<lparr>st_code = Code_InvalidArgument, st_message = msg\<rparr>)
         | FailedPrecondition _ \<Rightarrow> ((LogInfo, msg), \<lparr>st_code = Code_FailedPrecondition, st_message = msg\<rparr>)
         | Busy _ \<Rightarrow> ((LogInfo, msg), \<lparr>st_code = Code_Aborted, st_message = msg\<rparr>)
         | Timeout _ _ \<Rightarrow> ((LogError, msg), \<lparr>st_code = Code_Unavailable, st_message = msg\<rparr>)
         | Unavailable _ \<Rightarrow>
             ((LogError, msg), \<lparr>st_code = Code_Unavailable,
                st_message = ctxt @ '': storage unavailable, retry later''\<rparr>)
         | _ \<Rightarrow>
             ((LogError, msg), \<lparr>st_code = Code_Internal,
                st_message = ctxt @ '': internal error, see server logs''\<rparr>))"

section \<open>Conversions\<close>

definition I32_try_from_u32 :: "nat \<Rightarrow> 32 word option" where
  "I32_try_from_u32 n = (if n < 2 ^ 31 then Some (of_nat n) else None)"

definition proto_backup_info :: "backup_info \<Rightarrow> proto_info" where
  "proto_backup_info info =
     (let format = (case b_format info of
                      PgCustom \<Rightarrow> FORMAT_PG_CUSTOM
                    | LegacyJsonZstd \<Rightarrow> FORMAT_LEGACY_JSON_ZSTD);
          kind = (case b_kind info of
                    Regular \<Rightarrow> KIND_REGULAR
                  | PreRestore \<Rightarrow> KIND_PRE_RESTORE)
      in \<lparr>pi_id = b_id info,
          pi_name = b_name info,
          pi_created_at = Some
            \<lparr>seconds = of_int (timestamp (b_created_at info)),
             nanos = (case I32_try_from_u32 (timestamp_subsec_nanos (b_created_at info)) of
                        Some n \<Rightarrow> n
                      | None \<Rightarrow> 0)\<rparr>,
          pi_size_bytes = b_size_bytes info,
          pi_format = proto_format_number format,
          pi_kind = proto_kind_number kind\<rparr>)"

definition to_backup_target :: "proto_ref option \<Rightarrow> status + backup_target" where
  "to_backup_target backup =
     (let bad = Inl \<lparr>st_code = Code_InvalidArgument,
                    st_message = ''backup must set a non-empty id or latest = true''\<rparr>
      in case Option.bind backup ref_target of
           Some (ProtoId i) \<Rightarrow> if i \<noteq> [] then Inr (Id i) else bad
         | Some (ProtoLatest True) \<Rightarrow> Inr Latest
         | _ \<Rightarrow> bad)"

section \<open>Times on the wire\<close>

text \<open>The moments \<^verbatim>\<open>DateTime<Utc>\<close> can hold.\<close>

definition dt_ok :: "datetime \<Rightarrow> bool" where
  "dt_ok t \<longleftrightarrow> dt_wf t \<and> MIN_YEAR \<le> dt_year t \<and> dt_year t \<le> MAX_YEAR"

definition wire_time :: "proto_info \<Rightarrow> (int \<times> int) option" where
  "wire_time m = map_option (\<lambda>t. (sint (seconds t), sint (nanos t))) (pi_created_at m)"

lemma timestamp_bound:
  assumes "dt_ok t"
  shows "\<bar>timestamp t\<bar> < 2 ^ 63"
proof -
  have "\<bar>dt_year t\<bar> \<le> 262143" using assms by (auto simp: dt_ok_def MIN_YEAR_def MAX_YEAR_def)
  then have "\<bar>days_before_year (dt_year t)\<bar> \<le> 300000000" by (simp add: days_before_year_def)
  moreover have "int (dt_ordinal t) \<le> 366" "int (dt_secs t) < 86400"
    using assms by (auto simp: dt_ok_def dt_wf_def ndays_def split: if_splits)
  ultimately show ?thesis by (simp add: timestamp_def num_days_from_ce_eq UNIX_EPOCH_DAY_def)
qed

lemma wire_time_exact:
  assumes "dt_ok (b_created_at b)"
  shows "wire_time (proto_backup_info b)
    = Some (timestamp (b_created_at b), int (dt_frac (b_created_at b)))"
proof -
  have "dt_frac (b_created_at b) < 2000000000" using assms by (simp add: dt_ok_def dt_wf_def)
  then show ?thesis
    using sint_of_int_64 [of "timestamp (b_created_at b)"] timestamp_bound [OF assms] sint_of_nat_32 [of "dt_frac (b_created_at b)"]
    by (simp add: wire_time_def proto_backup_info_def Let_def I32_try_from_u32_def
        timestamp_subsec_nanos_def)
qed

lemma wire_time_inject:
  assumes "dt_ok (b_created_at a)" "dt_ok (b_created_at b)"
    "wire_time (proto_backup_info a) = wire_time (proto_backup_info b)"
  shows "b_created_at a = b_created_at b"
  using assms timestamp_order [of "b_created_at a" "b_created_at b"]
    timestamp_order [of "b_created_at b" "b_created_at a"]
  by (auto simp: wire_time_exact dt_ok_def)

section \<open>Properties\<close>

text \<open>
  Claim C35 (wire_info_faithful). The message of a backup determines everything the server knows of it
  but its checksum: two backups have the same message exactly when they agree in id, name, time
  to the nanosecond, size, format and kind.
\<close>

theorem wire_info_faithful:
  assumes "dt_ok (b_created_at a)" and "dt_ok (b_created_at b)"
  shows "proto_backup_info a = proto_backup_info b \<longleftrightarrow> a\<lparr>b_md5 := None\<rparr> = b\<lparr>b_md5 := None\<rparr>"
proof
  assume eq: "proto_backup_info a = proto_backup_info b"
  then have "b_created_at a = b_created_at b" using wire_time_inject [OF assms] by simp
  then show "a\<lparr>b_md5 := None\<rparr> = b\<lparr>b_md5 := None\<rparr>"
    using eq by (cases a; cases b)
      (auto simp: proto_backup_info_def Let_def split: backup_format.splits backup_kind.splits)
next
  assume "a\<lparr>b_md5 := None\<rparr> = b\<lparr>b_md5 := None\<rparr>"
  then show "proto_backup_info a = proto_backup_info b"
    by (cases a; cases b) (auto simp: proto_backup_info_def)
qed

text \<open>
  The times on the wire are exact and in the order of the times themselves,
  over the whole range of dates: neither the seconds overflow 64 bits nor the nanoseconds 32, also
  in a leap second.
\<close>

lemma wire_time_order:
  assumes "dt_ok (b_created_at a)" and "dt_ok (b_created_at b)"
  shows "b_created_at a < b_created_at b
    \<longleftrightarrow> the (wire_time (proto_backup_info a)) < the (wire_time (proto_backup_info b))"
  using timestamp_order [of "b_created_at a" "b_created_at b"] assms
  by (auto simp: wire_time_exact dt_ok_def)

text \<open>What an error says of the inside of the server, erased.\<close>

fun redact :: "error \<Rightarrow> error" where
  "redact (Config m) = Config []"
| "redact (Storage m) = Storage []"
| "redact (Unavailable m) = Unavailable []"
| "redact (Process p s e) = Process [] [] []"
| "redact (Io c e) = Io [] []"
| "redact e = e"


lemma to_backup_target_iff:
  "to_backup_target r = Inr t \<longleftrightarrow>
     (case t of
        Id i \<Rightarrow> i \<noteq> [] \<and> r = Some \<lparr>ref_target = Some (ProtoId i)\<rparr>
      | Latest \<Rightarrow> r = Some \<lparr>ref_target = Some (ProtoLatest True)\<rparr>)"
  by (cases r; cases t)
    (auto simp: to_backup_target_def Let_def split: option.splits proto_target.splits bool.splits
      intro: proto_ref.equality)

lemma to_backup_target_error: "to_backup_target r = Inl s \<Longrightarrow> st_code s = Code_InvalidArgument"
  by (auto simp: to_backup_target_def Let_def split: option.splits proto_target.splits bool.splits if_splits)

section \<open>Witnesses\<close>

lemma demo_backup_ok: "1 \<le> d \<Longrightarrow> d \<le> 365 \<Longrightarrow> dt_ok (b_created_at (demo_backup i d f k))"
  by (simp add: demo_backup_def dt_ok_def dt_wf_def ndays_def common_flag_def leap_year_def
      MIN_YEAR_def MAX_YEAR_def)

theorem wire_info_faithful_witness:
  "proto_backup_info (demo_backup ''a'' 1 PgCustom Regular) \<noteq> proto_backup_info (demo_backup ''a'' 2 PgCustom Regular)
   \<and> proto_backup_info ((demo_backup ''a'' 1 PgCustom Regular)\<lparr>b_md5 := Some ''x''\<rparr>)
       = proto_backup_info (demo_backup ''a'' 1 PgCustom Regular)"
  using wire_info_faithful [of "demo_backup ''a'' 1 PgCustom Regular" "demo_backup ''a'' 2 PgCustom Regular"]
    wire_info_faithful [of "(demo_backup ''a'' 1 PgCustom Regular)\<lparr>b_md5 := Some ''x''\<rparr>"
      "demo_backup ''a'' 1 PgCustom Regular"]
    demo_backup_ok [of 1 "''a''" PgCustom Regular] demo_backup_ok [of 2 "''a''" PgCustom Regular]
  by (simp add: demo_backup_def)

end
