(* ===== verification/Stream.thy ===== *)
theory Stream
  imports Wire Transition
begin

text \<open>
  The stream of a download (\<^verbatim>\<open>stream_file\<close> in \<^verbatim>\<open>grpc.rs\<close> and the task that \<^verbatim>\<open>download_backup\<close> spawns): a
  producer that reads the temporary file in chunks, a bounded channel, and a client that
  receives at its own pace and may go away at any moment. The file system answers every read
  with an error or with any number of bytes that it may return.
\<close>

section \<open>The producer and the channel\<close>

definition CHUNK_SIZE :: nat where "CHUNK_SIZE = 1024 * 1024"
definition STREAM_BUFFER :: nat where "STREAM_BUFFER = 4"

type_synonym stream_item = "status + download_chunk"

text \<open>
  Where the spawned task is: at \<^verbatim>\<open>tx.send(Ok(header))\<close>, at \<^verbatim>\<open>File::open\<close>, at \<^verbatim>\<open>reader.read\<close>, at the
  \<^verbatim>\<open>tx.send\<close> of a chunk, at the \<^verbatim>\<open>tx.send\<close> of a failure, after which it returns, or at its end.
\<close>

datatype stage = SendHeader | OpenFile | ReadChunk | SendData bytes | SendFailure status | Ended

record stream =
  stage :: stage
  unread :: bytes
  buffer :: "stream_item list"
  received :: "stream_item list"
  rx_open :: bool
  on_disk :: bool

definition internal :: "string \<Rightarrow> status" where
  "internal m = \<lparr>st_code = Code_Internal, st_message = m\<rparr>"

definition header_item :: "proto_info \<Rightarrow> stream_item" where
  "header_item info = Inr \<lparr>chunk_payload = Some (Info info)\<rparr>"

definition data_item :: "bytes \<Rightarrow> stream_item" where
  "data_item d = Inr \<lparr>chunk_payload = Some (Data d)\<rparr>"

definition start_stream :: stream where
  "start_stream =
     \<lparr>stage = SendHeader, unread = [], buffer = [], received = [], rx_open = True, on_disk = True\<rparr>"

text \<open>The task returns: the sender is dropped and the file is removed.\<close>

definition end_task :: "stream \<Rightarrow> stream" where
  "end_task s = s\<lparr>stage := Ended, on_disk := False\<rparr>"

text \<open>The item that the task waits to send, and where it goes on when the item is in the channel.\<close>

fun pending :: "proto_info \<Rightarrow> stage \<Rightarrow> stream_item option" where
  "pending info SendHeader = Some (header_item info)"
| "pending info (SendData d) = Some (data_item d)"
| "pending info (SendFailure e) = Some (Inl e)"
| "pending info _ = None"

fun after_send :: "stream \<Rightarrow> stream" where
  "after_send s =
     (case stage s of
        SendHeader \<Rightarrow> s\<lparr>stage := OpenFile\<rparr>
      | SendData d \<Rightarrow> s\<lparr>stage := ReadChunk\<rparr>
      | _ \<Rightarrow> end_task s)"

text \<open>The answers of the operating system, and what the client does.\<close>

datatype stream_label =
    Sent
  | SendFails
  | Opened "io_error + unit"
  | ReadBytes "io_error + nat"
  | Receive
  | Hangup

definition send_ok :: "proto_info \<Rightarrow> stream \<Rightarrow> stream option" where
  "send_ok info s =
     (if rx_open s \<and> length (buffer s) < STREAM_BUFFER
      then map_option (\<lambda>item. after_send (s\<lparr>buffer := buffer s @ [item]\<rparr>)) (pending info (stage s))
      else None)"

definition send_closed :: "proto_info \<Rightarrow> stream \<Rightarrow> stream option" where
  "send_closed info s =
     (if rx_open s then None else map_option (\<lambda>item. end_task s) (pending info (stage s)))"

definition open_file :: "bytes \<Rightarrow> io_error + unit \<Rightarrow> stream \<Rightarrow> stream option" where
  "open_file content r s =
     (if stage s = OpenFile
      then Some (case r of
                   Inl e \<Rightarrow> s\<lparr>stage := SendFailure (internal (''Could not open download: '' @ e))\<rparr>
                 | Inr _ \<Rightarrow> s\<lparr>stage := ReadChunk, unread := content\<rparr>)
      else None)"

text \<open>
  \<^verbatim>\<open>read\<close> returns 0 only at the end of the file, and never more than the buffer holds.
\<close>

definition read_chunk :: "io_error + nat \<Rightarrow> stream \<Rightarrow> stream option" where
  "read_chunk r s =
     (if stage s = ReadChunk
      then case r of
             Inl e \<Rightarrow> Some (s\<lparr>stage := SendFailure (internal (''Could not read download: '' @ e))\<rparr>)
           | Inr n \<Rightarrow>
               if n > CHUNK_SIZE \<or> n > length (unread s) \<or> (n = 0 \<and> unread s \<noteq> []) then None
               else if n = 0 then Some (end_task s)
               else Some (s\<lparr>stage := SendData (take n (unread s)), unread := drop n (unread s)\<rparr>)
      else None)"

definition receive_item :: "stream \<Rightarrow> stream option" where
  "receive_item s =
     (case buffer s of
        [] \<Rightarrow> None
      | item # rest \<Rightarrow> Some (s\<lparr>buffer := rest, received := received s @ [item]\<rparr>))"

definition hang_up :: "stream \<Rightarrow> stream option" where
  "hang_up s = (if rx_open s then Some (s\<lparr>rx_open := False, buffer := []\<rparr>) else None)"

fun stream_file :: "proto_info \<Rightarrow> bytes \<Rightarrow> stream_label \<Rightarrow> stream \<Rightarrow> stream option" where
  "stream_file info content Sent s = send_ok info s"
| "stream_file info content SendFails s = send_closed info s"
| "stream_file info content (Opened r) s = open_file content r s"
| "stream_file info content (ReadBytes r) s = read_chunk r s"
| "stream_file info content Receive s = receive_item s"
| "stream_file info content Hangup s = hang_up s"

fun stream_run :: "proto_info \<Rightarrow> bytes \<Rightarrow> stream_label list \<Rightarrow> stream \<Rightarrow> stream option" where
  "stream_run info content [] s = Some s"
| "stream_run info content (l # ls) s = Option.bind (stream_file info content l s) (stream_run info content ls)"

lemmas stream_defs = send_ok_def send_closed_def open_file_def read_chunk_def receive_item_def hang_up_def
  end_task_def

section \<open>The invariant\<close>

definition chunk_ok :: "bytes \<Rightarrow> bool" where
  "chunk_ok d \<longleftrightarrow> d \<noteq> [] \<and> length d \<le> CHUNK_SIZE"

text \<open>The items of a transfer that has carried \<open>cs\<close> so far.\<close>

definition transfer :: "proto_info \<Rightarrow> bytes list \<Rightarrow> stream_item list" where
  "transfer info cs = header_item info # map data_item cs"

text \<open>What \<open>items\<close> may be in a stream of \<open>content\<close> with \<open>rest\<close> still to come.\<close>

definition carried :: "proto_info \<Rightarrow> bytes \<Rightarrow> stream_item list \<Rightarrow> bytes \<Rightarrow> bool" where
  "carried info content log rest \<longleftrightarrow>
     (\<exists>cs. log = transfer info cs \<and> list_all chunk_ok cs \<and> concat cs @ rest = content)"

definition broken :: "proto_info \<Rightarrow> bytes \<Rightarrow> stream_item list \<Rightarrow> bool" where
  "broken info content log \<longleftrightarrow>
     (\<exists>xs e rest. log = xs @ [Inl e] \<and> st_code e = Code_Internal \<and> carried info content xs rest)"

fun stage_log :: "proto_info \<Rightarrow> bytes \<Rightarrow> stage \<Rightarrow> bytes \<Rightarrow> stream_item list \<Rightarrow> bool" where
  "stage_log info content SendHeader rest log \<longleftrightarrow> log = []"
| "stage_log info content OpenFile rest log \<longleftrightarrow> log = [header_item info]"
| "stage_log info content ReadChunk rest log \<longleftrightarrow> carried info content log rest"
| "stage_log info content (SendData d) rest log \<longleftrightarrow> chunk_ok d \<and> carried info content log (d @ rest)"
| "stage_log info content (SendFailure e) rest log \<longleftrightarrow>
     st_code e = Code_Internal \<and> (\<exists>r. carried info content log r)"
| "stage_log info content Ended rest log \<longleftrightarrow> carried info content log [] \<or> broken info content log"

text \<open>What the client may have received, however the stream ends.\<close>

definition seen :: "proto_info \<Rightarrow> bytes \<Rightarrow> stream_item list \<Rightarrow> bool" where
  "seen info content log \<longleftrightarrow>
     log = [] \<or> (\<exists>rest. carried info content log rest) \<or> broken info content log"

definition stream_inv :: "proto_info \<Rightarrow> bytes \<Rightarrow> stream \<Rightarrow> bool" where
  "stream_inv info content s \<longleftrightarrow>
     length (buffer s) \<le> STREAM_BUFFER
     \<and> (on_disk s \<longleftrightarrow> stage s \<noteq> Ended)
     \<and> seen info content (received s)
     \<and> (\<not> rx_open s \<longrightarrow> buffer s = [])
     \<and> (rx_open s \<longrightarrow> stage_log info content (stage s) (unread s) (received s @ buffer s))"

lemma carried_prefix:
  assumes "carried info content (xs @ ys) rest"
  shows "xs = [] \<or> (\<exists>r. carried info content xs r)"
proof (cases xs)
  case (Cons x zs)
  obtain cs where cs: "xs @ ys = transfer info cs" "list_all chunk_ok cs" "concat cs @ rest = content"
    using assms by (auto simp: carried_def)
  let ?n = "length zs"
  have "zs = map data_item (take ?n cs)" "x = header_item info"
    using cs(1) Cons by (auto simp: transfer_def take_map [symmetric] append_eq_conv_conj)
  moreover have "list_all chunk_ok (take ?n cs)"
    using cs(2) by (auto simp: list_all_iff dest: in_set_takeD)
  moreover have "concat (take ?n cs) @ (concat (drop ?n cs) @ rest) = content"
    using cs(3) by (metis append.assoc append_take_drop_id concat_append)
  ultimately show ?thesis using Cons by (auto simp: carried_def transfer_def)
qed simp

lemma seen_prefix: "seen info content (xs @ ys) \<Longrightarrow> seen info content xs"
proof -
  assume "seen info content (xs @ ys)"
  then consider "xs @ ys = []" | rest where "carried info content (xs @ ys) rest" | "broken info content (xs @ ys)"
    by (auto simp: seen_def)
  then show ?thesis
  proof cases
    case 3
    then obtain zs e rest where "xs @ ys = zs @ [Inl e]" and z: "carried info content zs rest"
      by (auto simp: broken_def)
    then show ?thesis
      using 3 carried_prefix [of info content xs] by (cases ys rule: rev_cases) (auto simp: seen_def)
  qed (auto simp: seen_def dest: carried_prefix)
qed

lemma carried_header: "carried info content [header_item info] content"
  by (auto simp: carried_def transfer_def)

lemma carried_snoc:
  "carried info content log (d @ rest) \<Longrightarrow> chunk_ok d \<Longrightarrow> carried info content (log @ [data_item d]) rest"
proof -
  assume "carried info content log (d @ rest)" "chunk_ok d"
  then obtain cs where "log = transfer info cs" "list_all chunk_ok cs" "concat cs @ d @ rest = content"
    by (auto simp: carried_def)
  then show ?thesis using \<open>chunk_ok d\<close> by (auto simp: carried_def transfer_def intro!: exI [of _ "cs @ [d]"])
qed

lemma stage_log_seen: "stage_log info content g rest log \<Longrightarrow> seen info content log"
  by (cases g) (auto simp: seen_def intro: carried_header)

lemma stream_inv_seen: "stream_inv info content s \<Longrightarrow> rx_open s \<Longrightarrow> received s @ buffer s = xs @ ys \<Longrightarrow> seen info content xs"
  unfolding stream_inv_def by (metis stage_log_seen seen_prefix)

lemma send_ok_inv:
  assumes "stream_inv info content s" and "send_ok info s = Some t"
  shows "stream_inv info content t"
  using assms
  by (cases "stage s")
    (auto simp: stream_inv_def stream_defs broken_def simp flip: append_assoc split: if_splits intro: carried_snoc)

lemma read_chunk_inv:
  assumes "stream_inv info content s" and "read_chunk r s = Some t"
  shows "stream_inv info content t"
  using assms
  by (cases r)
    (auto simp: stream_inv_def stream_defs chunk_ok_def internal_def split: if_splits)

lemma receive_inv:
  assumes "stream_inv info content s" and "receive_item s = Some t"
  shows "stream_inv info content t"
proof -
  obtain x xs where b: "buffer s = x # xs" and t: "t = s\<lparr>buffer := xs, received := received s @ [x]\<rparr>"
    using assms(2) by (auto simp: receive_item_def split: list.splits)
  have "rx_open s" using assms(1) b by (auto simp: stream_inv_def)
  then have "seen info content (received s @ [x])"
    using stream_inv_seen [OF assms(1), of "received s @ [x]" xs] b by simp
  then show ?thesis using assms(1) b t by (auto simp: stream_inv_def)
qed

lemma stream_inv_step:
  assumes "stream_inv info content s" and "stream_file info content l s = Some t"
  shows "stream_inv info content t"
proof (cases l)
  case Sent
  then show ?thesis using assms send_ok_inv by simp
next
  case SendFails
  then show ?thesis using assms by (cases "stage s") (auto simp: stream_inv_def stream_defs split: if_splits)
next
  case (Opened r)
  then show ?thesis using assms carried_header [of info content]
    by (cases r) (auto simp: stream_inv_def stream_defs internal_def split: if_splits)
next
  case (ReadBytes r)
  then show ?thesis using assms read_chunk_inv by simp
next
  case Receive
  then show ?thesis using assms receive_inv by simp
next
  case Hangup
  then show ?thesis using assms by (auto simp: stream_inv_def stream_defs split: if_splits)
qed

interpretation strm: invariant_system "\<lambda>s. s = start_stream"
  "\<lambda>s l t. stream_file info content l s = Some t" "stream_inv info content" for info content
proof
  show "stream_inv info content s" if "s = start_stream" for s
    using that by (simp add: stream_inv_def start_stream_def seen_def)
qed (rule stream_inv_step)

text \<open>Runs reach reachable states.\<close>

lemma stream_run_reachable:
  assumes "reachable (\<lambda>s. s = start_stream) (\<lambda>s l t. stream_file info content l s = Some t) s"
    and "stream_run info content ls s = Some t"
  shows "reachable (\<lambda>s. s = start_stream) (\<lambda>s l t. stream_file info content l s = Some t) t"
  using assms
proof (induction ls arbitrary: s)
  case (Cons l ls)
  then obtain u where u: "stream_file info content l s = Some u" "stream_run info content ls u = Some t"
    by (auto simp: bind_eq_Some_conv)
  show ?case
    by (rule Cons.IH [OF reachable.step [where step = "\<lambda>s l t. stream_file info content l s = Some t", OF Cons.prems(1) u(1)] u(2)])
qed simp

lemma stream_run_inv: "stream_run info content ls start_stream = Some s \<Longrightarrow> stream_inv info content s"
  by (rule strm.reachable_inv, rule stream_run_reachable [OF reachable.init]) simp_all

section \<open>Termination\<close>

text \<open>An upper bound of the steps that a stream can still make.\<close>

fun stage_work :: "bytes \<Rightarrow> bytes \<Rightarrow> stage \<Rightarrow> nat" where
  "stage_work content rest SendHeader = 4 * length content + 7"
| "stage_work content rest OpenFile = 4 * length content + 5"
| "stage_work content rest ReadChunk = 4 * length rest + 4"
| "stage_work content rest (SendData d) = 4 * length rest + 7"
| "stage_work content rest (SendFailure e) = 3"
| "stage_work content rest Ended = 0"

definition stream_work :: "bytes \<Rightarrow> stream \<Rightarrow> nat" where
  "stream_work content s =
     stage_work content (unread s) (stage s) + length (buffer s) + (if rx_open s then 1 else 0)"

lemma stream_work_less:
  assumes "stream_file info content l s = Some t"
  shows "stream_work content t < stream_work content s"
proof (cases l)
  case Sent
  then show ?thesis using assms
    by (cases "stage s") (auto simp: stream_work_def stream_defs split: if_splits)
next
  case SendFails
  then show ?thesis using assms
    by (cases "stage s") (auto simp: stream_work_def stream_defs split: if_splits)
next
  case (Opened r)
  then show ?thesis using assms
    by (cases r) (auto simp: stream_work_def stream_defs split: if_splits)
next
  case (ReadBytes r)
  then show ?thesis using assms
    by (cases r) (auto simp: stream_work_def stream_defs split: if_splits)
next
  case Receive
  then show ?thesis using assms by (auto simp: stream_work_def stream_defs split: list.splits)
next
  case Hangup
  then show ?thesis using assms by (auto simp: stream_work_def stream_defs split: if_splits)
qed

lemma stream_run_work: "stream_run info content ls s = Some t \<Longrightarrow> length ls + stream_work content t \<le> stream_work content s"
proof (induction ls arbitrary: s)
  case (Cons l ls)
  then obtain u where u: "stream_file info content l s = Some u" "stream_run info content ls u = Some t"
    by (auto simp: bind_eq_Some_conv)
  from stream_work_less [OF u(1)] Cons.IH [OF u(2)] show ?case by simp
qed simp

lemma stream_progress:
  assumes "stage s \<noteq> Ended \<or> buffer s \<noteq> []" and "stream_inv info content s"
  shows "\<exists>l t. l \<noteq> Hangup \<and> stream_file info content l s = Some t"
proof (cases "buffer s")
  case (Cons x xs)
  then show ?thesis by (intro exI [of _ Receive]) (simp add: receive_item_def)
next
  case Nil
  have send: ?thesis if "pending info (stage s) = Some i" for i
  proof (cases "rx_open s")
    case True
    then show ?thesis using that Nil by (intro exI [of _ Sent]) (simp add: send_ok_def STREAM_BUFFER_def)
  next
    case False
    then show ?thesis using that by (intro exI [of _ SendFails]) (simp add: send_closed_def)
  qed
  show ?thesis
  proof (cases "stage s")
    case OpenFile
    then show ?thesis by (intro exI [of _ "Opened (Inr ())"]) (simp add: open_file_def)
  next
    case ReadChunk
    then show ?thesis
      by (intro exI [of _ "ReadBytes (Inr (min CHUNK_SIZE (length (unread s))))"])
        (simp add: read_chunk_def CHUNK_SIZE_def)
  qed (use assms Nil send in auto)
qed

text \<open>A stream that ended in order has carried the whole file.\<close>

lemma stream_complete:
  assumes "stream_run info content ls start_stream = Some s" and "rx_open s" and "stage s = Ended"
    and "buffer s = []" and "\<forall>e. Inl e \<notin> set (received s)"
  shows "\<exists>cs. received s = header_item info # map data_item cs \<and> concat cs = content \<and> list_all chunk_ok cs"
proof -
  have "carried info content (received s) [] \<or> broken info content (received s)"
    using stream_run_inv [OF assms(1)] assms(2-4) by (simp add: stream_inv_def)
  moreover have "\<not> broken info content (received s)" using assms(5) by (auto simp: broken_def)
  ultimately show ?thesis by (auto simp: carried_def transfer_def)
qed

section \<open>Properties\<close>

text \<open>
  Claim C7 (stream_delivers). At every moment the client has received nothing, or the description of the
  backup followed by non-empty chunks of at most 1 MiB that are a prefix of the file, in order,
  possibly with an internal error at the end. A client that stays to the end of the stream and
  saw no error has received the whole file.
\<close>

theorem stream_delivers:
  assumes "stream_run info content ls start_stream = Some s"
  shows "seen info content (received s)
    \<and> (rx_open s \<and> stage s = Ended \<and> buffer s = [] \<and> (\<forall>e. Inl e \<notin> set (received s))
       \<longrightarrow> (\<exists>cs. received s = header_item info # map data_item cs \<and> concat cs = content
              \<and> list_all chunk_ok cs))"
  using stream_run_inv [OF assms] stream_complete [OF assms] by (simp add: stream_inv_def)

text \<open>
  Claim C16 (stream_terminates). Every stream ends, after a number of steps that the size of the file bounds,
  whatever the file system answers and however the client behaves; the channel never holds more
  than its four items; and where nothing but a hang-up can happen any more, the task has
  returned, everything sent has been received and the temporary file is gone.
\<close>

theorem stream_terminates:
  assumes "stream_run info content ls start_stream = Some s"
  shows "length ls \<le> 4 * length content + 8
    \<and> length (buffer s) \<le> 4
    \<and> ((\<forall>l t. l \<noteq> Hangup \<longrightarrow> stream_file info content l s \<noteq> Some t)
       \<longrightarrow> stage s = Ended \<and> buffer s = [] \<and> \<not> on_disk s)"
proof -
  note inv = stream_run_inv [OF assms]
  have "length ls \<le> 4 * length content + 8"
    using stream_run_work [OF assms] by (simp add: stream_work_def start_stream_def)
  moreover have "stage s = Ended \<and> buffer s = []"
    if "\<forall>l t. l \<noteq> Hangup \<longrightarrow> stream_file info content l s \<noteq> Some t"
    using stream_progress [OF _ inv] that by blast
  ultimately show ?thesis using inv by (auto simp: stream_inv_def STREAM_BUFFER_def)
qed

section \<open>Witnesses\<close>

definition demo_header :: proto_info where
  "demo_header = proto_backup_info (demo_backup ''a'' 1 PgCustom Regular)"

text \<open>A file of three bytes that is read in two pieces.\<close>

definition demo_labels :: "stream_label list" where
  "demo_labels = [Sent, Opened (Inr ()), ReadBytes (Inr 2), Receive, Sent, ReadBytes (Inr 1), Sent,
     Receive, ReadBytes (Inr 0), Receive]"

definition demo_end :: stream where
  "demo_end = \<lparr>stage = Ended, unread = [], buffer = [],
     received = [header_item demo_header, data_item ''ab'', data_item ''c''], rx_open = True, on_disk = False\<rparr>"

lemma demo_stream: "stream_run demo_header ''abc'' demo_labels start_stream = Some demo_end"
  by (simp add: demo_labels_def demo_end_def start_stream_def stream_defs STREAM_BUFFER_def CHUNK_SIZE_def)

theorem stream_delivers_witness:
  "stream_run demo_header ''abc'' demo_labels start_stream = Some demo_end
   \<and> (\<exists>cs. received demo_end = header_item demo_header # map data_item cs \<and> concat cs = ''abc'')"
proof -
  have "rx_open demo_end" "stage demo_end = Ended" "buffer demo_end = []"
    "\<forall>e. Inl e \<notin> set (received demo_end)"
    by (simp_all add: demo_end_def header_item_def data_item_def)
  then show ?thesis using stream_delivers [OF demo_stream] demo_stream by blast
qed

theorem stream_terminates_witness:
  "length demo_labels \<le> 20 \<and> stage demo_end = Ended \<and> \<not> on_disk demo_end"
proof -
  have "stream_file demo_header ''abc'' l demo_end = None" if "l \<noteq> Hangup" for l
    using that by (cases l) (simp_all add: demo_end_def stream_defs)
  then show ?thesis using stream_terminates [OF demo_stream] by (simp add: demo_end_def)
qed

end
