(* ===== verification/Service_Safety.thy ===== *)
theory Service_Safety
  imports Service
begin

text \<open>
  What holds of the use cases of \<^verbatim>\<open>service.rs\<close> for every behaviour of database, storage and disk:
  who owns the write lock and the temporary files at which point, in which order the steps of a
  restore happen, and what retention deletes. The statements are about event sequences, that is
  about every prefix of every run.
\<close>

lemmas service_calls = call_unit_def call_info_def call_list_def temp_file_def

section \<open>Ownership\<close>

text \<open>A program that only talks to the storage keeps the resources of its caller.\<close>

lemma owned_temp_file:
  "(\<And>f. Temp f \<notin> H \<Longrightarrow> Q (Inr f) (insert (Temp f) H)) \<Longrightarrow> (\<And>e. Q (Inl e) H) \<Longrightarrow> owned (temp_file s) H Q"
  by (simp add: temp_file_def)

lemma owned_call_unit [simp]: "owned (call_unit c) H Q \<longleftrightarrow> unit_needs c \<subseteq> H \<and> (\<forall>r. Q r H)"
  by (simp add: call_unit_def)

lemma owned_call_info [simp]: "owned (call_info c) H Q \<longleftrightarrow> info_needs c \<subseteq> H \<and> (\<forall>r. Q r H)"
  by (simp add: call_info_def)

lemma owned_call_list [simp]: "owned (call_list n t) H Q \<longleftrightarrow> (\<forall>r. Q r H)"
  by (simp add: call_list_def)

lemma owned_resolve: "(\<And>r. Q r H) \<Longrightarrow> owned (resolve target) H Q"
  by (cases target) (simp_all add: owned_try split: sum.split)

lemma owned_list_all_loop: "(\<And>r. Q r H) \<Longrightarrow> owned (list_all_loop n t acc) H Q"
  by (induction n arbitrary: t acc) (simp_all add: owned_try Let_def split: sum.split option.split)

lemma owned_delete_each: "Q () H \<Longrightarrow> owned (delete_each bs) H Q"
  by (induction bs) simp_all

lemma owned_prune: "Q () H \<Longrightarrow> owned (prune_old_backups deps) H Q"
  by (auto simp: prune_old_backups_def list_all_backups_def
      intro!: owned_list_all_loop owned_delete_each split: option.split sum.split)

lemma owned_dump_and_upload:
  assumes "Guard \<in> H" and "\<And>r. Q r H"
  shows "owned (dump_and_upload deps kind) H Q"
proof -
  have "insert (Temp f) H - {Temp f} = H" if "Temp f \<notin> H" for f using that by auto
  then show ?thesis
    using assms unfolding dump_and_upload_def
    by (auto simp: owned_try pg_dump_def intro!: owned_temp_file split: sum.split)
qed

lemma owned_with_lock:
  assumes "Guard \<notin> H" and "owned body (insert Guard H) (\<lambda>r H'. Guard \<in> H' \<and> Q r (H' - {Guard}))"
    and "Q (Inl (Busy ''another backup or restore is in progress'')) H"
  shows "owned (with_lock body) H Q"
  using assms by (simp add: with_lock_def)

lemma owned_create_backup: "owned (create_backup deps) {} (\<lambda>r H. H = {})"
  unfolding create_backup_def
  by (rule owned_with_lock)
    (auto simp: owned_try intro!: owned_dump_and_upload owned_prune split: sum.split)

lemma owned_restore: "owned (restore deps target confirm) {} (\<lambda>r H. H = {})"
proof -
  have "insert (Temp f) {Guard} - {Temp f} = {Guard}" for f by auto
  then show ?thesis
    unfolding restore_def
    by (auto simp: owned_try intro!: owned_with_lock owned_resolve owned_temp_file owned_dump_and_upload
        split: sum.split)
qed

lemma owned_download:
  "owned (download target) {} (\<lambda>r H. case r of Inl e \<Rightarrow> H = {} | Inr (info, f) \<Rightarrow> H = {Temp f})"
  unfolding download_def
  by (auto simp: owned_try intro!: owned_resolve owned_temp_file split: sum.split)

lemma owned_final:
  assumes "owned p {} Q" and "psteps p es (Ret r)" and "fresh_run {} es"
  shows "Q r (holds es)"
  using owned_psteps [OF assms(2,1,3)] by (simp add: holds_def)

lemma owned_list_backups: "owned (list_backups n t) {} (\<lambda>r H. H = {})"
  by (simp add: list_backups_def Let_def)

lemma owned_healthcheck: "owned healthcheck {} (\<lambda>r H. H = {})"
  by (simp add: healthcheck_def)

text \<open>
  When a use case returns, on success, on every error and after every
  answer of the ports, it holds nothing any more: the lock and all its temporary files are
  released, each exactly once. The only exception is a successful download, which hands exactly
  the file it names over to its caller.
\<close>

lemma resources_released:
  assumes "fresh_run {} es"
  shows "(psteps (create_backup deps) es (Ret r1) \<longrightarrow> holds es = {})
    \<and> (psteps (restore deps target confirm) es (Ret r2) \<longrightarrow> holds es = {})
    \<and> (psteps (download target) es (Ret r3) \<longrightarrow>
         holds es = (case r3 of Inl e \<Rightarrow> {} | Inr (info, f) \<Rightarrow> {Temp f}))"
proof (intro conjI impI)
  assume "psteps (download target) es (Ret r3)"
  from owned_final [OF owned_download this assms]
  show "holds es = (case r3 of Inl e \<Rightarrow> {} | Inr (info, f) \<Rightarrow> {Temp f})" by (auto split: sum.splits)
qed (rule owned_final [OF owned_create_backup _ assms] owned_final [OF owned_restore _ assms], assumption)+

text \<open>
  The requests of the gRPC interface as tasks, without the conversion of their results: the file
  of a download is dropped when its stream ends.
\<close>

datatype request =
    CreateBackup
  | ListBackups "32 word" "string option"
  | GetBackup backup_target
  | DownloadBackup backup_target
  | Restore backup_target string
  | Healthcheck

fun serve :: "'a service_deps_scheme \<Rightarrow> request \<Rightarrow> unit prog" where
  "serve deps CreateBackup = bind_prog (create_backup deps) (\<lambda>_. Ret ())"
| "serve deps (ListBackups n t) = bind_prog (list_backups n t) (\<lambda>_. Ret ())"
| "serve deps (GetBackup target) = bind_prog (resolve target) (\<lambda>_. Ret ())"
| "serve deps (DownloadBackup target) =
     bind_prog (download target) (\<lambda>r. case r of Inl e \<Rightarrow> Ret () | Inr (info, f) \<Rightarrow> Release (Temp f) (Ret ()))"
| "serve deps (Restore target confirm) = bind_prog (restore deps target confirm) (\<lambda>_. Ret ())"
| "serve deps Healthcheck = bind_prog healthcheck (\<lambda>_. Ret ())"

lemma owned_serve: "owned (serve deps req) {} (\<lambda>_ H. H = {})"
proof (cases req)
  case (DownloadBackup target)
  then show ?thesis by (auto intro!: owned_mono [OF owned_download] split: sum.splits)
qed (simp_all add: owned_create_backup owned_list_backups owned_resolve owned_restore owned_healthcheck)

text \<open>
  At every moment at which a request asks the database to be dumped or
  overwritten, it holds the write lock, and the file it passes is a temporary file that it
  created and has not dropped. The same holds for the file of every upload and download.
\<close>

lemma writes_under_lock:
  assumes "psteps (serve deps req) (es @ e # es') q" and "fresh_run {} (es @ e # es')"
  shows "(case e of
      EUnit (Dump f) a \<Rightarrow> {Guard, Temp f} \<subseteq> holds es
    | EUnit (RestoreDb f) a \<Rightarrow> {Guard, Temp f} \<subseteq> holds es
    | EUnit (Download b f) a \<Rightarrow> Temp f \<in> holds es
    | EInfo (Upload req) a \<Rightarrow> Temp (ur_path req) \<in> holds es
    | EBlocking f g a \<Rightarrow> {Temp f, Temp g} \<subseteq> holds es
    | ERelease x \<Rightarrow> x \<in> holds es
    | _ \<Rightarrow> True)"
proof -
  have "event_needs e \<subseteq> holds es"
    unfolding holds_def using owned_psteps [OF assms(1) owned_serve assms(2)] well_used_split by blast
  then show ?thesis by (auto split: event.split unit_call.split info_call.split)
qed

section \<open>Unfolding runs\<close>

text \<open>A run of a program is empty or begins with an answer to its first call.\<close>

lemma psteps_cases:
  "psteps (TryLock k) es q \<longleftrightarrow>
     es = [] \<and> q = TryLock k \<or> (\<exists>r fs. es = ELock r # fs \<and> psteps (k r) fs q)"
  "psteps (TempFile s k') es q \<longleftrightarrow>
     es = [] \<and> q = TempFile s k' \<or> (\<exists>r fs. es = ETemp s r # fs \<and> psteps (k' r) fs q)"
  "psteps (Release x p) es q \<longleftrightarrow>
     es = [] \<and> q = Release x p \<or> (\<exists>fs. es = ERelease x # fs \<and> psteps p fs q)"
  "psteps (DoUnit c ku) es q \<longleftrightarrow>
     es = [] \<and> q = DoUnit c ku \<or> (\<exists>r fs. es = EUnit c r # fs \<and> psteps (ku r) fs q)"
  "psteps (DoInfo d ki) es q \<longleftrightarrow>
     es = [] \<and> q = DoInfo d ki \<or> (\<exists>r fs. es = EInfo d r # fs \<and> psteps (ki r) fs q)"
  "psteps (DoList n t kl) es q \<longleftrightarrow>
     es = [] \<and> q = DoList n t kl \<or> (\<exists>r fs. es = EList n t r # fs \<and> psteps (kl r) fs q)"
  "psteps (DoLatest kt) es q \<longleftrightarrow>
     es = [] \<and> q = DoLatest kt \<or> (\<exists>r fs. es = ELatest r # fs \<and> psteps (kt r) fs q)"
  "psteps (DoNow kn) es q \<longleftrightarrow>
     es = [] \<and> q = DoNow kn \<or> (\<exists>r fs. es = ENow r # fs \<and> psteps (kn r) fs q)"
  by (cases es; auto simp: psteps_Cons)+

fun resolved :: "backup_target \<Rightarrow> backup_info \<Rightarrow> event" where
  "resolved (Id i) b = EInfo (Get i) (Inr b)"
| "resolved Latest b = ELatest (Inr (Some b))"

fun is_restore :: "event \<Rightarrow> bool" where
  "is_restore (EUnit (RestoreDb f) r) = True"
| "is_restore e = False"

lemmas run_unfold = with_lock_def try_prog_def scoped_def dump_and_upload_def service_calls
  psteps_cases split_sum_ex split_option_ex ex_bool_eq ok_or_def

section \<open>Restore\<close>

text \<open>
  Claim C1 (restore_order). The database is overwritten only after every safeguard of a restore, in
  this order and with these very files: the caller confirmed the database name, the write lock
  was free and taken, the target was resolved to a backup in \<^verbatim>\<open>pg_dump\<close> format, this backup was
  downloaded completely to a new temporary file, a dump of the current database was taken to
  another one and stored as a pre-restore copy, and only then is the first file restored. The
  lock is not released before, and at most the two drops of file and guard follow.
\<close>

theorem restore_order:
  assumes "psteps (restore deps target confirm) es q" and "EUnit (RestoreDb f) r \<in> set es"
  shows "confirm = restorer_db_name deps \<and>
    (\<exists>b g t i rest. b_format b = PgCustom \<and>
       es = [ELock True, resolved target b, ETemp ''.pgdump'' (Inr f), EUnit (Download b f) (Inr ()),
             ETemp ''.pgdump'' (Inr g), EUnit (Dump g) (Inr ()), ENow t,
             EInfo (Upload (pg_dump g (dumper_db_name deps) PreRestore t)) (Inr i), ERelease (Temp g),
             EUnit (RestoreDb f) r] @ rest
       \<and> prefix rest [ERelease (Temp f), ERelease Guard])"
proof (cases "confirm = restorer_db_name deps")
  case True
  have eq: "restore deps target confirm = with_lock
        (try_prog (resolve target) (\<lambda>restored.
         if b_format restored \<noteq> PgCustom
         then Ret (Inl (FailedPrecondition (quoted (b_name restored) @ '' is ''
                @ format_as_str (b_format restored) @ ''; restore it with DownloadBackup and the legacy client'')))
         else
           try_prog (temp_file ''.pgdump'') (\<lambda>f.
           scoped (Temp f)
             (try_prog (call_unit (Download restored f)) (\<lambda>_.
              try_prog (dump_and_upload deps PreRestore) (\<lambda>pre_restore.
              try_prog (call_unit (RestoreDb f)) (\<lambda>_.
              Ret (Inr \<lparr>restored = restored, pre_restore = pre_restore\<rparr>))))))))"
    using True by (simp add: restore_def svc_db_name_def)
  show ?thesis
    using assms True unfolding eq
    by (cases target)
      (auto simp: run_unfold split: if_splits)
next
  case False
  then show ?thesis using assms by (simp add: restore_def svc_db_name_def)
qed

text \<open>
  Claim C28 (restore_refused). A restore with a wrong database name touches nothing, not even the lock.
  While another backup or restore runs it only fails with \<open>Busy\<close>. A backup that is not in
  \<^verbatim>\<open>pg_dump\<close> format is refused right after it was resolved, with the lock released, before any file
  is created and before the database is dumped.
\<close>

theorem restore_refused:
  assumes "psteps (restore deps target confirm) es (Ret r)"
  shows "(confirm \<noteq> restorer_db_name deps \<longrightarrow> es = [] \<and> (\<exists>m. r = Inl (FailedPrecondition m)))
    \<and> (confirm = restorer_db_name deps \<longrightarrow> es \<noteq> [] \<and>
        (hd es = ELock False \<longrightarrow>
           es = [ELock False] \<and> r = Inl (Busy ''another backup or restore is in progress''))
        \<and> (\<forall>b rest. es = ELock True # resolved target b # rest \<and> b_format b = LegacyJsonZstd \<longrightarrow>
             rest = [ERelease Guard] \<and> (\<exists>m. r = Inl (FailedPrecondition m))))"
  using assms
  by (cases target)
    (auto simp: restore_def svc_db_name_def run_unfold split: if_splits)

definition demo_deps :: service_deps where
  "demo_deps = \<lparr>dumper_db_name = ''tracker'', restorer_db_name = ''tracker'', data_folder = ''/data'',
     retention = Some 1\<rparr>"

text \<open>A complete restore of the latest backup, as events.\<close>

definition demo_restore :: "event list" where
  "demo_restore =
     [ELock True, ELatest (Inr (Some (demo_backup ''a'' 1 PgCustom Regular))), ETemp ''.pgdump'' (Inr ''f''),
      EUnit (Download (demo_backup ''a'' 1 PgCustom Regular) ''f'') (Inr ()), ETemp ''.pgdump'' (Inr ''g''),
      EUnit (Dump ''g'') (Inr ()), ENow demo_time,
      EInfo (Upload (pg_dump ''g'' ''tracker'' PreRestore demo_time)) (Inr (demo_backup ''p'' 2 PgCustom PreRestore)),
      ERelease (Temp ''g''), EUnit (RestoreDb ''f'') (Inr ()), ERelease (Temp ''f''), ERelease Guard]"

lemma demo_restore_run:
  "psteps (restore demo_deps Latest ''tracker'') demo_restore
     (Ret (Inr \<lparr>restored = demo_backup ''a'' 1 PgCustom Regular,
               pre_restore = demo_backup ''p'' 2 PgCustom PreRestore\<rparr>))"
  by (simp add: demo_restore_def restore_def svc_db_name_def demo_deps_def run_unfold demo_backup_def)

theorem restore_order_witness:
  "psteps (restore demo_deps Latest ''tracker'') demo_restore
     (Ret (Inr \<lparr>restored = demo_backup ''a'' 1 PgCustom Regular,
               pre_restore = demo_backup ''p'' 2 PgCustom PreRestore\<rparr>))
   \<and> EUnit (RestoreDb ''f'') (Inr ()) \<in> set demo_restore
   \<and> ''tracker'' = restorer_db_name demo_deps"
  using restore_order [OF demo_restore_run, of "''f''" "Inr ()"] demo_restore_run
  by (simp add: demo_restore_def)

theorem restore_refused_witness:
  "psteps (restore demo_deps Latest ''prod'') [] (restore demo_deps Latest ''prod'')
   \<and> (\<exists>m. restore demo_deps Latest ''prod'' = Ret (Inl (FailedPrecondition m)))
   \<and> psteps (restore demo_deps Latest ''tracker'')
       [ELock False] (Ret (Inl (Busy ''another backup or restore is in progress'')))"
proof -
  obtain r where r: "restore demo_deps Latest ''prod'' = Ret r"
    by (simp add: restore_def svc_db_name_def demo_deps_def)
  have busy: "psteps (restore demo_deps Latest ''tracker'')
      [ELock False] (Ret (Inl (Busy ''another backup or restore is in progress'')))"
    by (simp add: restore_def svc_db_name_def demo_deps_def run_unfold)
  have "psteps (restore demo_deps Latest ''prod'') [] (Ret r)" using r by simp
  from restore_refused [OF this] restore_refused [OF busy] r busy show ?thesis
    by (simp add: demo_deps_def)
qed

lemma demo_fresh: "fresh_run {} demo_restore"
  by (simp add: demo_restore_def)

section \<open>Backups and retention\<close>

text \<open>The backups that the pages of a run list, in order.\<close>

fun listed :: "event list \<Rightarrow> backup_info list" where
  "listed [] = []"
| "listed (EList n t (Inr page) # es) = items page @ listed es"
| "listed (e # es) = listed es"

fun is_list :: "event \<Rightarrow> bool" where
  "is_list (EList n t r) = True"
| "is_list e = False"

lemma listed_append [simp]: "listed (es @ fs) = listed es @ listed fs"
  by (induction es rule: listed.induct) auto

text \<open>The listing came to its end: the last page names no further one.\<close>

definition complete_listing :: "event list \<Rightarrow> bool" where
  "complete_listing es \<longleftrightarrow>
     es \<noteq> [] \<and> (\<exists>n t page. last es = EList n t (Inr page) \<and> continue_token page = None)"

lemma complete_listing_Cons: "complete_listing es \<Longrightarrow> complete_listing (e # es)"
  by (simp add: complete_listing_def)

lemma psteps_list_all_loop:
  "psteps (list_all_loop n t acc) es q \<Longrightarrow>
     list_all is_list es \<and> length es \<le> n
     \<and> (\<forall>all. q = Ret (Inr all) \<longrightarrow> all = acc @ listed es \<and> complete_listing es)"
proof (induction n arbitrary: t acc es)
  case (Suc n)
  show ?case
  proof (cases es)
    case (Cons e fs)
    then obtain r where e: "e = EList MAX_PAGE_SIZE t r"
      "psteps (case r of Inl x \<Rightarrow> Ret (Inl x) | Inr page \<Rightarrow>
         (case continue_token page of Some next \<Rightarrow> list_all_loop n (Some next) (acc @ items page)
          | None \<Rightarrow> Ret (Inr (acc @ items page)))) fs q"
      using Suc.prems by (auto simp: try_prog_def call_list_def psteps_cases Let_def)
    show ?thesis
    proof (cases "\<exists>page next. r = Inr page \<and> continue_token page = Some next")
      case True
      then obtain page nxt where "r = Inr page" "psteps (list_all_loop n (Some nxt) (acc @ items page)) fs q"
        using e(2) by auto
      then show ?thesis using Suc.IH Cons e(1) by (fastforce intro: complete_listing_Cons)
    next
      case False
      then show ?thesis using Cons e by (auto simp: complete_listing_def split: sum.splits option.splits)
    qed
  qed (use Suc.prems in \<open>auto simp: try_prog_def call_list_def\<close>)
qed simp

lemma psteps_delete_each:
  "psteps (delete_each bs) es q \<Longrightarrow>
     \<exists>rs. es = map2 (\<lambda>b r. EUnit (Delete (b_id b)) r) (take (length rs) bs) rs \<and> length rs \<le> length bs"
proof (induction bs arbitrary: es)
  case (Cons b bs)
  then show ?case
  proof (cases es)
    case (Cons e fs)
    then obtain r where "e = EUnit (Delete (b_id b)) r" "psteps (delete_each bs) fs q"
      using Cons.prems by (auto simp: run_unfold)
    moreover obtain rs where "fs = map2 (\<lambda>b r. EUnit (Delete (b_id b)) r) (take (length rs) bs) rs"
      "length rs \<le> length bs"
      using Cons.IH calculation(2) by blast
    ultimately show ?thesis using Cons by (intro exI [of _ "r # rs"]) simp
  qed (intro exI [of _ "[]"], simp)
qed simp

definition deletions :: "backup_info list \<Rightarrow> unit result list \<Rightarrow> event list" where
  "deletions bs rs = map2 (\<lambda>b r. EUnit (Delete (b_id b)) r) (take (length rs) bs) rs"

lemma psteps_prune:
  assumes "psteps (prune_old_backups deps) es q"
  shows "\<exists>ls ds. es = ls @ ds \<and> list_all is_list ls \<and>
    (ds = [] \<or> (\<exists>keep rs. retention deps = Some keep \<and> complete_listing ls
      \<and> ds = deletions (retention_candidates (listed ls) keep) rs))"
proof (cases "retention deps")
  case None
  then show ?thesis using assms by (intro exI [of _ "[]"]) (simp add: prune_old_backups_def)
next
  case (Some keep)
  let ?k = "\<lambda>r. case r of Inl e \<Rightarrow> Ret () | Inr all \<Rightarrow> delete_each (retention_candidates all keep)"
  have "psteps (bind_prog (list_all_loop MAX_RETENTION_PAGES None []) ?k) es q"
    using assms Some by (simp add: prune_old_backups_def list_all_backups_def)
  from psteps_bind [OF this] show ?thesis
  proof (elim disjE exE conjE)
    fix p' assume "psteps (list_all_loop MAX_RETENTION_PAGES None []) es p'"
    then show ?thesis
      using psteps_list_all_loop by (intro exI [of _ es] exI [of _ "[]"]) auto
  next
    fix ls ds x
    assume *: "es = ls @ ds" "psteps (list_all_loop MAX_RETENTION_PAGES None []) ls (Ret x)" "psteps (?k x) ds q"
    note ls = psteps_list_all_loop [OF *(2)]
    show ?thesis
    proof (cases x)
      case (Inl e)
      then show ?thesis using * ls by (intro exI [of _ ls] exI [of _ "[]"]) auto
    next
      case (Inr all)
      then have "psteps (delete_each (retention_candidates (listed ls) keep)) ds q" "complete_listing ls"
        using * ls by simp_all
      then show ?thesis
        using *(1) ls Some psteps_delete_each [of _ ds q] unfolding deletions_def by blast
    qed
  qed
qed

lemma psteps_create_backup:
  assumes "psteps (create_backup deps) es q"
  obtains (stored) f t i es' where "es = [ELock True, ETemp ''.pgdump'' (Inr f), EUnit (Dump f) (Inr ()), ENow t,
      EInfo (Upload (pg_dump f (dumper_db_name deps) Regular t)) (Inr i), ERelease (Temp f)] @ es'"
    "psteps (bind_prog (prune_old_backups deps) (\<lambda>_. Release Guard (Ret (Inr i)))) es' q"
  | (failed) "\<forall>x r. EUnit (Delete x) r \<notin> set es" "\<forall>r i. q = Ret r \<longrightarrow> r \<noteq> Inr i"
      "\<forall>req i. EInfo (Upload req) (Inr i) \<in> set es \<longrightarrow> (\<forall>r. q \<noteq> Ret r)"
  using assms unfolding create_backup_def
  by (simp add: run_unfold bind_prog_assoc) (elim disjE exE conjE; fastforce)

lemma psteps_prune_then:
  assumes "psteps (bind_prog (prune_old_backups deps) (\<lambda>_. Release Guard (Ret x))) es q"
  shows "\<exists>ls ds rest. es = ls @ ds @ rest \<and> list_all is_list ls \<and> prefix rest [ERelease Guard]
    \<and> (ds = [] \<or> (\<exists>keep rs. retention deps = Some keep \<and> complete_listing ls
      \<and> ds = deletions (retention_candidates (listed ls) keep) rs))
    \<and> (\<forall>r. q = Ret r \<longrightarrow> r = x)"
  using psteps_bind [OF assms]
proof (elim disjE exE conjE)
  fix p' assume *: "psteps (prune_old_backups deps) es p'" "q = bind_prog p' (\<lambda>_. Release Guard (Ret x))"
  then have "\<forall>r. q \<noteq> Ret r" by (cases p') auto
  then show ?thesis using psteps_prune [OF *(1)] by (metis append_Nil2 Nil_prefix)
next
  fix es1 es2 u
  assume *: "es = es1 @ es2" "psteps (prune_old_backups deps) es1 (Ret u)"
    "psteps (Release Guard (Ret x)) es2 q"
  have "prefix es2 [ERelease Guard]" "\<forall>r. q = Ret r \<longrightarrow> r = x" using *(3) by (auto simp: psteps_cases)
  then show ?thesis using psteps_prune [OF *(2)] *(1) by (metis append_assoc)
qed

text \<open>
  Claim C13 (prune_order). A backup is deleted only by retention, only after the new backup was dumped
  and stored, and only after the storage was listed to its end; the deletions go through the
  retention candidates of exactly the backups that were listed, in order, one call each, whether
  or not earlier deletions failed. Nothing but the drop of the guard follows.
\<close>

theorem prune_order:
  assumes "psteps (create_backup deps) es q" and "EUnit (Delete x) r \<in> set es"
  shows "\<exists>f t i ls rs rest keep. retention deps = Some keep \<and>
    es = [ELock True, ETemp ''.pgdump'' (Inr f), EUnit (Dump f) (Inr ()), ENow t,
          EInfo (Upload (pg_dump f (dumper_db_name deps) Regular t)) (Inr i), ERelease (Temp f)]
         @ ls @ deletions (retention_candidates (listed ls) keep) rs @ rest
    \<and> list_all is_list ls \<and> complete_listing ls \<and> prefix rest [ERelease Guard]"
  using assms(1)
proof (cases rule: psteps_create_backup)
  case (stored f t i es')
  obtain ls ds rest where *: "es' = ls @ ds @ rest" "list_all is_list ls" "prefix rest [ERelease Guard]"
    "ds = [] \<or> (\<exists>keep rs. retention deps = Some keep \<and> complete_listing ls
      \<and> ds = deletions (retention_candidates (listed ls) keep) rs)"
    using psteps_prune_then [OF stored(2)] by blast
  have "set rest \<subseteq> {ERelease Guard}" using set_mono_prefix [OF *(3)] by simp
  moreover have "EUnit (Delete x) r \<notin> set ls" using *(2) by (auto simp: list_all_iff)
  ultimately have "ds \<noteq> []" using assms(2) stored(1) *(1) by auto
  then show ?thesis using * stored(1) by auto
next
  case failed
  then show ?thesis using assms(2) by blast
qed

text \<open>
  Claim C29 (create_backup_result). A backup run succeeds exactly when its upload did, and returns what
  the storage answered: no failure of listing or deleting old backups turns it into an error.
\<close>

theorem create_backup_result:
  assumes "psteps (create_backup deps) es (Ret r)"
  shows "r = Inr i \<longleftrightarrow> (\<exists>req. EInfo (Upload req) (Inr i) \<in> set es)"
  using assms
proof (cases rule: psteps_create_backup)
  case (stored f t j es')
  obtain ls ds rest where *: "es' = ls @ ds @ rest" "list_all is_list ls" "prefix rest [ERelease Guard]"
    "ds = [] \<or> (\<exists>keep rs. retention deps = Some keep \<and> complete_listing ls
      \<and> ds = deletions (retention_candidates (listed ls) keep) rs)"
    "r = Inr j"
    using psteps_prune_then [OF stored(2)] by blast
  have "set rest \<subseteq> {ERelease Guard}" using set_mono_prefix [OF *(3)] by simp
  moreover have "EInfo c a \<notin> set ls" for c a using *(2) by (auto simp: list_all_iff)
  moreover have "EInfo c a \<notin> set ds" for c a using *(4) by (auto simp: deletions_def)
  ultimately have "EInfo c a \<notin> set es'" for c a using *(1) by auto
  then show ?thesis using stored(1) *(5) by auto
next
  case failed
  then show ?thesis by blast
qed

text \<open>A run of a backup with retention 1 on a storage that already holds two backups.\<close>

definition demo_page :: "backup_info page" where
  "demo_page = \<lparr>items = [demo_backup ''n'' 3 PgCustom Regular, demo_backup ''b'' 2 PgCustom Regular,
     demo_backup ''l'' 1 LegacyJsonZstd Regular], next_page_token = None\<rparr>"

definition demo_create :: "event list" where
  "demo_create =
     [ELock True, ETemp ''.pgdump'' (Inr ''f''), EUnit (Dump ''f'') (Inr ()), ENow demo_time,
      EInfo (Upload (pg_dump ''f'' ''tracker'' Regular demo_time)) (Inr (demo_backup ''n'' 3 PgCustom Regular)),
      ERelease (Temp ''f''), EList MAX_PAGE_SIZE None (Inr demo_page),
      EUnit (Delete ''b'') (Inl (Storage ''no'')), ERelease Guard]"

lemma demo_candidates: "retention_candidates (items demo_page) 1 = [demo_backup ''b'' 2 PgCustom Regular]"
  by (simp add: retention_candidates_def demo_page_def demo_backup_def prunable_def less_eq_reverse_def
      less_eq_datetime_def dt_key_def)

lemma demo_create_run:
  "psteps (create_backup demo_deps) demo_create (Ret (Inr (demo_backup ''n'' 3 PgCustom Regular)))"
proof -
  have loop: "list_all_backups = DoList MAX_PAGE_SIZE None (\<lambda>r. case r of
      Inl e \<Rightarrow> Ret (Inl e)
    | Inr page \<Rightarrow> (case continue_token page of
         Some next \<Rightarrow> list_all_loop 99 (Some next) (items page) | None \<Rightarrow> Ret (Inr (items page))))"
    unfolding list_all_backups_def MAX_RETENTION_PAGES_def
    using list_all_loop.simps(2) [of 99 None "[]"] by (simp add: try_prog_def call_list_def Let_def)
  have "continue_token demo_page = None" by (simp add: continue_token_def demo_page_def)
  then show ?thesis
    using demo_candidates
    by (simp add: demo_create_def create_backup_def prune_old_backups_def run_unfold loop demo_deps_def
        demo_backup_def)
qed

theorem prune_order_witness:
  "psteps (create_backup demo_deps) demo_create (Ret (Inr (demo_backup ''n'' 3 PgCustom Regular)))
   \<and> EUnit (Delete ''b'') (Inl (Storage ''no'')) \<in> set demo_create
   \<and> (\<exists>keep. retention demo_deps = Some keep)"
  using prune_order [OF demo_create_run, of "''b''" "Inl (Storage ''no'')"] demo_create_run
  by (auto simp: demo_create_def)

theorem create_backup_result_witness:
  "psteps (create_backup demo_deps) demo_create (Ret (Inr (demo_backup ''n'' 3 PgCustom Regular)))
   \<and> (\<exists>req. EInfo (Upload req) (Inr (demo_backup ''n'' 3 PgCustom Regular)) \<in> set demo_create)"
  using create_backup_result [OF demo_create_run] demo_create_run by blast

end
