(* ===== verification/Service_Run.thy ===== *)
theory Service_Run
  imports Service_Safety
begin

text \<open>
  Runs of the service on concrete ports: the interpreter follows the event semantics, nothing is
  left behind on disk, and the scan of all backups returns the whole listing.
\<close>

section \<open>Runs are event sequences\<close>

lemma run_bind: "run D (bind_prog p f) s = (case run D p s of (x, s') \<Rightarrow> run D (f x) s')"
  by (induction p arbitrary: s) (auto split: prod.split)

lemma run_try:
  "run D (try_prog m k) s = (case run D m s of (Inl e, s') \<Rightarrow> (Inl e, s') | (Inr x, s') \<Rightarrow> run D (k x) s')"
  by (auto simp: try_prog_def run_bind split: prod.split sum.split)

text \<open>The answers that the ports, the lock and the disk give to the calls of an event sequence.\<close>

fun env_step :: "'e ports \<Rightarrow> event \<Rightarrow> 'e service_state \<Rightarrow> 'e service_state \<Rightarrow> bool" where
  "env_step D (ELock r) s s' \<longleftrightarrow> r = (\<not> write_lock s) \<and> s' = s\<lparr>write_lock := True\<rparr>"
| "env_step D (ETemp suf r) s s' \<longleftrightarrow>
     on_machine (tempfile_in (data_folder D) ''backup_'' suf) s = (r, s')"
| "env_step D (ERelease x) s s' \<longleftrightarrow> s' = release x s"
| "env_step D (EUnit c r) s s' \<longleftrightarrow> on_machine (unit_op D c) s = (r, s')"
| "env_step D (EInfo c r) s s' \<longleftrightarrow> on_machine (info_op D c) s = (r, s')"
| "env_step D (EList n t r) s s' \<longleftrightarrow> on_machine (list_op D n t) s = (r, s')"
| "env_step D (ELatest r) s s' \<longleftrightarrow> on_machine (latest_op D) s = (r, s')"
| "env_step D (ENow r) s s' \<longleftrightarrow> on_machine (now_op D) s = (r, s')"
| "env_step D (EBlocking f g r) s s' \<longleftrightarrow> on_machine (blocking D f g) s = (r, s')"

fun env_run :: "'e ports \<Rightarrow> event list \<Rightarrow> 'e service_state \<Rightarrow> 'e service_state \<Rightarrow> bool" where
  "env_run D [] s s' \<longleftrightarrow> s = s'"
| "env_run D (e # es) s s' \<longleftrightarrow> (\<exists>s1. env_step D e s s1 \<and> env_run D es s1 s')"

lemma relock: "write_lock s \<Longrightarrow> s\<lparr>write_lock := True\<rparr> = s"
  by (cases s) simp

text \<open>One event of the program under the environment is one step of the interpreter.\<close>

lemma run_pstep:
  assumes "pstep p e q" and "env_step D e s s1"
  shows "run D p s = run D q s1"
  using assms
proof (cases rule: pstep.cases)
  case (lock k r)
  then show ?thesis using assms(2) by (cases "write_lock s") (simp_all only: env_step.simps run.simps if_True if_False relock simp_thms)
qed (use assms in auto)

lemma run_of_psteps: "psteps p es (Ret x) \<Longrightarrow> env_run D es s s' \<Longrightarrow> run D p s = (x, s')"
proof (induction es arbitrary: p s)
  case (Cons e es)
  then obtain q s1 where "pstep p e q" "psteps q es (Ret x)" "env_step D e s s1" "env_run D es s1 s'"
    by (auto simp: psteps_Cons)
  then show ?case using Cons.IH run_pstep by metis
qed auto

lemma env_run_step:
  "pstep p e q \<Longrightarrow> env_step D e s v \<Longrightarrow> \<exists>es. psteps q es (Ret x) \<and> env_run D es v s' \<Longrightarrow>
     \<exists>es. psteps p es (Ret x) \<and> env_run D es s s'"
  by (metis env_run.simps(2) psteps.step)

lemma psteps_of_run: "run D p s = (x, s') \<Longrightarrow> \<exists>es. psteps p es (Ret x) \<and> env_run D es s s'"
proof (induction p arbitrary: s)
  case (Ret y)
  then show ?case by (intro exI [of _ "[]"]) simp
next
  case (TryLock k)
  have "run D (k (\<not> write_lock s)) (s\<lparr>write_lock := True\<rparr>) = (x, s')"
    using TryLock.prems by (cases "write_lock s") (simp_all only: run.simps if_True if_False relock not_True_eq_False not_False_eq_True)
  then show ?case
    by (intro env_run_step [OF pstep.lock [of k "\<not> write_lock s"], where v = "s\<lparr>write_lock := True\<rparr>"])
      (simp, rule TryLock.IH, auto)
next
  case (TempFile suf k)
  obtain r s1 where o: "on_machine (tempfile_in (data_folder D) ''backup_'' suf) s = (r, s1)" by force
  then show ?case
    using TempFile by (intro env_run_step [OF pstep.temp [of _ k r], where v = s1]) auto
next
  case (Release y q)
  then show ?case by (intro env_run_step [OF pstep.release]) simp_all
next
  case (DoUnit c k)
  obtain r s1 where o: "on_machine (unit_op D c) s = (r, s1)" by force
  then show ?case
    using DoUnit by (intro env_run_step [OF pstep.unit [of _ k r], where v = s1]) auto
next
  case (DoInfo c k)
  obtain r s1 where o: "on_machine (info_op D c) s = (r, s1)" by force
  then show ?case
    using DoInfo by (intro env_run_step [OF pstep.info [of _ k r], where v = s1]) auto
next
  case (DoList n t k)
  obtain r s1 where o: "on_machine (list_op D n t) s = (r, s1)" by force
  then show ?case
    using DoList by (intro env_run_step [OF pstep.list [of _ _ k r], where v = s1]) auto
next
  case (DoLatest k)
  obtain r s1 where o: "on_machine (latest_op D) s = (r, s1)" by force
  then show ?case
    using DoLatest by (intro env_run_step [OF pstep.latest [of k r], where v = s1]) auto
next
  case (DoNow k)
  obtain r s1 where o: "on_machine (now_op D) s = (r, s1)" by force
  then show ?case
    using DoNow by (intro env_run_step [OF pstep.now [of k r], where v = s1]) auto
next
  case (DoBlocking f g k)
  obtain r s1 where o: "on_machine (blocking D f g) s = (r, s1)" by force
  then show ?case
    using DoBlocking by (intro env_run_step [OF pstep.blocking [of _ _ k r], where v = s1]) auto
qed


section \<open>Nothing is left behind\<close>

text \<open>
  An operation of a port is local to the files \<open>P\<close> if it changes no other file and does not remove
  these.
\<close>

definition local_op :: "path set \<Rightarrow> ('e world, 'a) io \<Rightarrow> bool" where
  "local_op P m \<longleftrightarrow>
     only_touches P m \<and> (\<forall>w f. f \<in> P \<and> files w f \<noteq> None \<longrightarrow> files (snd (m w)) f \<noteq> None)"

fun unit_writes :: "unit_call \<Rightarrow> path set" where
  "unit_writes (Dump f) = {f}"
| "unit_writes (Download b f) = {f}"
| "unit_writes c = {}"

text \<open>
  The disk while a program owns \<open>H\<close>: outside its temporary files it is as it was (\<open>F\<close>), these were
  not there before, and the lock is held by the program or as it was (\<open>L\<close>).
\<close>

definition clean :: "(path \<rightharpoonup> bytes) \<Rightarrow> bool \<Rightarrow> resource set \<Rightarrow> 'e service_state \<Rightarrow> bool" where
  "clean F L H s \<longleftrightarrow>
     (\<forall>q. Temp q \<in> H \<longrightarrow> F q = None \<and> files (machine s) q \<noteq> None)
     \<and> (\<forall>q. Temp q \<notin> H \<longrightarrow> files (machine s) q = F q)
     \<and> (write_lock s \<longleftrightarrow> L \<or> Guard \<in> H) \<and> (Guard \<in> H \<longrightarrow> \<not> L)"

lemma clean_start: "clean (files (machine s)) (write_lock s) {} s"
  by (simp add: clean_def)

lemma clean_op:
  assumes "clean F L H s" and "local_op P m" and "Temp ` P \<subseteq> H" and "on_machine m s = (r, s')"
  shows "clean F L H s'"
proof -
  obtain w where w: "m (machine s) = (r, w)" "s' = s\<lparr>machine := w\<rparr>"
    using assms(4) by (auto simp: on_machine_def split: prod.splits)
  have out: "files w q = files (machine s) q" if "q \<notin> P" for q
    using only_touchesD [of P m q "machine s"] assms(2) that w(1) by (simp add: local_op_def)
  have keep: "files w q \<noteq> None" if "q \<in> P" "files (machine s) q \<noteq> None" for q
    using assms(2) that w(1) unfolding local_op_def by (metis snd_conv)
  have "files w q \<noteq> None" if "Temp q \<in> H" for q
    using that assms(1) out keep unfolding clean_def by metis
  moreover have "files w q = F q" if "Temp q \<notin> H" for q
    using that assms(1,3) out unfolding clean_def by (metis image_subset_iff)
  ultimately show ?thesis using assms(1) w(2) by (simp add: clean_def)
qed

lemma clean_temp:
  assumes "clean F L H s" and "on_machine (tempfile_in dir pre suf) s = (r, s')"
  shows "fresh_event H (ETemp suf r)" "clean F L (held_after H (ETemp suf r)) s'"
proof -
  obtain w where w: "tempfile_in dir pre suf (machine s) = (r, w)" "s' = s\<lparr>machine := w\<rparr>"
    using assms(2) by (auto simp: on_machine_def split: prod.splits)
  have "fresh_event H (ETemp suf r) \<and> clean F L (held_after H (ETemp suf r)) s'"
  proof (cases r)
    case (Inl e)
    then show ?thesis using assms(1) w tempfile_in_Inl by (fastforce simp: clean_def)
  next
    case (Inr f)
    then have f: "files (machine s) f = None" "files w = (files (machine s))(f \<mapsto> [])"
      using w(1) tempfile_in_Inr by blast+
    then have "Temp f \<notin> H" using assms(1) by (auto simp: clean_def)
    then show ?thesis using assms(1) f w(2) Inr by (auto simp: clean_def)
  qed
  then show "fresh_event H (ETemp suf r)" "clean F L (held_after H (ETemp suf r)) s'" by simp_all
qed

lemma clean_release: "clean F L H s \<Longrightarrow> x \<in> H \<Longrightarrow> clean F L (H - {x}) (release x s)"
  by (cases x) (auto simp: clean_def std_remove_def)

text \<open>
  What the service relies on when it hands a file to a port: a dump or a download writes its
  destination, the decompression its own, and no port touches any other local file.
\<close>

locale local_ports =
  fixes D :: "'e ports"
  assumes unit_local: "local_op (unit_writes c) (unit_op D c)"
    and info_local: "local_op {} (info_op D d)"
    and list_local: "local_op {} (list_op D n t)"
    and latest_local: "local_op {} (latest_op D)"
    and now_local: "local_op {} (now_op D)"
    and blocking_local: "local_op {g} (blocking D f g)"
begin

lemma clean_fresh: "env_step D e s s' \<Longrightarrow> clean F L H s \<Longrightarrow> fresh_event H e"
  by (cases e) (auto dest: clean_temp(1))

lemma clean_env_step:
  assumes "env_step D e s s'" and "clean F L H s" and "event_needs e \<subseteq> H"
  shows "clean F L (held_after H e) s'"
proof (cases e)
  case (ELock r)
  then show ?thesis using assms by (cases r) (auto simp: clean_def)
next
  case (ETemp suf r)
  then show ?thesis using assms clean_temp(2) by auto
next
  case (ERelease x)
  then show ?thesis using assms clean_release by auto
next
  case (EUnit c r)
  have "Temp ` unit_writes c \<subseteq> H" using assms(3) EUnit by (cases c) auto
  then show ?thesis using assms clean_op [OF _ unit_local] EUnit by auto
next
  case (EInfo c r)
  then show ?thesis using assms clean_op [OF _ info_local] by auto
next
  case (EList n t r)
  then show ?thesis using assms clean_op [OF _ list_local] by auto
next
  case (ELatest r)
  then show ?thesis using assms clean_op [OF _ latest_local] by auto
next
  case (ENow r)
  then show ?thesis using assms clean_op [OF _ now_local] by auto
next
  case (EBlocking f g r)
  then show ?thesis using assms clean_op [OF _ blocking_local] by auto
qed

lemma clean_env_run:
  "psteps p es (Ret x) \<Longrightarrow> env_run D es s s' \<Longrightarrow> owned p H Q \<Longrightarrow> clean F L H s \<Longrightarrow>
     \<exists>H'. Q x H' \<and> clean F L H' s'"
proof (induction es arbitrary: p H s)
  case (Cons e es)
  obtain q s1 where q: "pstep p e q" "psteps q es (Ret x)" "env_step D e s s1" "env_run D es s1 s'"
    using Cons.prems(1,2) by (auto simp: psteps_Cons)
  note step = owned_pstep [OF q(1) Cons.prems(3) clean_fresh [OF q(3) Cons.prems(4)]]
  show ?case
    using Cons.IH [OF q(2,4)] step clean_env_step [OF q(3) Cons.prems(4)] by blast
qed auto

lemma run_clean:
  assumes "run D p s = (x, s')" and "owned p {} Q"
  shows "\<exists>H. Q x H \<and> clean (files (machine s)) (write_lock s) H s'"
  using psteps_of_run [OF assms(1)] clean_env_run [OF _ _ assms(2) clean_start] by blast

lemma run_clean_none:
  assumes "run D p s = (x, s')" and "owned p {} (\<lambda>_ H. H = {})"
  shows "files (machine s') = files (machine s) \<and> write_lock s' = write_lock s"
  using run_clean [OF assms] by (auto simp: clean_def)

end

text \<open>
  Creating a backup and restoring leave the local disk and the lock exactly
  as they found them, on every outcome: whatever the ports answer, no temporary file survives the
  call. A failed download leaves nothing either, and a successful one exactly one new file, the one
  it returns.
\<close>

lemma no_traces_left:
  assumes "local_ports D"
  shows "(run D (create_backup D) s = (r1, s') \<longrightarrow> files (machine s') = files (machine s) \<and> write_lock s' = write_lock s)
    \<and> (run D (restore D target confirm) s = (r2, s') \<longrightarrow>
         files (machine s') = files (machine s) \<and> write_lock s' = write_lock s)
    \<and> (run D (download target) s = (r3, s') \<longrightarrow> write_lock s' = write_lock s \<and>
         (case r3 of
            Inl e \<Rightarrow> files (machine s') = files (machine s)
          | Inr (info, f) \<Rightarrow> files (machine s) f = None \<and>
              (\<exists>content. files (machine s') = (files (machine s))(f \<mapsto> content))))"
proof (intro conjI impI)
  assume run: "run D (download target) s = (r3, s')"
  obtain H where H: "case r3 of Inl e \<Rightarrow> H = {} | Inr (info, f) \<Rightarrow> H = {Temp f}"
    "clean (files (machine s)) (write_lock s) H s'"
    using local_ports.run_clean [OF assms run owned_download] by blast
  show "write_lock s' = write_lock s"
    using H by (auto simp: clean_def split: sum.splits)
  show "case r3 of Inl e \<Rightarrow> files (machine s') = files (machine s)
      | Inr (info, f) \<Rightarrow> files (machine s) f = None \<and>
          (\<exists>content. files (machine s') = (files (machine s))(f \<mapsto> content))"
  proof (cases r3)
    case (Inr p)
    obtain info f where p: "p = (info, f)" by force
    have "files (machine s) f = None" "\<exists>c. files (machine s') f = Some c"
      "\<forall>q. q \<noteq> f \<longrightarrow> files (machine s') q = files (machine s) q"
      using H Inr p by (auto simp: clean_def)
    then show ?thesis using Inr p by (auto simp: fun_eq_iff)
  qed (use H in \<open>auto simp: clean_def\<close>)
qed (auto dest: local_ports.run_clean_none [OF assms _ owned_create_backup]
    local_ports.run_clean_none [OF assms _ owned_restore])

section \<open>The scan of all backups\<close>

lemma run_call_list:
  "run D (call_list n t) s = (case list_op D n t (machine s) of (r, w) \<Rightarrow> (r, s\<lparr>machine := w\<rparr>))"
  by (auto simp: call_list_def on_machine_def split: prod.split)

text \<open>The error of a listing with too many pages.\<close>

definition too_many_pages :: error where
  "too_many_pages = Storage (''more than '' @ show_nat MAX_RETENTION_PAGES @ '' pages of backups'')"

lemma run_list_all_loop:
  assumes paged: "paged_listing (list_op D MAX_PAGE_SIZE) serves token"
  shows "serves P (machine s) \<Longrightarrow> i < length P \<Longrightarrow>
    \<exists>w. serves P w \<and> run D (list_all_loop n (if i = 0 then None else Some (token i)) acc) s =
      (if length P \<le> i + n then Inr (acc @ concat (drop i P)) else Inl too_many_pages, s\<lparr>machine := w\<rparr>)"
proof (induction n arbitrary: i s acc)
  case 0
  have "s\<lparr>machine := machine s\<rparr> = s" by (cases s) simp
  then show ?case using 0 by (intro exI [of _ "machine s"]) (simp add: too_many_pages_def)
next
  case (Suc n)
  have drop: "drop i P = P ! i # drop (Suc i) P" using Suc.prems(2) by (rule Cons_nth_drop_Suc [symmetric])
  show ?case
  proof (cases rule: paged_listing.page_cases [OF paged Suc.prems, case_names final more])
    case (final page w)
    then show ?thesis
      by (intro exI [of _ w]) (simp add: run_try run_call_list drop Let_def)
  next
    case (more page w)
    obtain w' where w': "serves P w'" "run D (list_all_loop n (Some (token (Suc i))) (acc @ P ! i)) (s\<lparr>machine := w\<rparr>) =
      (if length P \<le> Suc i + n then Inr ((acc @ P ! i) @ concat (drop (Suc i) P)) else Inl too_many_pages,
       s\<lparr>machine := w'\<rparr>)"
      using Suc.IH [of "s\<lparr>machine := w\<rparr>" "Suc i" "acc @ P ! i"] more by auto
    then show ?thesis
      using more by (intro exI [of _ w']) (simp add: run_try run_call_list drop Let_def)
  qed
qed

text \<open>
  Claim C31 (list_all_spec). On a storage that keeps the paging contract, the scan before retention
  returns the whole listing, every page in order, when it has at most a hundred pages, and fails
  otherwise: retention never works on a part of the listing.
\<close>

theorem list_all_spec:
  assumes "paged_listing (list_op D MAX_PAGE_SIZE) serves token" and "serves P (machine s)"
  shows "fst (run D list_all_backups s) =
    (if length P \<le> 100 then Inr (concat P) else Inl (Storage ''more than 100 pages of backups''))"
proof -
  have "0 < length P" using paged_listing.serves_some [OF assms] by simp
  moreover have "too_many_pages = Storage ''more than 100 pages of backups''"
    by (simp add: too_many_pages_def MAX_RETENTION_PAGES_def show_nat.simps)
  ultimately show ?thesis
    using run_list_all_loop [OF assms, of 0 100 "[]"]
    by (auto simp: list_all_backups_def MAX_RETENTION_PAGES_def)
qed

end
