(* ===== verification/Std_Parse.thy ===== *)
theory Std_Parse
  imports Text "HOL-Library.Word"
begin

text \<open>
  What the program uses of \<^verbatim>\<open>FromStr\<close> in the standard library: the integer types and
  \<^verbatim>\<open>std::net::SocketAddr\<close>, with the texts of their errors.
\<close>

section \<open>Integers\<close>

datatype int_error = Empty | InvalidDigit | PosOverflow | NegOverflow

fun display_int_error :: "int_error \<Rightarrow> string" where
  "display_int_error Empty = ''cannot parse integer from empty string''"
| "display_int_error InvalidDigit = ''invalid digit found in string''"
| "display_int_error PosOverflow = ''number too large to fit in target type''"
| "display_int_error NegOverflow = ''number too small to fit in target type''"

text \<open>
  The loop of \<^verbatim>\<open>from_str_radix\<close>: the first character that is no digit, or that carries the value out
  of the range, ends it. The value and the bound are those of the magnitude.
\<close>

fun parse_digits :: "int_error \<Rightarrow> nat \<Rightarrow> nat \<Rightarrow> string \<Rightarrow> int_error + nat" where
  "parse_digits overflow bound acc [] = Inr acc"
| "parse_digits overflow bound acc (c # cs) =
     (case digit_val c of
        None \<Rightarrow> Inl InvalidDigit
      | Some d \<Rightarrow>
          if 10 * acc + d > bound then Inl overflow
          else parse_digits overflow bound (10 * acc + d) cs)"

text \<open>An unsigned type with the largest value \<open>bound\<close>.\<close>

definition parse_unsigned :: "nat \<Rightarrow> string \<Rightarrow> int_error + nat" where
  "parse_unsigned bound s =
     (if s = [] then Inl Empty
      else if s = ''+'' \<or> s = ''-'' then Inl InvalidDigit
      else if hd s = CHR ''+'' then parse_digits PosOverflow bound 0 (tl s)
      else parse_digits PosOverflow bound 0 s)"

definition parse_u16 :: "string \<Rightarrow> int_error + 16 word" where
  "parse_u16 s = map_sum id of_nat (parse_unsigned (2 ^ 16 - 1) s)"

definition parse_u64 :: "string \<Rightarrow> int_error + nat" where
  "parse_u64 s = parse_unsigned (2 ^ 64 - 1) s"

text \<open>The program is built for targets with 64-bit pointers.\<close>

definition parse_usize :: "string \<Rightarrow> int_error + nat" where
  "parse_usize s = parse_unsigned (2 ^ 64 - 1) s"

definition parse_i64 :: "string \<Rightarrow> int_error + 64 word" where
  "parse_i64 s =
     (if s = [] then Inl Empty
      else if s = ''+'' \<or> s = ''-'' then Inl InvalidDigit
      else if hd s = CHR ''+'' then map_sum id of_nat (parse_digits PosOverflow (2 ^ 63 - 1) 0 (tl s))
      else if hd s = CHR ''-'' then map_sum id (\<lambda>n. - of_nat n) (parse_digits NegOverflow (2 ^ 63) 0 (tl s))
      else map_sum id of_nat (parse_digits PosOverflow (2 ^ 63 - 1) 0 s))"

text \<open>What a text means as a number, without any bound.\<close>

definition decimal :: "string \<Rightarrow> nat option" where
  "decimal s =
     (let t = (if s \<noteq> [] \<and> hd s = CHR ''+'' then tl s else s)
      in if t = [] then None else digits_val 0 t)"

lemma digits_val_mono: "digits_val acc s = Some n \<Longrightarrow> acc \<le> n"
proof (induction acc s rule: digits_val.induct)
  case (2 acc c cs)
  then show ?case by (fastforce split: option.splits)
qed simp

lemma parse_digits_Inr_iff:
  "acc \<le> bound \<Longrightarrow> parse_digits ov bound acc s = Inr n \<longleftrightarrow> digits_val acc s = Some n \<and> n \<le> bound"
proof (induction ov bound acc s rule: parse_digits.induct)
  case (2 ov bound acc c cs)
  then show ?case by (auto split: option.splits dest: digits_val_mono)
qed auto

lemma parse_digits_Inr: "digits_val acc s = Some n \<Longrightarrow> n \<le> bound \<Longrightarrow> parse_digits ov bound acc s = Inr n"
  using parse_digits_Inr_iff digits_val_mono le_trans by metis

lemma digit_val_minus [simp]: "digit_val (CHR ''-'') = None" "digit_val (CHR ''+'') = None"
  by (simp_all add: digit_val_def)

lemma digit_val_sign: "digits_val acc (CHR ''-'' # cs) = None" "digits_val acc (CHR ''+'' # cs) = None"
  by simp_all

lemma parse_unsigned_Inr_iff: "parse_unsigned bound s = Inr n \<longleftrightarrow> decimal s = Some n \<and> n \<le> bound"
proof (cases s)
  case (Cons c cs)
  then show ?thesis
    by (auto simp: parse_unsigned_def decimal_def parse_digits_Inr_iff digit_val_sign
        simp del: parse_digits.simps digits_val.simps)
qed (simp add: parse_unsigned_def decimal_def)

lemma decimal_show_nat [simp]: "decimal (show_nat n) = Some n"
proof -
  obtain c cs where s: "show_nat n = c # cs" using show_nat_nonempty [of n] by (cases "show_nat n") auto
  then have "is_digit c" using show_nat_digits [of c n] by simp
  then have "c \<noteq> CHR ''+''" by (auto simp: is_digit_def)
  then show ?thesis using s digits_val_show_nat [of n] by (simp add: decimal_def)
qed

lemma parse_unsigned_show [simp]: "parse_unsigned bound (show_nat n) = Inr n \<longleftrightarrow> n \<le> bound"
  by (simp add: parse_unsigned_Inr_iff)

lemma sint_neg_of_nat: "n \<le> 2 ^ 63 \<Longrightarrow> sint (- of_nat n :: 64 word) \<le> 0"
  using sint_of_int_64 [of "- int n"] by simp

lemma parse_i64_Inr:
  assumes "parse_i64 s = Inr x"
  shows "(\<exists>n. decimal s = Some n \<and> sint x = int n) \<or> (decimal s = None \<and> sint x \<le> 0)"
proof (cases s)
  case (Cons c cs)
  then show ?thesis using assms sint_neg_of_nat sint_of_nat_64
    by (auto simp: parse_i64_def decimal_def map_sum_def parse_digits_Inr_iff digit_val_sign
        simp del: parse_digits.simps digits_val.simps split: if_splits sum.splits)
qed (use assms in \<open>simp add: parse_i64_def\<close>)

lemma parse_i64_decimal:
  assumes "decimal s = Some n" and "n < 2 ^ 63"
  shows "parse_i64 s = Inr (of_nat n)"
proof (cases s)
  case (Cons c cs)
  then show ?thesis using assms
    by (auto simp: parse_i64_def decimal_def digit_val_sign parse_digits_Inr
        simp del: parse_digits.simps digits_val.simps split: if_splits)
qed (use assms in \<open>simp add: decimal_def\<close>)

section \<open>Socket addresses\<close>

text \<open>The octets of an IPv4 address, the groups of an IPv6 address with its scope, and the port.\<close>

datatype socket_addr =
    V4 "nat list" nat
  | V6 "nat list" nat nat

text \<open>
  A reader takes a prefix of its input, or fails and takes nothing (\<^verbatim>\<open>read_atomically\<close>).
\<close>

type_synonym 'a reader = "string \<Rightarrow> ('a \<times> string) option"

definition read_given_char :: "char \<Rightarrow> unit reader" where
  "read_given_char c s = (case s of x # rest \<Rightarrow> if x = c then Some ((), rest) else None | [] \<Rightarrow> None)"

definition read_then :: "'a reader \<Rightarrow> ('a \<Rightarrow> 'b reader) \<Rightarrow> 'b reader" where
  "read_then p k s = (case p s of None \<Rightarrow> None | Some (x, rest) \<Rightarrow> k x rest)"

definition radix_digit :: "nat \<Rightarrow> char \<Rightarrow> nat option" where
  "radix_digit radix c =
     (let n = of_char c;
          d = (if 48 \<le> n \<and> n \<le> 57 then Some (n - 48)
               else if 97 \<le> n \<and> n \<le> 122 then Some (n - 87)
               else if 65 \<le> n \<and> n \<le> 90 then Some (n - 55)
               else None)
      in case d of Some v \<Rightarrow> if v < radix then Some v else None | None \<Rightarrow> None)"

definition radix_value :: "nat \<Rightarrow> string \<Rightarrow> nat" where
  "radix_value radix ds = foldl (\<lambda>acc c. radix * acc + the (radix_digit radix c)) 0 ds"

text \<open>\<open>bound\<close> is the largest value of the type that is read.\<close>

definition read_number :: "nat \<Rightarrow> nat option \<Rightarrow> bool \<Rightarrow> nat \<Rightarrow> nat reader" where
  "read_number radix max_digits allow_zero_prefix bound s =
     (let ds = takeWhile (\<lambda>c. radix_digit radix c \<noteq> None) s;
          rest = dropWhile (\<lambda>c. radix_digit radix c \<noteq> None) s;
          n = radix_value radix ds
      in if ds = [] \<or> (case max_digits of Some m \<Rightarrow> length ds > m | None \<Rightarrow> False)
            \<or> (\<not> allow_zero_prefix \<and> hd ds = CHR ''0'' \<and> length ds > 1) \<or> n > bound
         then None else Some (n, rest))"

definition read_separator :: "char \<Rightarrow> bool \<Rightarrow> 'a reader \<Rightarrow> 'a reader" where
  "read_separator sep later inner =
     (if later then read_then (read_given_char sep) (\<lambda>_. inner) else inner)"

definition read_octet :: "bool \<Rightarrow> nat reader" where
  "read_octet later = read_separator (CHR ''.'') later (read_number 10 (Some 3) False 255)"

definition read_ipv4_addr :: "nat list reader" where
  "read_ipv4_addr =
     read_then (read_octet False) (\<lambda>a. read_then (read_octet True) (\<lambda>b.
     read_then (read_octet True) (\<lambda>c. read_then (read_octet True) (\<lambda>d s. Some ([a, b, c, d], s)))))"

text \<open>
  Up to \<open>n\<close> groups of an IPv6 address, whether an IPv4 address ended them, and the rest.
\<close>

fun read_groups :: "nat \<Rightarrow> bool \<Rightarrow> string \<Rightarrow> nat list \<times> bool \<times> string" where
  "read_groups 0 later s = ([], False, s)"
| "read_groups (Suc n) later s =
     (case (if n > 0 then read_separator (CHR '':'') later read_ipv4_addr s else None) of
        Some ([a, b, c, d], rest) \<Rightarrow> ([256 * a + b, 256 * c + d], True, rest)
      | _ \<Rightarrow>
          (case read_separator (CHR '':'') later (read_number 16 (Some 4) True 65535) s of
             None \<Rightarrow> ([], False, s)
           | Some (g, rest) \<Rightarrow>
               (case read_groups n True rest of (gs, v4, rest') \<Rightarrow> (g # gs, v4, rest'))))"

definition read_ipv6_addr :: "nat list reader" where
  "read_ipv6_addr s =
     (case read_groups 8 False s of
        (head, head_v4, rest) \<Rightarrow>
          if length head = 8 then Some (head, rest)
          else if head_v4 then None
          else read_then (read_given_char (CHR '':'')) (\<lambda>_. read_then (read_given_char (CHR '':'')) (\<lambda>_ s'.
                 case read_groups (7 - length head) False s' of
                   (tail_groups, _, rest') \<Rightarrow>
                     Some (head @ replicate (8 - length head - length tail_groups) 0 @ tail_groups, rest'))) rest)"

definition read_port :: "nat reader" where
  "read_port = read_then (read_given_char (CHR '':'')) (\<lambda>_. read_number 10 None True 65535)"

definition read_scope_id :: "nat reader" where
  "read_scope_id = read_then (read_given_char (CHR ''%'')) (\<lambda>_. read_number 10 None True (2 ^ 32 - 1))"

definition read_socket_addr_v4 :: "socket_addr reader" where
  "read_socket_addr_v4 = read_then read_ipv4_addr (\<lambda>ip. read_then read_port (\<lambda>p s. Some (V4 ip p, s)))"

definition read_socket_addr_v6 :: "socket_addr reader" where
  "read_socket_addr_v6 =
     read_then (read_given_char (CHR ''['')) (\<lambda>_. read_then read_ipv6_addr (\<lambda>ip s.
       let (scope_id, s') = (case read_scope_id s of Some r \<Rightarrow> r | None \<Rightarrow> (0, s))
       in read_then (read_given_char (CHR '']'')) (\<lambda>_. read_then read_port (\<lambda>p s''. Some (V6 ip scope_id p, s''))) s'))"

definition parse_socket_addr :: "string \<Rightarrow> string + socket_addr" where
  "parse_socket_addr s =
     (case (case read_socket_addr_v4 s of Some r \<Rightarrow> Some r | None \<Rightarrow> read_socket_addr_v6 s) of
        Some (a, []) \<Rightarrow> Inr a
      | _ \<Rightarrow> Inl ''invalid socket address syntax'')"

text \<open>\<^verbatim>\<open>Display\<close> of an IPv4 socket address.\<close>

definition show_v4 :: "nat \<Rightarrow> nat \<Rightarrow> nat \<Rightarrow> nat \<Rightarrow> nat \<Rightarrow> string" where
  "show_v4 a b c d p =
     show_nat a @ ''.'' @ show_nat b @ ''.'' @ show_nat c @ ''.'' @ show_nat d @ '':'' @ show_nat p"

lemma radix_digit_10 [simp]: "radix_digit 10 c = digit_val c"
  by (auto simp: radix_digit_def digit_val_def Let_def)

lemma radix_value_digits: "digits_val 0 s = Some n \<Longrightarrow> radix_value 10 s = n"
proof -
  have "foldl (\<lambda>acc c. 10 * acc + the (radix_digit 10 c)) acc s = n" if "digits_val acc s = Some n" for acc
    using that by (induction acc s rule: digits_val.induct) (auto split: option.splits)
  then show "digits_val 0 s = Some n \<Longrightarrow> radix_value 10 s = n" by (simp add: radix_value_def)
qed

lemma read_number_show:
  assumes "n \<le> bound" and "rest = [] \<or> digit_val (hd rest) = None" and "case md of None \<Rightarrow> True | Some m \<Rightarrow> 0 < m \<and> n < 10 ^ m"
  shows "read_number 10 md zp bound (show_nat n @ rest) = Some (n, rest)"
proof -
  have digits: "digit_val c \<noteq> None" if "c \<in> set (show_nat n)" for c
    using show_nat_digits [OF that] by (simp add: is_digit_def)
  have stop: "takeWhile (\<lambda>c. radix_digit 10 c \<noteq> None) rest = []" "dropWhile (\<lambda>c. radix_digit 10 c \<noteq> None) rest = rest"
    using assms(2) by (cases rest; auto)+
  have "takeWhile (\<lambda>c. radix_digit 10 c \<noteq> None) (show_nat n @ rest) = show_nat n"
    "dropWhile (\<lambda>c. radix_digit 10 c \<noteq> None) (show_nat n @ rest) = rest"
    using digits stop by (simp_all add: takeWhile_append2 dropWhile_append2)
  moreover have "radix_value 10 (show_nat n) = n" by (simp add: radix_value_digits)
  moreover have "\<not> (hd (show_nat n) = CHR ''0'' \<and> length (show_nat n) > 1)"
    by (cases "n = 0") (simp_all add: hd_show_nat show_nat.simps [of 0])
  moreover have "\<not> (case md of Some m \<Rightarrow> length (show_nat n) > m | None \<Rightarrow> False)"
    using assms(3) length_show_nat by (auto split: option.splits simp: not_less)
  ultimately show ?thesis using assms(1) by (auto simp: read_number_def Let_def)
qed

lemma parse_show_v4:
  assumes "a \<le> 255" "b \<le> 255" "c \<le> 255" "d \<le> 255" "p \<le> 65535"
  shows "parse_socket_addr (show_v4 a b c d p) = Inr (V4 [a, b, c, d] p)"
proof -
  note octet = read_number_show [of _ 255 _ "Some 3" False, simplified]
  note port = read_number_show [of p 65535 "[]" None True, simplified]
  show ?thesis
    using assms octet port
    by (simp add: parse_socket_addr_def read_socket_addr_v4_def read_ipv4_addr_def read_then_def read_octet_def
        read_separator_def read_given_char_def read_port_def show_v4_def digit_val_def)
qed

end
