(* ===== verification/Fakes.thy ===== *)
theory Fakes
  imports Service_Run Std_Parse
begin

text \<open>
  The in-memory storage and database of \<^verbatim>\<open>service.rs\<close> (\<^verbatim>\<open>FakeStorage\<close>, \<^verbatim>\<open>FakeDb\<close> and \<^verbatim>\<open>harness\<close>), on
  which the service is tested. They are concrete ports: the contracts of the other theories are
  interpreted on them, and retention is proved from end to end.

  Where the Rust code would panic (an unreadable file or page token), the model answers with the
  error \<open>panic\<close>. The gate with which a test can block a dump is left out: it only delays.
\<close>

section \<open>State\<close>

record fakes =
  fs_files :: "(backup_info \<times> bytes) list"
  fs_deleted :: "string list"
  fs_delete_calls :: nat
  fail_upload :: bool
  fail_download :: bool
  fail_list :: bool
  fail_delete :: bool
  db_content :: bytes
  db_restored :: "bytes list"
  db_healthy :: bool
  fail_dump :: bool
  fail_restore :: bool
  fake_events :: "string list"

definition panic :: error where
  "panic = Storage ''panicked''"

definition upd :: "(fakes \<Rightarrow> fakes) \<Rightarrow> fakes world \<Rightarrow> fakes world" where
  "upd g w = w\<lparr>outside := g (outside w)\<rparr>"

section \<open>Storage\<close>

definition fake_put :: "backup_info \<Rightarrow> bytes \<Rightarrow> fakes \<Rightarrow> fakes" where
  "fake_put info content f = f\<lparr>fs_files := fs_files f @ [(info, content)]\<rparr>"

definition fake_infos :: "fakes \<Rightarrow> backup_info list" where
  "fake_infos f = sort_key (\<lambda>i. Reverse (b_created_at i)) (map fst (fs_files f))"

definition fake_check :: "bool \<Rightarrow> string \<Rightarrow> unit result" where
  "fake_check flag op = (if flag then Inl (Unavailable (op @ '' failed'')) else Inr ())"

text \<open>\<^verbatim>\<open>2030-01-01T00:00:00Z\<close> plus \<open>n\<close> seconds, within that year.\<close>

definition fake_time :: "nat \<Rightarrow> datetime" where
  "fake_time n = DateTime 2030 (1 + n div 86400) 1 (n mod 86400) 0"

definition fake_upload :: "upload_request \<Rightarrow> (fakes world, backup_info result) io" where
  "fake_upload req w =
     (case fake_check (fail_upload (outside w)) ''upload'' of
        Inl e \<Rightarrow> (Inl e, w)
      | Inr _ \<Rightarrow>
          (case files w (ur_path req) of
             None \<Rightarrow> (Inl panic, w)
           | Some content \<Rightarrow>
               let n = length (fs_files (outside w));
                   info = \<lparr>b_id = ''up'' @ show_nat n, b_name = ur_name req, b_created_at = fake_time n,
                           b_size_bytes = Some (of_nat (length content)), b_md5 = None,
                           b_format = ur_format req, b_kind = ur_kind req\<rparr>
               in (Inr info, upd (\<lambda>f. fake_put info content
                     (f\<lparr>fake_events := fake_events f @ [''upload '' @ kind_as_str (ur_kind req)]\<rparr>)) w)))"

definition fake_list :: "32 word \<Rightarrow> string option \<Rightarrow> (fakes world, backup_info page result) io" where
  "fake_list page_size page_token w =
     (case fake_check (fail_list (outside w)) ''list'' of
        Inl e \<Rightarrow> (Inl e, w)
      | Inr _ \<Rightarrow>
          (case (case page_token of None \<Rightarrow> Some 0 | Some t \<Rightarrow> res_ok (parse_usize t)) of
             None \<Rightarrow> (Inl panic, w)
           | Some skip \<Rightarrow>
               let infos = fake_infos (outside w);
                   stop = min (skip + unat page_size) (length infos)
               in if skip > stop then (Inl panic, w)
                  else (Inr \<lparr>items = drop skip (take stop infos),
                             next_page_token = (if stop < length infos then Some (show_nat stop) else None)\<rparr>, w)))"

definition fake_latest :: "(fakes world, backup_info option result) io" where
  "fake_latest w = (Inr (find (\<lambda>i. b_kind i \<noteq> PreRestore) (fake_infos (outside w))), w)"

definition fake_get :: "string \<Rightarrow> (fakes world, backup_info result) io" where
  "fake_get i w = (ok_or (NotFound i) (find (\<lambda>b. b_id b = i) (fake_infos (outside w))), w)"

text \<open>\<^verbatim>\<open>std::fs::write\<close>\<close>

definition fs_write :: "path \<Rightarrow> bytes \<Rightarrow> fakes world \<Rightarrow> fakes world" where
  "fs_write p c w = w\<lparr>files := (files w)(p \<mapsto> c)\<rparr>"

definition fake_download :: "backup_info \<Rightarrow> path \<Rightarrow> (fakes world, unit result) io" where
  "fake_download b dst w =
     (case fake_check (fail_download (outside w)) ''download'' of
        Inl e \<Rightarrow> (Inl e, w)
      | Inr _ \<Rightarrow>
          (case find (\<lambda>x. b_id (fst x) = b_id b) (fs_files (outside w)) of
             None \<Rightarrow> (Inl panic, w)
           | Some x \<Rightarrow> (Inr (), fs_write dst (snd x) w)))"

definition fake_delete :: "string \<Rightarrow> (fakes world, unit result) io" where
  "fake_delete i w0 =
     (let w = upd (\<lambda>f. f\<lparr>fs_delete_calls := fs_delete_calls f + 1\<rparr>) w0
      in case fake_check (fail_delete (outside w)) ''delete'' of
           Inl e \<Rightarrow> (Inl e, w)
         | Inr _ \<Rightarrow> (Inr (), upd (\<lambda>f. f\<lparr>fs_files := filter (\<lambda>x. b_id (fst x) \<noteq> i) (fs_files f),
                                fs_deleted := fs_deleted f @ [i]\<rparr>) w))"

section \<open>Database\<close>

definition process_error :: "string \<Rightarrow> error" where
  "process_error program = Process program ''exit status: 1'' ''boom''"

definition fake_dump :: "path \<Rightarrow> (fakes world, unit result) io" where
  "fake_dump dst w =
     (if fail_dump (outside w) then (Inl (process_error ''pg_dump''), w)
      else (Inr (), fs_write dst (db_content (outside w))
              (upd (\<lambda>f. f\<lparr>fake_events := fake_events f @ [''dump'']\<rparr>) w)))"

definition fake_restore :: "path \<Rightarrow> (fakes world, unit result) io" where
  "fake_restore src w0 =
     (let w = upd (\<lambda>f. f\<lparr>fake_events := fake_events f @ [''restore'']\<rparr>) w0
      in if fail_restore (outside w) then (Inl (process_error ''pg_restore''), w)
         else (case files w src of
                 None \<Rightarrow> (Inl panic, w)
               | Some c \<Rightarrow> (Inr (), upd (\<lambda>f. f\<lparr>db_restored := db_restored f @ [c]\<rparr>) w)))"

definition fake_ping :: "(fakes world, unit result) io" where
  "fake_ping w = (if db_healthy (outside w) then Inr () else Inl (FailedPrecondition ''down''), w)"

section \<open>Harness\<close>

definition fixed_clock :: "datetime \<Rightarrow> (fakes world, datetime) io" where
  "fixed_clock t w = (t, w)"

text \<open>\<open>dir\<close> is the temporary directory; decompression runs the decoder \<open>copy_decode\<close>.\<close>

definition harness_with ::
  "(bytes \<Rightarrow> path \<Rightarrow> (fakes world, io_error + unit) io) \<Rightarrow> path \<Rightarrow> nat option \<Rightarrow> fakes ports" where
  "harness_with copy_decode dir keep =
     \<lparr>dumper_db_name = ''tracker'', restorer_db_name = ''tracker'', data_folder = dir, retention = keep,
      dump_op = fake_dump, restore_op = fake_restore, ping_op = fake_ping, upload_op = fake_upload,
      list_op = fake_list, latest_op = fake_latest, get_op = fake_get, download_op = fake_download,
      delete_op = fake_delete, now_op = fixed_clock (DateTime 2026 310 1 43200 0),
      blocking = (\<lambda>f g. map_io Inr (decompress_file copy_decode f g))\<rparr>"

definition new_fakes :: fakes where
  "new_fakes =
     \<lparr>fs_files = [], fs_deleted = [], fs_delete_calls = 0, fail_upload = False, fail_download = False,
      fail_list = False, fail_delete = False, db_content = ''current-db'', db_restored = [],
      db_healthy = True, fail_dump = False, fail_restore = False, fake_events = []\<rparr>"

definition fake_info :: "string \<Rightarrow> nat \<Rightarrow> backup_format \<Rightarrow> backup_kind \<Rightarrow> backup_info" where
  "fake_info i d fmt kind =
     \<lparr>b_id = i, b_name = i @ ''.file'', b_created_at = DateTime 2026 d 1 0 0, b_size_bytes = None,
      b_md5 = None, b_format = fmt, b_kind = kind\<rparr>"

section \<open>The fakes keep the contracts\<close>

lemma upd_files [simp]: "files (upd g w) = files w" "outside (upd g w) = g (outside w)"
  by (simp_all add: upd_def)

lemma local_opI:
  "(\<And>w q. q \<notin> P \<Longrightarrow> files (snd (m w)) q = files w q) \<Longrightarrow>
   (\<And>w f. f \<in> P \<Longrightarrow> files w f \<noteq> None \<Longrightarrow> files (snd (m w)) f \<noteq> None) \<Longrightarrow> local_op P m"
  by (auto simp: local_op_def only_touches_def)

lemma local_op_none: "(\<And>w. files (snd (m w)) = files w) \<Longrightarrow> local_op P m"
  by (rule local_opI) simp_all

lemmas fake_defs = fake_upload_def fake_list_def fake_latest_def fake_get_def fake_download_def
  fake_delete_def fake_dump_def fake_restore_def fake_ping_def fixed_clock_def fs_write_def Let_def

lemma fake_unit_local: "local_op (unit_writes c) (unit_op (harness_with decode dir keep) c)"
proof (cases c)
  case (Dump f)
  then show ?thesis
    by (auto simp: harness_with_def fake_dump_def fs_write_def intro!: local_opI split: if_splits)
next
  case (RestoreDb f)
  then show ?thesis
    by (auto simp: harness_with_def fake_defs intro!: local_op_none split: option.split)
next
  case Ping
  then show ?thesis by (auto simp: harness_with_def fake_defs intro!: local_op_none)
next
  case (Download b f)
  then show ?thesis
    by (auto simp: harness_with_def fake_defs intro!: local_opI
        split: sum.splits option.splits if_splits)
next
  case (Delete i)
  then show ?thesis
    by (auto simp: harness_with_def fake_defs intro!: local_op_none split: sum.split)
qed

lemma fake_info_local: "local_op {} (info_op (harness_with decode dir keep) c)"
  by (cases c) (auto simp: harness_with_def fake_defs intro!: local_op_none split: sum.split option.split)

text \<open>Decompression is local to its destination when the decoder is.\<close>

lemma local_op_try:
  "local_op P m \<Longrightarrow> (\<And>x. local_op P (k x)) \<Longrightarrow> local_op P (try_io m k)"
  unfolding local_op_def by (auto intro: only_touches_try_io simp: try_io_def split: prod.splits sum.splits)
    (metis snd_conv)+

lemma local_op_map [simp]: "local_op P (map_io f m) = local_op P m"
  by (simp add: local_op_def map_io_def case_prod_beta)

lemma local_op_std:
  "local_op {g} (std_open f)" "local_op {g} (std_create g)" "local_op {g} (std_write g d)" "local_op {g} (std_flush g)"
  unfolding local_op_def std_open_def std_create_def std_write_def std_flush_def with_fault_def
  by (auto simp: only_touches_def split: list.splits option.splits)

lemma decompress_local:
  assumes "\<And>c. local_op {g} (copy_decode c g)"
  shows "local_op {g} (decompress_file copy_decode f g)"
  unfolding decompress_file_def by (intro local_op_try) (simp_all add: assms local_op_std)

text \<open>A decoder for files that are stored without compression.\<close>

definition stored_decode :: "bytes \<Rightarrow> path \<Rightarrow> ('e world, io_error + unit) io" where
  "stored_decode input dst = std_write dst input"

interpretation fake: local_ports "harness_with stored_decode dir keep" for dir keep
proof
  show "local_op {g} (blocking (harness_with stored_decode dir keep) f g)" for f g
    by (simp add: harness_with_def decompress_local stored_decode_def local_op_std)
  show "local_op {} (info_op (harness_with stored_decode dir keep) d)" for d
    by (rule fake_info_local)
qed (rule fake_unit_local,
    auto simp: harness_with_def fake_defs intro!: local_op_none split: sum.split option.split)

text \<open>The listing of the fake by pages of \<open>k\<close> entries.\<close>

definition page_count :: "nat \<Rightarrow> nat \<Rightarrow> nat" where
  "page_count k n = max 1 ((n + k - 1) div k)"

definition pages_of :: "nat \<Rightarrow> 'a list \<Rightarrow> 'a list list" where
  "pages_of k xs = map (\<lambda>i. take k (drop (k * i) xs)) [0..<page_count k (length xs)]"

lemma page_count_less: "0 < k \<Longrightarrow> 0 < j \<Longrightarrow> j < page_count k n \<longleftrightarrow> k * j < n"
proof -
  assume *: "0 < k" "0 < j"
  have "j < (n + k - 1) div k \<longleftrightarrow> Suc j * k \<le> n + k - 1"
    using *(1) by (simp add: less_eq_div_iff_mult_less_eq Suc_le_eq [symmetric] del: mult_Suc)
  also have "\<dots> \<longleftrightarrow> k * j < n" using * by (auto simp: mult.commute)
  finally show "j < page_count k n \<longleftrightarrow> k * j < n" using *(2) by (auto simp: page_count_def)
qed

lemma concat_takes: "concat (map (\<lambda>i. take k (drop (k * i) xs)) [0..<m]) = take (k * m) xs"
proof (induction m)
  case (Suc m)
  have "take (k * m) xs @ take k (drop (k * m) xs) = take (k * m + k) xs" by (rule take_add [symmetric])
  then show ?case using Suc by (simp add: add.commute)
qed simp

lemma concat_pages_of: "0 < k \<Longrightarrow> concat (pages_of k xs) = xs"
proof -
  assume k: "0 < k"
  have "length xs \<le> k * page_count k (length xs)"
  proof (rule ccontr)
    assume "\<not> length xs \<le> k * page_count k (length xs)"
    moreover have "0 < page_count k (length xs)" by (simp add: page_count_def)
    ultimately show False using page_count_less [OF k, of "page_count k (length xs)" "length xs"] by simp
  qed
  then show ?thesis by (simp add: pages_of_def concat_takes)
qed

definition fake_serves :: "nat \<Rightarrow> backup_info list list \<Rightarrow> fakes world \<Rightarrow> bool" where
  "fake_serves k P w \<longleftrightarrow> 0 < k \<and> \<not> fail_list (outside w) \<and> length (fs_files (outside w)) < 2 ^ 64 \<and> P = pages_of k (fake_infos (outside w))"

lemma fake_list_page:
  assumes "fake_serves (unat n) P w" and "i < length P"
  shows "fake_list n (if i = 0 then None else Some (show_nat (unat n * i))) w =
    (Inr \<lparr>items = P ! i, next_page_token =
       (if Suc i < length P then Some (show_nat (unat n * Suc i)) else None)\<rparr>, w)"
proof -
  define k where "k = unat n"
  define xs where "xs = fake_infos (outside w)"
  have k: "0 < k" and P: "P = pages_of k xs" and ok: "\<not> fail_list (outside w)"
    using assms(1) by (simp_all add: fake_serves_def k_def xs_def)
  have i: "i < page_count k (length xs)" using assms(2) P by (simp add: pages_of_def)
  have start: "k * i \<le> length xs"
  proof (cases "i = 0")
    case False
    then show ?thesis using page_count_less [OF k, of i "length xs"] i by simp
  qed simp
  have more: "Suc i < page_count k (length xs) \<longleftrightarrow> k * i + k < length xs"
    using page_count_less [OF k, of "Suc i" "length xs"] by (simp add: add.commute)
  have token: "(case (if i = 0 then None else Some (show_nat (k * i))) of None \<Rightarrow> Some 0 | Some t \<Rightarrow> res_ok (parse_usize t))
      = Some (k * i)"
  proof -
    have "length xs < 2 ^ 64" using assms(1) by (simp add: fake_serves_def xs_def fake_infos_def)
    then have "k * i \<le> 2 ^ 64 - 1" using start by linarith
    then have "parse_usize (show_nat (k * i)) = Inr (k * i)"
      unfolding parse_usize_def parse_unsigned_show .
    then show ?thesis by simp
  qed
  have item: "P ! i = drop (k * i) (take (min (k * i + k) (length xs)) xs)"
  proof -
    have "P ! i = take k (drop (k * i) xs)" using P i by (simp add: pages_of_def)
    also have "\<dots> = drop (k * i) (take (k * i + k) xs)" by (simp add: drop_take)
    finally show ?thesis by (simp add: min_def)
  qed
  have len: "length P = page_count k (length xs)" by (simp add: P pages_of_def)
  show ?thesis
    unfolding fake_list_def k_def [symmetric] xs_def [symmetric] token
    using ok start more item len k
    by (auto simp: fake_check_def Let_def min_def algebra_simps)
qed

text \<open>Listing does not change the world \<open>v\<close>.\<close>

interpretation fls: paged_listing "fake_list n" "\<lambda>P w. fake_serves (unat n) P w \<and> w = v"
  "\<lambda>i. show_nat (unat n * i)" for n v
proof
  fix P w i
  assume *: "fake_serves (unat n) P w \<and> w = v" "i < length P"
  show "\<exists>page w'. fake_list n (if i = 0 then None else Some (show_nat (unat n * i))) w = (Inr page, w')
      \<and> (fake_serves (unat n) P w' \<and> w' = v) \<and> items page = P ! i
      \<and> continue_token page = (if Suc i < length P then Some (show_nat (unat n * Suc i)) else None)"
    using fake_list_page [of n P w i] * by (auto simp: continue_token_def)
next
  fix P w
  assume "fake_serves (unat n) P w \<and> w = v"
  then show "P \<noteq> []" by (simp add: fake_serves_def pages_of_def page_count_def)
qed

section \<open>Retention from end to end\<close>

text \<open>Deleting by id, one after the other.\<close>

lemma fake_delete_ok:
  "\<not> fail_delete (outside w) \<Longrightarrow> \<exists>w'. fake_delete i w = (Inr (), w')
     \<and> fs_files (outside w') = filter (\<lambda>x. b_id (fst x) \<noteq> i) (fs_files (outside w))
     \<and> fs_deleted (outside w') = fs_deleted (outside w) @ [i] \<and> \<not> fail_delete (outside w')"
  by (simp add: fake_delete_def fake_check_def)

lemma run_delete_each:
  "\<not> fail_delete (outside (machine s)) \<Longrightarrow>
     \<exists>s'. run (harness_with decode dir keep) (delete_each bs) s = ((), s')
       \<and> fs_files (outside (machine s')) =
           filter (\<lambda>x. b_id (fst x) \<notin> b_id ` set bs) (fs_files (outside (machine s)))
       \<and> fs_deleted (outside (machine s')) = fs_deleted (outside (machine s)) @ map b_id bs"
proof (induction bs arbitrary: s)
  case (Cons b bs)
  obtain w where w: "fake_delete (b_id b) (machine s) = (Inr (), w)"
    "fs_files (outside w) = filter (\<lambda>x. b_id (fst x) \<noteq> b_id b) (fs_files (outside (machine s)))"
    "\<not> fail_delete (outside w)" "fs_deleted (outside w) = fs_deleted (outside (machine s)) @ [b_id b]"
    using fake_delete_ok [OF Cons.prems] by blast
  obtain s' where s': "run (harness_with decode dir keep) (delete_each bs) (s\<lparr>machine := w\<rparr>) = ((), s')"
    "fs_files (outside (machine s')) = filter (\<lambda>x. b_id (fst x) \<notin> b_id ` set bs) (fs_files (outside w))"
    "fs_deleted (outside (machine s')) = fs_deleted (outside w) @ map b_id bs"
    using Cons.IH [of "s\<lparr>machine := w\<rparr>"] w(3) by auto
  have "run (harness_with decode dir keep) (delete_each (b # bs)) s = ((), s')"
    using s'(1) w(1) by (simp add: run_bind call_unit_def on_machine_def harness_with_def)
  moreover have "filter (\<lambda>x. b_id (fst x) \<notin> b_id ` set bs) (fs_files (outside w)) =
      filter (\<lambda>x. b_id (fst x) \<notin> b_id ` set (b # bs)) (fs_files (outside (machine s)))"
    unfolding w(2) filter_filter by (rule filter_cong) auto
  ultimately show ?case using s'(2,3) w(4) by auto
qed auto

lemma run_fake_list_all:
  assumes "\<not> fail_list (outside (machine s))" and "length (fs_files (outside (machine s))) \<le> 10000"
  shows "run (harness_with decode dir keep) list_all_backups s = (Inr (fake_infos (outside (machine s))), s)"
proof -
  let ?D = "harness_with decode dir keep" and ?xs = "fake_infos (outside (machine s))"
  let ?P = "pages_of 100 ?xs"
  have size: "unat MAX_PAGE_SIZE = 100" by (simp add: MAX_PAGE_SIZE_def)
  have op: "list_op ?D MAX_PAGE_SIZE = fake_list MAX_PAGE_SIZE" by (simp add: harness_with_def)
  have serves: "fake_serves (unat MAX_PAGE_SIZE) ?P (machine s) \<and> machine s = machine s"
    using assms size by (simp add: fake_serves_def)
  have len: "length ?xs \<le> 10000" using assms(2) by (simp add: fake_infos_def)
  have "\<not> 100 < page_count 100 (length ?xs)"
    using page_count_less [of 100 100 "length ?xs"] len by simp
  then have count: "length ?P \<le> 100" by (simp add: pages_of_def)
  have ne: "0 < length ?P" by (simp add: pages_of_def page_count_def)
  have same: "s\<lparr>machine := machine s\<rparr> = s" by (cases s) simp
  have flat: "concat ?P = ?xs" by (rule concat_pages_of) simp
  show ?thesis
    using run_list_all_loop [OF fls.paged_listing_axioms [of MAX_PAGE_SIZE "machine s", folded op] serves ne,
        of 100 "[]"] count same flat
    by (auto simp: list_all_backups_def MAX_RETENTION_PAGES_def)
qed

text \<open>The backup that the fake stores for a dump by the service, as the \<open>n\<close>-th file.\<close>

definition new_backup :: "nat \<Rightarrow> bytes \<Rightarrow> backup_info" where
  "new_backup n content =
     \<lparr>b_id = ''up'' @ show_nat n, b_name = backup_file_name ''tracker'' Regular (DateTime 2026 310 1 43200 0),
      b_created_at = fake_time n, b_size_bytes = Some (of_nat (length content)), b_md5 = None,
      b_format = PgCustom, b_kind = Regular\<rparr>"

text \<open>A world in which nothing fails and the temporary file can be created.\<close>

definition calm :: "path \<Rightarrow> fakes world \<Rightarrow> bool" where
  "calm dir w \<longleftrightarrow>
     is_ok (fst (tempfile_in dir ''backup_'' ''.pgdump'' w))
     \<and> \<not> fail_upload (outside w) \<and> \<not> fail_list (outside w)
     \<and> \<not> fail_delete (outside w) \<and> \<not> fail_dump (outside w)"

lemma run_dump_and_upload:
  assumes "calm dir (machine s)"
  defines "content \<equiv> db_content (outside (machine s))"
  defines "b \<equiv> new_backup (length (fs_files (outside (machine s)))) content"
  shows "\<exists>s'. run (harness_with decode dir keep) (dump_and_upload (harness_with decode dir keep) Regular) s = (Inr b, s')
    \<and> fs_files (outside (machine s')) = fs_files (outside (machine s)) @ [(b, content)]
    \<and> fs_deleted (outside (machine s')) = fs_deleted (outside (machine s))
    \<and> \<not> fail_list (outside (machine s')) \<and> \<not> fail_delete (outside (machine s'))"
proof -
  obtain p w where t: "tempfile_in dir ''backup_'' ''.pgdump'' (machine s) = (Inr p, w)"
    using assms(1) by (cases "tempfile_in dir ''backup_'' ''.pgdump'' (machine s)")
      (auto simp: calm_def is_ok_def split: sum.splits)
  then have out: "outside w = outside (machine s)" by (rule tempfile_in_Inr)
  then show ?thesis
    using assms(1) t unfolding b_def content_def
    by (simp add: calm_def dump_and_upload_def run_try run_bind scoped_def service_calls on_machine_def
        harness_with_def fake_dump_def fs_write_def fake_upload_def fake_check_def pg_dump_def fixed_clock_def
        fake_put_def new_backup_def std_remove_def Let_def)
qed

lemma run_create_backup:
  assumes "calm dir (machine s)" and "\<not> write_lock s" and "length (fs_files (outside (machine s))) < 10000"
  defines "content \<equiv> db_content (outside (machine s))"
  defines "b \<equiv> new_backup (length (fs_files (outside (machine s)))) content"
  defines "stored \<equiv> fs_files (outside (machine s)) @ [(b, content)]"
  defines "infos \<equiv> sort_key (\<lambda>i. Reverse (b_created_at i)) (map fst stored)"
  shows "\<exists>s'. run (harness_with decode dir (Some keep)) (create_backup (harness_with decode dir (Some keep))) s = (Inr b, s')
    \<and> fs_files (outside (machine s')) =
        filter (\<lambda>x. b_id (fst x) \<notin> b_id ` set (retention_candidates infos keep)) stored
    \<and> fs_deleted (outside (machine s')) = fs_deleted (outside (machine s)) @ map b_id (retention_candidates infos keep)"
proof -
  let ?D = "harness_with decode dir (Some keep)"
  let ?s = "s\<lparr>write_lock := True\<rparr>"
  obtain s1 where s1: "run ?D (dump_and_upload ?D Regular) ?s = (Inr b, s1)"
    "fs_files (outside (machine s1)) = stored"
    "\<not> fail_list (outside (machine s1))" "\<not> fail_delete (outside (machine s1))"
    "fs_deleted (outside (machine s1)) = fs_deleted (outside (machine s))"
    using run_dump_and_upload [of dir ?s decode "Some keep"] assms(1)
    unfolding stored_def b_def content_def by auto
  have len: "length (fs_files (outside (machine s1))) \<le> 10000"
    using assms(3) s1(2) by (simp add: stored_def)
  have all: "run ?D list_all_backups s1 = (Inr infos, s1)"
    using run_fake_list_all [OF s1(3) len] s1(2) by (simp add: fake_infos_def infos_def)
  obtain s2 where s2: "run ?D (delete_each (retention_candidates infos keep)) s1 = ((), s2)"
    "fs_files (outside (machine s2)) =
       filter (\<lambda>x. b_id (fst x) \<notin> b_id ` set (retention_candidates infos keep)) stored"
    "fs_deleted (outside (machine s2)) = fs_deleted (outside (machine s)) @ map b_id (retention_candidates infos keep)"
    using run_delete_each [OF s1(4)] s1(2,5) by metis
  have keep: "retention ?D = Some keep" by (simp add: harness_with_def)
  have "run ?D (create_backup ?D) s = (Inr b, s2\<lparr>write_lock := False\<rparr>)"
    using assms(2) s1(1) all s2(1)
    by (simp add: create_backup_def with_lock_def scoped_def run_bind run_try prune_old_backups_def keep)
  then show ?thesis using s2(2,3) by simp
qed

text \<open>Which backups survive, when ids are unique.\<close>

lemma retention_survivors:
  fixes keep :: nat and bs :: "backup_info list"
  assumes "distinct (map b_id bs)"
  defines "C \<equiv> retention_candidates (sort_key (\<lambda>i. Reverse (b_created_at i)) bs) keep"
  defines "after \<equiv> filter (\<lambda>b. b_id b \<notin> b_id ` set C) bs"
  shows "length (filter prunable after) = min keep (length (filter prunable bs))"
    and "\<forall>b\<in>set bs - set after. prunable b \<and> (\<forall>k\<in>set after. prunable k \<longrightarrow> b_created_at b \<le> b_created_at k)"
proof -
  have inj: "inj_on b_id (set bs)" and dist: "distinct bs" using assms(1) by (auto simp: distinct_map)
  have C: "set C \<subseteq> {b \<in> set bs. prunable b}"
    using retention_candidates_subset [of "sort_key (\<lambda>i. Reverse (b_created_at i)) bs" keep] by (simp add: C_def)
  have after: "set after = set bs - set C"
    using inj C by (auto simp: after_def dest: inj_onD)
  obtain kept where kept: "mset kept + mset C = mset (filter prunable (sort_key (\<lambda>i. Reverse (b_created_at i)) bs))"
    "length kept = min keep (length (filter prunable (sort_key (\<lambda>i. Reverse (b_created_at i)) bs)))"
    "\<forall>k\<in>set kept. \<forall>c\<in>set C. b_created_at c \<le> b_created_at k"
    using retention_split [of "sort_key (\<lambda>i. Reverse (b_created_at i)) bs" keep] unfolding C_def by blast
  have ms: "mset (filter prunable (sort_key (\<lambda>i. Reverse (b_created_at i)) bs)) = mset (filter prunable bs)"
    by (simp add: mset_filter)
  have eq: "mset (kept @ C) = mset (filter prunable bs)" using kept(1) ms by simp
  have d: "distinct (kept @ C)" using mset_eq_imp_distinct_iff [OF eq] dist by simp
  have set_eq: "set kept \<union> set C = {b \<in> set bs. prunable b}"
    using mset_eq_setD [OF eq] by auto
  have survivors: "set (filter prunable after) = set kept" using after set_eq d by auto
  have "distinct (filter prunable after)" using dist by (simp add: after_def)
  then have "length (filter prunable after) = length kept"
    using survivors d by (metis distinct_append distinct_card)
  then show "length (filter prunable after) = min keep (length (filter prunable bs))"
    using kept(2) ms by (metis size_mset)
  show "\<forall>b\<in>set bs - set after. prunable b \<and> (\<forall>k\<in>set after. prunable k \<longrightarrow> b_created_at b \<le> b_created_at k)"
    using after C kept(3) survivors by auto
qed

text \<open>
  Claim C3 (retention_end_to_end). On the in-memory storage, a backup run with retention \<open>keep\<close> stores
  the new backup and then leaves exactly \<open>keep\<close> regular \<^verbatim>\<open>pg_dump\<close> backups, or all if there are fewer.
  Every backup that is gone was such a backup and not newer than any that stayed; legacy and
  pre-restore backups are all still there, and nothing appears that was not stored.
\<close>

theorem retention_end_to_end:
  assumes "calm dir (machine s)" and "\<not> write_lock s" and "length (fs_files (outside (machine s))) < 10000"
    and "distinct (map (b_id \<circ> fst) (fs_files (outside (machine s))))"
    and "''up'' @ show_nat (length (fs_files (outside (machine s)))) \<notin> set (map (b_id \<circ> fst) (fs_files (outside (machine s))))"
  shows "\<exists>b s'. run (harness_with decode dir (Some keep)) (create_backup (harness_with decode dir (Some keep))) s = (Inr b, s')
    \<and> (let before = map fst (fs_files (outside (machine s))) @ [b]; after = map fst (fs_files (outside (machine s'))) in
        length (filter prunable after) = min keep (length (filter prunable before))
        \<and> set after \<subseteq> set before
        \<and> (\<forall>x\<in>set before - set after. prunable x \<and> (\<forall>k\<in>set after. prunable k \<longrightarrow> b_created_at x \<le> b_created_at k)))"
proof -
  define b where "b = new_backup (length (fs_files (outside (machine s)))) (db_content (outside (machine s)))"
  define bs where "bs = map fst (fs_files (outside (machine s))) @ [b]"
  define C where "C = retention_candidates (sort_key (\<lambda>i. Reverse (b_created_at i)) bs) keep"
  obtain s' where s': "run (harness_with decode dir (Some keep)) (create_backup (harness_with decode dir (Some keep))) s = (Inr b, s')"
    "fs_files (outside (machine s')) = filter (\<lambda>x. b_id (fst x) \<notin> b_id ` set C)
       (fs_files (outside (machine s)) @ [(b, db_content (outside (machine s)))])"
    using run_create_backup [OF assms(1-3), of decode keep] unfolding C_def bs_def b_def by auto
  have after: "map fst (fs_files (outside (machine s'))) = filter (\<lambda>x. b_id x \<notin> b_id ` set C) bs"
    unfolding s'(2) bs_def by (simp add: filter_map o_def)
  have "distinct (map b_id bs)"
    using assms(4,5) by (auto simp: bs_def b_def new_backup_def)
  note survivors = retention_survivors [OF this, of keep, folded C_def]
  show ?thesis
    using s'(1) survivors unfolding Let_def
    by (intro exI [of _ b] exI [of _ s']) (auto simp: after bs_def [symmetric])
qed

text \<open>Three stored backups and room for two: the oldest regular one goes.\<close>

definition demo_state :: "fakes service_state" where
  "demo_state =
     \<lparr>write_lock = False, machine =
        \<lparr>files = Map.empty, faults = [], rand_names = [''Ab12Cd''],
         outside = new_fakes\<lparr>fs_files :=
           [(fake_info ''legacy'' 1 LegacyJsonZstd Regular, ''l''), (fake_info ''old'' 2 PgCustom Regular, ''o''),
            (fake_info ''mid'' 3 PgCustom Regular, ''m'')]\<rparr>\<rparr>\<rparr>"

lemma demo_calm: "calm ''/tmp/t'' (machine demo_state)" "\<not> write_lock demo_state"
  by (simp_all add: calm_def demo_state_def new_fakes_def tempfile_in_def NUM_RETRIES_def with_fault_def Let_def)

theorem retention_end_to_end_witness:
  "calm ''/tmp/t'' (machine demo_state) \<and>
   (\<exists>b s'. run (harness_with stored_decode ''/tmp/t'' (Some 2)) (create_backup (harness_with stored_decode ''/tmp/t'' (Some 2)))
       demo_state = (Inr b, s')
     \<and> length (filter prunable (map fst (fs_files (outside (machine s'))))) = min 2 (length (filter prunable
         (map fst (fs_files (outside (machine demo_state))) @ [b]))))"
proof -
  have stored: "fs_files (outside (machine demo_state)) =
      [(fake_info ''legacy'' 1 LegacyJsonZstd Regular, ''l''), (fake_info ''old'' 2 PgCustom Regular, ''o''),
       (fake_info ''mid'' 3 PgCustom Regular, ''m'')]"
    by (simp add: demo_state_def)
  have ids: "map (b_id \<circ> fst) (fs_files (outside (machine demo_state))) = [''legacy'', ''old'', ''mid'']"
    unfolding stored by (simp add: fake_info_def)
  have small: "length (fs_files (outside (machine demo_state))) < 10000"
    "distinct (map (b_id \<circ> fst) (fs_files (outside (machine demo_state))))"
    "''up'' @ show_nat (length (fs_files (outside (machine demo_state))))
       \<notin> set (map (b_id \<circ> fst) (fs_files (outside (machine demo_state))))"
    unfolding ids by (simp_all add: stored)
  from retention_end_to_end [OF demo_calm small, of stored_decode 2] demo_calm(1)
  show ?thesis unfolding Let_def by (elim exE conjE) (intro conjI exI, assumption+)
qed

text \<open>The other contracts, witnessed on the same state.\<close>

lemma demo_no_traces:
  "local_ports (harness_with stored_decode ''/tmp/t'' (Some 2)) \<and>
   (\<exists>r s'. run (harness_with stored_decode ''/tmp/t'' (Some 2)) (create_backup (harness_with stored_decode ''/tmp/t'' (Some 2)))
       demo_state = (r, s') \<and> files (machine s') = Map.empty \<and> \<not> write_lock s')"
proof -
  have D: "local_ports (harness_with stored_decode ''/tmp/t'' (Some 2))" by (rule fake.local_ports_axioms)
  obtain r s' where run: "run (harness_with stored_decode ''/tmp/t'' (Some 2))
      (create_backup (harness_with stored_decode ''/tmp/t'' (Some 2))) demo_state = (r, s')"
    by (meson surj_pair)
  show ?thesis
    using no_traces_left [OF D, of demo_state r s'] D run by (auto simp: demo_state_def)
qed

theorem list_all_spec_witness:
  "\<exists>P. paged_listing (list_op (harness_with stored_decode ''/tmp/t'' None) MAX_PAGE_SIZE)
       (\<lambda>P w. fake_serves (unat MAX_PAGE_SIZE) P w \<and> w = machine demo_state) (\<lambda>i. show_nat (unat MAX_PAGE_SIZE * i))
     \<and> fake_serves (unat MAX_PAGE_SIZE) P (machine demo_state)
     \<and> fst (run (harness_with stored_decode ''/tmp/t'' None) list_all_backups demo_state) = Inr (concat P)"
proof -
  let ?P = "pages_of 100 (fake_infos (outside (machine demo_state)))"
  let ?D = "harness_with stored_decode ''/tmp/t'' None"
  have paged: "paged_listing (list_op ?D MAX_PAGE_SIZE)
      (\<lambda>P w. fake_serves (unat MAX_PAGE_SIZE) P w \<and> w = machine demo_state) (\<lambda>i. show_nat (unat MAX_PAGE_SIZE * i))"
    using fls.paged_listing_axioms by (simp add: harness_with_def)
  have size: "unat MAX_PAGE_SIZE = 100" by (simp add: MAX_PAGE_SIZE_def)
  have serves: "fake_serves (unat MAX_PAGE_SIZE) ?P (machine demo_state) \<and> machine demo_state = machine demo_state"
    by (simp add: fake_serves_def size) (simp add: demo_state_def new_fakes_def)
  have "length ?P \<le> 100"
    by (simp add: pages_of_def page_count_def fake_infos_def) (simp add: demo_state_def)
  then show ?thesis using list_all_spec [OF paged serves] paged serves by auto
qed

end
