(* ===== verification/Grpc.thy ===== *)
theory Grpc
  imports Stream Fakes
begin

text \<open>
  The handlers of the gRPC interface (\<^verbatim>\<open>grpc.rs\<close>): each reads its message, calls the service and
  converts the outcome. A handler is a program like the service; a download hands its file over
  to the stream of the theory \<^verbatim>\<open>Stream\<close>. What the handlers log is left out.
\<close>

section \<open>Handlers\<close>

text \<open>\<^verbatim>\<open>map_err(|e| to_status(ctxt, e))\<close> and the conversion of the result.\<close>

definition respond :: "string \<Rightarrow> ('a \<Rightarrow> 'b) \<Rightarrow> 'a result \<Rightarrow> status + 'b" where
  "respond ctxt f r = (case r of Inl e \<Rightarrow> Inl (snd (to_status ctxt e)) | Inr x \<Rightarrow> Inr (f x))"

definition grpc_create_backup :: "'a service_deps_scheme \<Rightarrow> (status + proto_info) prog" where
  "grpc_create_backup deps =
     bind_prog (create_backup deps) (\<lambda>r. Ret (respond ''Backup failed'' proto_backup_info r))"

definition list_reply_of :: "backup_info page \<Rightarrow> list_reply" where
  "list_reply_of page =
     \<lparr>lr_backups = map proto_backup_info (items page),
      lr_next_page_token = (case next_page_token page of None \<Rightarrow> [] | Some t \<Rightarrow> t)\<rparr>"

definition grpc_list_backups :: "list_request_msg \<Rightarrow> (status + list_reply) prog" where
  "grpc_list_backups req =
     (let token = (if lr_page_token req \<noteq> [] then Some (lr_page_token req) else None)
      in bind_prog (list_backups (lr_page_size req) token) (\<lambda>r. Ret (respond ''Listing failed'' list_reply_of r)))"

definition grpc_get_backup :: "proto_ref \<Rightarrow> (status + proto_info) prog" where
  "grpc_get_backup request =
     (case to_backup_target (Some request) of
        Inl status \<Rightarrow> Ret (Inl status)
      | Inr target \<Rightarrow>
          bind_prog (resolve target) (\<lambda>r. Ret (respond ''Getting backup failed'' proto_backup_info r)))"

text \<open>The header of the stream, and the file that the spawned task owns from now on.\<close>

definition grpc_download_backup :: "proto_ref \<Rightarrow> (status + proto_info \<times> path) prog" where
  "grpc_download_backup request =
     (case to_backup_target (Some request) of
        Inl status \<Rightarrow> Ret (Inl status)
      | Inr target \<Rightarrow>
          bind_prog (download target) (\<lambda>r.
            Ret (respond ''Download failed'' (\<lambda>(info, f). (proto_backup_info info, f)) r)))"

definition grpc_restore :: "'a service_deps_scheme \<Rightarrow> restore_request_msg \<Rightarrow> (status + restore_reply) prog" where
  "grpc_restore deps req =
     (case to_backup_target (rr_backup req) of
        Inl status \<Rightarrow> Ret (Inl status)
      | Inr target \<Rightarrow>
          bind_prog (restore deps target (rr_confirm_db_name req)) (\<lambda>r.
            Ret (respond ''Restore failed''
              (\<lambda>outcome. \<lparr>rr_restored = Some (proto_backup_info (restored outcome)),
                         rr_pre_restore = Some (proto_backup_info (pre_restore outcome))\<rparr>) r)))"

definition grpc_healthcheck :: "(status + bool) prog" where
  "grpc_healthcheck = bind_prog healthcheck (\<lambda>is_ok. Ret (Inr is_ok))"

text \<open>The calls of the interface and their answers, as the generated service dispatches them.\<close>

datatype rpc =
    CreateBackupRpc
  | ListBackupsRpc list_request_msg
  | GetBackupRpc proto_ref
  | DownloadBackupRpc proto_ref
  | RestoreRpc restore_request_msg
  | HealthcheckRpc

datatype rpc_reply =
    InfoReply proto_info
  | ListReply list_reply
  | StreamReply proto_info path
  | RestoreReply restore_reply
  | HealthReply bool

fun dispatch :: "'a service_deps_scheme \<Rightarrow> rpc \<Rightarrow> (status + rpc_reply) prog" where
  "dispatch deps CreateBackupRpc = bind_prog (grpc_create_backup deps) (\<lambda>r. Ret (map_sum id InfoReply r))"
| "dispatch deps (ListBackupsRpc req) = bind_prog (grpc_list_backups req) (\<lambda>r. Ret (map_sum id ListReply r))"
| "dispatch deps (GetBackupRpc b) = bind_prog (grpc_get_backup b) (\<lambda>r. Ret (map_sum id InfoReply r))"
| "dispatch deps (DownloadBackupRpc b) =
     bind_prog (grpc_download_backup b) (\<lambda>r. Ret (map_sum id (\<lambda>(h, f). StreamReply h f) r))"
| "dispatch deps (RestoreRpc req) = bind_prog (grpc_restore deps req) (\<lambda>r. Ret (map_sum id RestoreReply r))"
| "dispatch deps HealthcheckRpc = bind_prog grpc_healthcheck (\<lambda>r. Ret (map_sum id HealthReply r))"

text \<open>What an answer still owns: the file of a stream.\<close>

fun reply_owns :: "status + rpc_reply \<Rightarrow> resource set" where
  "reply_owns (Inr (StreamReply h f)) = {Temp f}"
| "reply_owns r = {}"

lemma owned_dispatch: "owned (dispatch deps req) {} (\<lambda>r H. H = reply_owns r)"
proof (cases req)
  case (DownloadBackupRpc b)
  then show ?thesis
    by (auto simp: grpc_download_backup_def respond_def intro!: owned_mono [OF owned_download]
        split: sum.splits)
next
  case (GetBackupRpc b)
  then show ?thesis
    by (auto simp: grpc_get_backup_def respond_def intro!: owned_resolve split: sum.splits)
next
  case (RestoreRpc r)
  then show ?thesis
    by (auto simp: grpc_restore_def respond_def intro!: owned_mono [OF owned_restore] split: sum.splits)
next
  case CreateBackupRpc
  then show ?thesis
    by (auto simp: grpc_create_backup_def respond_def intro!: owned_mono [OF owned_create_backup] split: sum.splits)
next
  case (ListBackupsRpc r)
  then show ?thesis
    by (auto simp: grpc_list_backups_def respond_def Let_def intro!: owned_mono [OF owned_list_backups] split: sum.splits)
next
  case HealthcheckRpc
  then show ?thesis
    by (auto simp: grpc_healthcheck_def intro!: owned_mono [OF owned_healthcheck])
qed

section \<open>Errors\<close>

lemma respond_simps [simp]:
  "respond c f (Inl e) = Inl (snd (to_status c e))" "respond c f (Inr x) = Inr (f x)"
  by (simp_all add: respond_def)

lemma respond_Inr_iff: "respond c f r = Inr y \<longleftrightarrow> (\<exists>x. r = Inr x \<and> y = f x)"
  by (cases r) auto

text \<open>
  Claim C21 (restore_request_guarded). A \<^verbatim>\<open>Restore\<close> message has an effect of any kind only when it names a
  backup, by a non-empty id or as the latest, and confirms the name of the configured database.
  Otherwise it is answered at once, with \<^verbatim>\<open>INVALID_ARGUMENT\<close> or \<^verbatim>\<open>FAILED_PRECONDITION\<close>, before the
  lock, the storage or the database is touched.
\<close>

theorem restore_request_guarded:
  "(if (\<exists>i. i \<noteq> [] \<and> rr_backup req = Some \<lparr>ref_target = Some (ProtoId i)\<rparr>)
       \<or> rr_backup req = Some \<lparr>ref_target = Some (ProtoLatest True)\<rparr>
    then if rr_confirm_db_name req = restorer_db_name deps
         then \<exists>k. grpc_restore deps req = TryLock k
         else \<exists>st. grpc_restore deps req = Ret (Inl st) \<and> st_code st = Code_FailedPrecondition
    else \<exists>st. grpc_restore deps req = Ret (Inl st) \<and> st_code st = Code_InvalidArgument)"
proof (cases "to_backup_target (rr_backup req)")
  case (Inl st)
  then have "\<not> ((\<exists>i. i \<noteq> [] \<and> rr_backup req = Some \<lparr>ref_target = Some (ProtoId i)\<rparr>)
       \<or> rr_backup req = Some \<lparr>ref_target = Some (ProtoLatest True)\<rparr>)"
    using to_backup_target_iff [of "rr_backup req" Latest] to_backup_target_iff [of "rr_backup req" "Id i" for i]
    by auto
  then show ?thesis using Inl to_backup_target_error [OF Inl] by (simp add: grpc_restore_def)
next
  case (Inr target)
  then have "(\<exists>i. i \<noteq> [] \<and> rr_backup req = Some \<lparr>ref_target = Some (ProtoId i)\<rparr>)
       \<or> rr_backup req = Some \<lparr>ref_target = Some (ProtoLatest True)\<rparr>"
    using to_backup_target_iff [of "rr_backup req" target] by (auto split: backup_target.splits)
  then show ?thesis using Inr
    by (auto simp: grpc_restore_def restore_def svc_db_name_def with_lock_def to_status_def Let_def)
qed

section \<open>Listing\<close>

text \<open>The page size that a request gets.\<close>

definition effective_size :: "32 word \<Rightarrow> 32 word" where
  "effective_size n = (if n = 0 then 20 else if 100 < n then 100 else n)"

lemma run_list_backups: "run D (list_backups n t) s = run D (call_list (effective_size n) t) s"
  by (auto simp: list_backups_def effective_size_def DEFAULT_PAGE_SIZE_def MAX_PAGE_SIZE_def Let_def min_def)

lemma reply_token: "lr_next_page_token (list_reply_of page) = (case continue_token page of None \<Rightarrow> [] | Some t \<Rightarrow> t)"
  by (auto simp: list_reply_of_def continue_token_def split: option.split)

text \<open>
  Claim C22 (list_backups_pages). A client that follows the page tokens sees the whole listing: page after
  page it gets the backups of the storage in order, converted one by one, and the token of the
  reply is empty exactly on the last page. A page has at most 100 entries, 20 when the client
  does not say.
\<close>

theorem list_backups_pages:
  assumes "paged_listing (list_op D (if n = 0 then 20 else if 100 < n then 100 else n)) serves token"
    and "serves P (machine s)" and "i < length P" and "\<forall>j>0. token j \<noteq> []"
  shows "\<exists>w. serves P w \<and>
    run D (grpc_list_backups \<lparr>lr_page_size = n, lr_page_token = (if i = 0 then [] else token i)\<rparr>) s =
      (Inr \<lparr>lr_backups = map proto_backup_info (P ! i),
            lr_next_page_token = (if Suc i < length P then token (Suc i) else [])\<rparr>, s\<lparr>machine := w\<rparr>)"
proof -
  obtain page w where page: "list_op D (effective_size n) (if i = 0 then None else Some (token i)) (machine s) = (Inr page, w)"
    "serves P w" "items page = P ! i"
    "continue_token page = (if Suc i < length P then Some (token (Suc i)) else None)"
    using paged_listing.serves_page [OF assms(1-3)] unfolding effective_size_def by blast
  have "list_reply_of page = \<lparr>lr_backups = map proto_backup_info (P ! i),
      lr_next_page_token = (if Suc i < length P then token (Suc i) else [])\<rparr>"
    using reply_token [of page] page(3,4) by (auto simp: list_reply_of_def)
  then show ?thesis using page(1,2) assms(4)
    by (intro exI [of _ w]) (auto simp: grpc_list_backups_def run_bind run_list_backups run_call_list Let_def)
qed

section \<open>Downloads\<close>

lemma run_temp_file:
  "run D (temp_file suf) s =
     (case tempfile_in (data_folder D) ''backup_'' suf (machine s) of
        (r, w) \<Rightarrow> (map_err (Io ''Could not create temporary file'') r, s\<lparr>machine := w\<rparr>))"
  by (auto simp: temp_file_def on_machine_def split: prod.split)

lemma run_scoped: "run D (scoped x m) s = (case run D m s of (r, s') \<Rightarrow> (r, release x s'))"
  by (auto simp: scoped_def run_bind split: prod.split)

lemma run_try_Inr:
  "run D (try_prog m k) s = (Inr y, s') \<longleftrightarrow>
     (\<exists>x s1. run D m s = (Inr x, s1) \<and> run D (k x) s1 = (Inr y, s'))"
  by (auto simp: run_try split: prod.splits sum.splits)

text \<open>
  What a download relies on: a successful \<^verbatim>\<open>Storage::download\<close> has written content of the backup,
  and a successful decompression what its input encodes. \<open>I\<close> is what the calls before it keep of
  the state of the storage.
\<close>

locale content_ports = local_ports +
  fixes I :: "'a \<Rightarrow> bool"
    and content_of :: "backup_info \<Rightarrow> bytes \<Rightarrow> bool"
    and decodes :: "bytes \<Rightarrow> bytes \<Rightarrow> bool"
  assumes get_keeps: "I (outside w) \<Longrightarrow> I (outside (snd (get_op D i w)))"
    and latest_keeps: "I (outside w) \<Longrightarrow> I (outside (snd (latest_op D w)))"
    and download_content: "I (outside w) \<Longrightarrow> files w f \<noteq> None \<Longrightarrow> download_op D b f w = (Inr (), w') \<Longrightarrow>
      \<exists>c. files w' f = Some c \<and> content_of b c"
    and blocking_content: "files w f = Some c \<Longrightarrow> files w g \<noteq> None \<Longrightarrow> f \<noteq> g \<Longrightarrow>
      blocking D f g w = (Inr (Inr ()), w') \<Longrightarrow> \<exists>d. files w' g = Some d \<and> decodes c d"
begin

text \<open>What the file of a download may hold.\<close>

definition served :: "backup_info \<Rightarrow> bytes \<Rightarrow> bool" where
  "served b c \<longleftrightarrow> (if b_format b = LegacyJsonZstd then \<exists>z. content_of b z \<and> decodes z c else content_of b c)"

lemma run_resolve_keeps:
  "run D (resolve target) s = (r, s') \<Longrightarrow> I (outside (machine s)) \<Longrightarrow> I (outside (machine s'))"
proof (cases target)
  case (Id i)
  then show "run D (resolve target) s = (r, s') \<Longrightarrow> I (outside (machine s)) \<Longrightarrow> I (outside (machine s'))"
    using get_keeps [of "machine s" i] by (auto simp: call_info_def on_machine_def split: prod.splits)
next
  case Latest
  then show "run D (resolve target) s = (r, s') \<Longrightarrow> I (outside (machine s)) \<Longrightarrow> I (outside (machine s'))"
    using latest_keeps [of "machine s"]
    by (auto simp: run_try run_bind on_machine_def split: prod.splits sum.splits)
qed

text \<open>The decompression of a downloaded file into a second one.\<close>

lemma run_decompress_content:
  assumes "run D (scoped (Temp f)
       (try_prog (temp_file ''.json'') (\<lambda>json.
          DoBlocking f json (\<lambda>outcome.
            case and_then (map_err (\<lambda>e. Storage (''Decompression task failed: '' @ e)) outcome) (\<lambda>r. r) of
              Inl e \<Rightarrow> Release (Temp json) (Ret (Inl e))
            | Inr _ \<Rightarrow> Ret (Inr (info, json)))))) s = (Inr (info', g), s')"
    and "files (machine s) f = Some c"
  shows "info' = info \<and> (\<exists>d. files (machine s') g = Some d \<and> decodes c d)"
proof -
  obtain w where t: "tempfile_in (data_folder D) ''backup_'' ''.json'' (machine s) = (Inr g, w)"
    and v: "\<exists>v. blocking D f g w = (Inr (Inr ()), v) \<and> s' = s\<lparr>machine := std_remove f v\<rparr> \<and> info' = info"
    using assms(1)
    by (auto simp: run_scoped run_try_Inr run_temp_file on_machine_def and_then_def map_err_def
        split: prod.splits sum.splits)
  then obtain v where v: "blocking D f g w = (Inr (Inr ()), v)" "s' = s\<lparr>machine := std_remove f v\<rparr>" "info' = info"
    by blast
  note g = tempfile_in_Inr [OF t]
  have "f \<noteq> g" using g(1) assms(2) by auto
  moreover have "files w f = Some c" "files w g \<noteq> None" using g(2) assms(2) calculation by auto
  ultimately obtain d where "files v g = Some d" "decodes c d" using blocking_content v(1) by blast
  then show ?thesis using v(2,3) \<open>f \<noteq> g\<close> by (simp add: std_remove_def)
qed

lemma run_download_content:
  assumes "run D (download target) s = (Inr (info, f), s')" and "I (outside (machine s))"
  shows "\<exists>c. files (machine s') f = Some c \<and> served info c"
proof -
  obtain b s1 p s2 where b: "run D (resolve target) s = (Inr b, s1)"
    and p: "run D (temp_file ''.download'') s1 = (Inr p, s2)"
    and rest: "run D (bind_prog (call_unit (Download b p)) (\<lambda>r.
       case r of
         Inl e \<Rightarrow> Release (Temp p) (Ret (Inl e))
       | Inr _ \<Rightarrow>
           if b_format b \<noteq> LegacyJsonZstd then Ret (Inr (b, p))
           else scoped (Temp p)
             (try_prog (temp_file ''.json'') (\<lambda>json.
              DoBlocking p json (\<lambda>outcome.
                case and_then (map_err (\<lambda>e. Storage (''Decompression task failed: '' @ e)) outcome) (\<lambda>r. r) of
                  Inl e \<Rightarrow> Release (Temp json) (Ret (Inl e))
                | Inr _ \<Rightarrow> Ret (Inr (b, json))))))) s2 = (Inr (info, f), s')"
    using assms(1) unfolding download_def run_try_Inr by blast
  have "I (outside (machine s1))" by (rule run_resolve_keeps [OF b assms(2)])
  moreover have t: "tempfile_in (data_folder D) ''backup_'' ''.download'' (machine s1) = (Inr p, machine s2)"
    using p by (auto simp: run_temp_file split: prod.splits)
  ultimately have pre: "I (outside (machine s2))" "files (machine s2) p \<noteq> None"
    using tempfile_in_Inr [OF t] by auto
  obtain w where w: "download_op D b p (machine s2) = (Inr (), w)"
    using rest by (auto simp: run_bind call_unit_def on_machine_def split: prod.splits sum.splits)
  then obtain c where c: "files w p = Some c" "content_of b c" using download_content [OF pre w] by blast
  show ?thesis
  proof (cases "b_format b = LegacyJsonZstd")
    case True
    then show ?thesis
      using rest w run_decompress_content [where s = "s2\<lparr>machine := w\<rparr>" and f = p and c = c and info = b] c
      by (auto simp: run_bind call_unit_def on_machine_def served_def)
  next
    case False
    then show ?thesis using rest w c
      by (auto simp: run_bind call_unit_def on_machine_def served_def)
  qed
qed

lemma grpc_download_content:
  assumes "run D (grpc_download_backup request) s = (Inr (header, f), s')" and "I (outside (machine s))"
  shows "\<exists>info c. header = proto_backup_info info \<and> files (machine s') f = Some c \<and> served info c"
proof -
  obtain target where t: "to_backup_target (Some request) = Inr target"
    using assms(1) by (cases "to_backup_target (Some request)") (auto simp: grpc_download_backup_def)
  then obtain info where "run D (download target) s = (Inr (info, f), s')" "header = proto_backup_info info"
    using assms(1) by (auto simp: grpc_download_backup_def run_bind respond_Inr_iff split: prod.splits)
  then show ?thesis using run_download_content [OF _ assms(2)] by blast
qed

end

text \<open>
  On ports whose storage and decompression keep their contracts, a client
  that reads the stream of \<^verbatim>\<open>DownloadBackup\<close> to its end and sees no error has received the
  description of a backup and then exactly the content of that backup, decompressed when it is a
  legacy one.
\<close>

lemma download_end_to_end:
  assumes "content_ports D I content_of decodes" and "I (outside (machine s))"
    and "run D (grpc_download_backup request) s = (Inr (header, f), s')"
    and "stream_run header (the (files (machine s') f)) ls start_stream = Some t"
    and "rx_open t" and "stage t = Ended" and "buffer t = []" and "\<forall>e. Inl e \<notin> set (received t)"
  shows "\<exists>info cs. header = proto_backup_info info
    \<and> received t = header_item header # map data_item cs
    \<and> (if b_format info = LegacyJsonZstd then \<exists>z. content_of info z \<and> decodes z (concat cs)
       else content_of info (concat cs))"
proof -
  obtain info c where info: "header = proto_backup_info info" "files (machine s') f = Some c"
    "content_ports.served content_of decodes info c"
    using content_ports.grpc_download_content [OF assms(1,3,2)] by blast
  obtain cs where "received t = header_item header # map data_item cs" "concat cs = c"
    using stream_complete [OF assms(4-8)] info(2) by auto
  then show ?thesis
    using info(1,3) unfolding content_ports.served_def [OF assms(1)] by blast
qed

section \<open>The fakes as ports with content\<close>

lemma decompress_stored:
  assumes "decompress_file stored_decode f g w = (Inr (), w')" and "files w f = Some c" and "f \<noteq> g"
  shows "files w' g = Some c"
  using assms
  by (auto simp: decompress_file_def stored_decode_def try_io_def map_io_def std_open_def std_create_def
      std_write_def std_flush_def with_fault_def split: prod.splits sum.splits list.splits option.splits)

interpretation fdl: content_ports "harness_with stored_decode dir keep" "\<lambda>f. f = f0"
  "\<lambda>b c. \<exists>x. find (\<lambda>x. b_id (fst x) = b_id b) (fs_files f0) = Some x \<and> c = snd x" "(=)" for dir keep f0
proof
  fix f g :: path and c w w'
  assume "files w f = Some c" "files w g \<noteq> None" "f \<noteq> g"
    and "blocking (harness_with stored_decode dir keep) f g w = (Inr (Inr ()), w')"
  then show "\<exists>d. files w' g = Some d \<and> c = d"
    using decompress_stored [of f g w w' c] by (auto simp: harness_with_def map_io_def split: prod.splits)
qed (auto simp: harness_with_def fake_defs fake_check_def split: option.splits if_splits)

text \<open>The stored backup \<^verbatim>\<open>mid\<close> is asked for by its id.\<close>

definition demo_ref :: proto_ref where
  "demo_ref = \<lparr>ref_target = Some (ProtoId ''mid'')\<rparr>"

lemma demo_grpc_download:
  "\<exists>s'. run (harness_with stored_decode ''/tmp/t'' None) (grpc_download_backup demo_ref) demo_state
     = (Inr (proto_backup_info (fake_info ''mid'' 3 PgCustom Regular), ''/tmp/t/backup_Ab12Cd.download''), s')
     \<and> files (machine s') ''/tmp/t/backup_Ab12Cd.download'' = Some ''m''"
proof -
  let ?D = "harness_with stored_decode ''/tmp/t'' None"
  let ?b = "fake_info ''mid'' 3 PgCustom Regular" and ?f = "''/tmp/t/backup_Ab12Cd.download''"
  have b: "run ?D (resolve (Id ''mid'')) demo_state = (Inr ?b, demo_state)"
    by (simp add: call_info_def on_machine_def harness_with_def fake_get_def fake_infos_def demo_state_def
        fake_info_def less_eq_reverse_def less_eq_datetime_def dt_key_def)
  obtain w where t: "tempfile_in ''/tmp/t'' ''backup_'' ''.download'' (machine demo_state) = (Inr ?f, w)"
    by (simp add: demo_state_def tempfile_in_def NUM_RETRIES_def with_fault_def Let_def path_join_def tmpname_def)
  then have out: "outside w = outside (machine demo_state)" by (rule tempfile_in_Inr)
  have "\<not> fail_download (outside w)" "find (\<lambda>x. b_id (fst x) = b_id ?b) (fs_files (outside w)) = Some (?b, ''m'')"
    unfolding out by (simp_all add: demo_state_def new_fakes_def fake_info_def)
  then have "fake_download ?b ?f w = (Inr (), fs_write ?f ''m'' w)"
    by (simp add: fake_download_def fake_check_def)
  moreover have "to_backup_target (Some demo_ref) = Inr (Id ''mid'')"
    by (simp add: to_backup_target_def demo_ref_def Let_def)
  ultimately show ?thesis using b t
    by (simp add: grpc_download_backup_def download_def run_bind run_try run_temp_file call_unit_def
        on_machine_def harness_with_def fake_info_def fs_write_def del: resolve.simps)
qed

lemma demo_transfer:
  "stream_run info ''m'' [Sent, Opened (Inr ()), ReadBytes (Inr 1), Receive, Sent, Receive, ReadBytes (Inr 0)] start_stream
     = Some \<lparr>stage = Ended, unread = [], buffer = [], received = [header_item info, data_item ''m''],
             rx_open = True, on_disk = False\<rparr>"
  by (simp add: start_stream_def stream_defs STREAM_BUFFER_def CHUNK_SIZE_def)

lemma demo_end_to_end:
  "\<exists>s' h f info cs x. run (harness_with stored_decode ''/tmp/t'' None) (grpc_download_backup demo_ref) demo_state
      = (Inr (h, f), s') \<and> h = proto_backup_info info
    \<and> [header_item h, data_item ''m''] = header_item h # map data_item cs
    \<and> find (\<lambda>x. b_id (fst x) = b_id info) (fs_files (outside (machine demo_state))) = Some x \<and> concat cs = snd x"
proof -
  let ?h = "proto_backup_info (fake_info ''mid'' 3 PgCustom Regular)"
  obtain s' where s': "run (harness_with stored_decode ''/tmp/t'' None) (grpc_download_backup demo_ref) demo_state
      = (Inr (?h, ''/tmp/t/backup_Ab12Cd.download''), s')"
    "files (machine s') ''/tmp/t/backup_Ab12Cd.download'' = Some ''m''"
    using demo_grpc_download by blast
  have items: "\<forall>e. Inl e \<notin> set [header_item ?h, data_item ''m'']" by (simp add: header_item_def data_item_def)
  obtain info cs where ics: "?h = proto_backup_info info"
    "[header_item ?h, data_item ''m''] = header_item ?h # map data_item cs"
    "\<exists>x. find (\<lambda>x. b_id (fst x) = b_id info) (fs_files (outside (machine demo_state))) = Some x \<and> concat cs = snd x"
    using download_end_to_end [OF fdl.content_ports_axioms HOL.refl s'(1),
        unfolded s'(2) option.sel, OF demo_transfer [of ?h]] items
    by (simp only: stream.simps simp_thms) (metis (lifting))
  then obtain x where "find (\<lambda>x. b_id (fst x) = b_id info) (fs_files (outside (machine demo_state))) = Some x"
    "concat cs = snd x" by (elim exE conjE)
  with ics(1,2) s'(1) show ?thesis
    by (intro exI [of _ s'] exI [of _ ?h] exI [of _ "''/tmp/t/backup_Ab12Cd.download''"] exI [of _ info]
        exI [of _ cs] exI [of _ x] conjI)
qed

text \<open>Three backups by pages of two: the second page is the last.\<close>

theorem list_backups_pages_witness:
  "run (harness_with stored_decode ''/tmp/t'' None)
       (grpc_list_backups \<lparr>lr_page_size = 2, lr_page_token = ''2''\<rparr>) demo_state
     = (Inr \<lparr>lr_backups = map proto_backup_info (pages_of 2 (fake_infos (outside (machine demo_state))) ! 1),
             lr_next_page_token = []\<rparr>, demo_state)"
proof -
  let ?D = "harness_with stored_decode ''/tmp/t'' None"
  let ?P = "pages_of 2 (fake_infos (outside (machine demo_state)))"
  let ?serves = "\<lambda>P w. fake_serves (unat (2 :: 32 word)) P w \<and> w = machine demo_state"
  let ?token = "\<lambda>i. show_nat (unat (2 :: 32 word) * i)"
  have paged: "paged_listing (list_op ?D (if (2 :: 32 word) = 0 then 20 else if 100 < (2 :: 32 word) then 100 else 2)) ?serves ?token"
    using fls.paged_listing_axioms [of 2 "machine demo_state"] by (simp add: harness_with_def)
  have serves: "?serves ?P (machine demo_state)"
    by (simp add: fake_serves_def) (simp add: demo_state_def new_fakes_def)
  have len: "length ?P = 2"
    by (simp add: pages_of_def page_count_def fake_infos_def) (simp add: demo_state_def)
  have tokens: "\<forall>j>0. ?token j \<noteq> []" by simp
  have "show_nat 2 = ''2''" by (simp add: show_nat.simps)
  then show ?thesis
    using list_backups_pages [OF paged serves _ tokens, of 1] len by auto
qed

end
