(* ===== verification/Drive_Retry.thy ===== *)
theory Drive_Retry
  imports Core
begin

text \<open>
  The failure handling of the crate \<^verbatim>\<open>backup-gdrive\<close>: how an error of the Drive client is
  classified (\<^verbatim>\<open>errors.rs\<close>), including the JSON access it needs, and the retry loop with its
  exponential backoff (\<^verbatim>\<open>retry.rs\<close>).
\<close>

section \<open>JSON values\<close>

text \<open>
  \<^verbatim>\<open>serde_json::Value\<close>. A float is kept by its printed form, since only its printing is observed.
\<close>

datatype number = PosInt "64 word" | NegInt "64 word" | Float string

datatype json =
    JNull
  | JBool bool
  | JNumber number
  | JString string
  | JArray "json list"
  | JObject "(string \<times> json) list"

text \<open>Indexing an immutable value gives null for anything that is not there.\<close>

definition json_get :: "json \<Rightarrow> string \<Rightarrow> json" where
  "json_get v k =
     (case v of
        JObject m \<Rightarrow> (case map_of m k of Some x \<Rightarrow> x | None \<Rightarrow> JNull)
      | _ \<Rightarrow> JNull)"

definition json_at :: "json \<Rightarrow> nat \<Rightarrow> json" where
  "json_at v i = (case v of JArray xs \<Rightarrow> if i < length xs then xs ! i else JNull | _ \<Rightarrow> JNull)"

definition json_as_u64 :: "json \<Rightarrow> 64 word option" where
  "json_as_u64 v = (case v of JNumber (PosInt n) \<Rightarrow> Some n | _ \<Rightarrow> None)"

definition json_as_str :: "json \<Rightarrow> string option" where
  "json_as_str v = (case v of JString s \<Rightarrow> Some s | _ \<Rightarrow> None)"

text \<open>\<^verbatim>\<open>Display\<close> of a value: compact JSON.\<close>

definition escape_json :: "char \<Rightarrow> string" where
  "escape_json c =
     (if byte c = 34 then [CHR 0x5C, CHR 0x22]
      else if byte c = 92 then [CHR 0x5C, CHR 0x5C]
      else if byte c = 8 then [CHR 0x5C, CHR ''b'']
      else if byte c = 9 then [CHR 0x5C, CHR ''t'']
      else if byte c = 10 then [CHR 0x5C, CHR ''n'']
      else if byte c = 12 then [CHR 0x5C, CHR ''f'']
      else if byte c = 13 then [CHR 0x5C, CHR ''r'']
      else if byte c < 32 then
        [CHR 0x5C, CHR ''u'', CHR ''0'', CHR ''0'', hex_digit (byte c div 16), hex_digit (byte c mod 16)]
      else [c])"

definition show_json_string :: "string \<Rightarrow> string" where
  "show_json_string s = [CHR 0x22] @ concat (map escape_json s) @ [CHR 0x22]"

fun show_number :: "number \<Rightarrow> string" where
  "show_number (PosInt n) = show_nat (unat n)"
| "show_number (NegInt n) = show_int (sint n)"
| "show_number (Float s) = s"

fun commas :: "string list \<Rightarrow> string" where
  "commas [] = []"
| "commas [x] = x"
| "commas (x # y # xs) = x @ '','' @ commas (y # xs)"

fun show_json :: "json \<Rightarrow> string" where
  "show_json JNull = ''null''"
| "show_json (JBool b) = (if b then ''true'' else ''false'')"
| "show_json (JNumber n) = show_number n"
| "show_json (JString s) = show_json_string s"
| "show_json (JArray xs) = ''['' @ commas (map show_json xs) @ '']''"
| "show_json (JObject m) =
     [CHR 0x7B] @ commas (map (\<lambda>kv. show_json_string (fst kv) @ '':'' @ show_json (snd kv)) m) @ [CHR 0x7D]"

section \<open>Classification of failures\<close>

text \<open>
  The errors of the Drive client, \<^verbatim>\<open>google_drive3::Error\<close>. Payloads that the sources only print are
  their printed form; the variants that the sources do not name are \<open>GdOther\<close>.
\<close>

datatype gd_error =
    GdHttpError string
  | GdIo string
  | GdMissingToken string
  | GdBadRequest json
  | GdFailure "16 word"
  | GdOther string

datatype call_error =
    Transient string
  | BadRequest string
  | Permanent error

fun into_error :: "call_error \<Rightarrow> error" where
  "into_error (Transient msg) = Unavailable msg"
| "into_error (BadRequest msg) = Storage msg"
| "into_error (Permanent err) = err"

definition RATE_LIMIT_REASONS :: "string list" where
  "RATE_LIMIT_REASONS = [''rateLimitExceeded'', ''userRateLimitExceeded'']"

definition classify_status :: "string \<Rightarrow> 16 word \<Rightarrow> string option \<Rightarrow> string \<Rightarrow> call_error" where
  "classify_status op status reason detail =
     (let msg = op @ '': HTTP '' @ show_nat (unat status) @ '': '' @ detail
      in if status = 400 then BadRequest msg
         else if status = 404 then Permanent (NotFound msg)
         else if status = 429 \<or> 500 \<le> status \<and> status \<le> 599 then Transient msg
         else if status = 403 \<and> (case reason of None \<Rightarrow> False | Some r \<Rightarrow> r \<in> set RATE_LIMIT_REASONS)
              then Transient msg
         else Permanent (Storage msg))"

definition u16_try_from :: "64 word \<Rightarrow> 16 word option" where
  "u16_try_from c = (if c \<le> 65535 then Some (ucast c) else None)"

definition classify_json :: "string \<Rightarrow> json \<Rightarrow> call_error" where
  "classify_json op body =
     (let error = json_get body ''error''
      in case Option.bind (json_as_u64 (json_get error ''code'')) u16_try_from of
           None \<Rightarrow> Permanent (Storage (op @ '': '' @ show_json body))
         | Some status \<Rightarrow>
             let reason = json_as_str (json_get (json_at (json_get error ''errors'') 0) ''reason'');
                 detail = (case json_as_str (json_get error ''message'') of None \<Rightarrow> [] | Some m \<Rightarrow> m)
             in classify_status op status reason detail)"

fun classify :: "string \<Rightarrow> gd_error \<Rightarrow> call_error" where
  "classify op (GdHttpError e) = Transient (op @ '': transport error: '' @ e)"
| "classify op (GdIo e) = Transient (op @ '': io error: '' @ e)"
| "classify op (GdMissingToken e) = Transient (op @ '': token error: '' @ e)"
| "classify op (GdBadRequest body) = classify_json op body"
| "classify op (GdFailure status) = classify_status op status None ''no details''"
| "classify op (GdOther e) = Permanent (Storage (op @ '': '' @ e))"

text \<open>
  A call under a time limit: the outcome is \<^const>\<open>None\<close> when the limit expires first.
\<close>

definition timed :: "string \<Rightarrow> duration \<Rightarrow> (gd_error + 'a) option \<Rightarrow> call_error + 'a" where
  "timed op limit outcome =
     (case outcome of
        None \<Rightarrow> Inl (Transient (op @ '' timed out after '' @ duration_debug limit))
      | Some res \<Rightarrow> map_err (classify op) res)"

section \<open>Retry\<close>

record retry_policy =
  attempts :: nat
  base_delay :: duration
  max_delay :: duration

definition default_policy :: retry_policy where
  "default_policy = \<lparr>attempts = 4, base_delay = from_millis 500, max_delay = from_secs 8\<rparr>"

text \<open>
  The loop of \<^verbatim>\<open>retry\<close>. \<open>call\<close> is one attempt, \<open>sleep\<close> what waiting does to the world. The loop
  ends because every round but the last raises \<open>attempt\<close>.
\<close>

function retry_loop ::
  "retry_policy \<Rightarrow> ('w, call_error + 'a) io \<Rightarrow> (duration \<Rightarrow> 'w \<Rightarrow> 'w) \<Rightarrow> duration \<Rightarrow> nat
    \<Rightarrow> ('w, 'a result) io" where
  "retry_loop policy call sleep delay attempt w =
     (case call w of
        (Inr value, w') \<Rightarrow> (Inr value, w')
      | (Inl (Transient msg), w') \<Rightarrow>
          if attempt \<ge> attempts policy then (Inl (into_error (Transient msg)), w')
          else retry_loop policy call sleep (min (delay * 2) (max_delay policy)) (attempt + 1) (sleep delay w')
      | (Inl err, w') \<Rightarrow> (Inl (into_error err), w'))"
  by pat_completeness auto
termination
  by (relation "measure (\<lambda>(policy, call, sleep, delay, attempt, w). attempts policy - attempt)") auto

declare retry_loop.simps [simp del]

definition retry ::
  "retry_policy \<Rightarrow> (duration \<Rightarrow> 'w \<Rightarrow> 'w) \<Rightarrow> ('w, call_error + 'a) io \<Rightarrow> ('w, 'a result) io" where
  "retry policy sleep call = retry_loop policy call sleep (base_delay policy) 1"

section \<open>Properties of the classification\<close>

definition is_transient :: "call_error + 'a \<Rightarrow> bool" where
  "is_transient r = (case r of Inl (Transient _) \<Rightarrow> True | _ \<Rightarrow> False)"

lemma is_transient_iff: "is_transient r \<longleftrightarrow> (\<exists>m. r = Inl (Transient m))"
  by (auto simp: is_transient_def split: sum.splits call_error.splits)

lemma classify_status_cases:
  "classify_status op status reason detail = Transient m \<Longrightarrow>
     status = 429 \<or> (500 \<le> status \<and> status \<le> 599) \<or> status = 403"
  by (auto simp: classify_status_def Let_def split: if_splits)

text \<open>
  Over all HTTP codes: exactly 400 is a bad request, exactly 404
  is \<open>NotFound\<close>, exactly 429, the 5xx range and rate-limited 403 are worth a retry, and everything
  else is a permanent storage error. A retried failure that never recovers surfaces as
  \<open>Unavailable\<close>, a bad request as \<open>Storage\<close>.
\<close>

lemma status_classification:
  fixes op detail :: string and status :: "16 word" and reason :: "string option"
  defines "c \<equiv> classify_status op status reason detail"
  shows "(case c of
      BadRequest m \<Rightarrow> status = 400 \<and> into_error c = Storage m
    | Transient m \<Rightarrow> (status = 429 \<or> 500 \<le> unat status \<and> unat status < 600
        \<or> status = 403 \<and> reason \<in> Some ` set RATE_LIMIT_REASONS) \<and> into_error c = Unavailable m
    | Permanent e \<Rightarrow> into_error c = e \<and>
        (if status = 404 then \<exists>m. e = NotFound m
         else (\<exists>m. e = Storage m) \<and> status \<noteq> 400 \<and> status \<noteq> 429
              \<and> \<not> (500 \<le> unat status \<and> unat status < 600)
              \<and> (status = 403 \<longrightarrow> reason \<notin> Some ` set RATE_LIMIT_REASONS)))"
proof -
  have r: "(case reason of None \<Rightarrow> False | Some x \<Rightarrow> x \<in> S) \<longleftrightarrow> reason \<in> Some ` S" for S
    by (cases reason) auto
  have w: "500 \<le> status \<and> status \<le> 599 \<longleftrightarrow> 500 \<le> unat status \<and> unat status < 600"
    by (auto simp: word_le_nat_alt)
  show ?thesis
    unfolding c_def classify_status_def Let_def r w by (auto simp: RATE_LIMIT_REASONS_def)
qed

section \<open>Properties of the retry loop\<close>

text \<open>The closed form of the backoff, and the worlds before the calls.\<close>

definition backoff :: "retry_policy \<Rightarrow> nat \<Rightarrow> duration" where
  "backoff p k = (if k = 0 then base_delay p else min (base_delay p * 2 ^ k) (max_delay p))"

fun nth_world ::
  "retry_policy \<Rightarrow> (duration \<Rightarrow> 'w \<Rightarrow> 'w) \<Rightarrow> ('w, call_error + 'a) io \<Rightarrow> 'w \<Rightarrow> nat \<Rightarrow> 'w" where
  "nth_world p sleep call w 0 = w"
| "nth_world p sleep call w (Suc k) = sleep (backoff p k) (snd (call (nth_world p sleep call w k)))"

lemma backoff_Suc: "min (backoff p k * 2) (max_delay p) = backoff p (Suc k)"
  by (auto simp: backoff_def min_def)

text \<open>The state of the loop after \<open>k\<close> transient failures.\<close>

lemma retry_loop_after:
  assumes "\<forall>j<k. is_transient (fst (call (nth_world p sleep call w j)))" and "k < max 1 (attempts p)"
  shows "retry p sleep call w =
    retry_loop p call sleep (backoff p k) (Suc k) (nth_world p sleep call w k)"
  using assms
proof (induction k)
  case 0
  then show ?case by (simp add: retry_def backoff_def)
next
  case (Suc k)
  let ?w = "nth_world p sleep call w k"
  obtain m w' where c: "call ?w = (Inl (Transient m), w')"
    using Suc.prems(1) by (cases "call ?w") (fastforce simp: is_transient_iff)
  have "retry p sleep call w = retry_loop p call sleep (backoff p k) (Suc k) ?w"
    using Suc by simp
  also have "\<dots> = retry_loop p call sleep (backoff p (Suc k)) (Suc (Suc k)) (sleep (backoff p k) w')"
    using c Suc.prems(2) by (subst retry_loop.simps) (simp add: backoff_Suc max_def split: if_splits)
  finally show ?case using c by simp
qed

lemma retry_stops:
  assumes "\<forall>j<k. is_transient (fst (call (nth_world p sleep call w j)))" and "k < max 1 (attempts p)"
    and "\<not> is_transient (fst (call (nth_world p sleep call w k)))"
  shows "retry p sleep call w =
    (map_err into_error (fst (call (nth_world p sleep call w k))), snd (call (nth_world p sleep call w k)))"
  using assms(3) unfolding retry_loop_after [OF assms(1,2)]
  by (subst retry_loop.simps)
    (auto simp: is_transient_def split: prod.splits sum.splits call_error.splits)

lemma retry_exhausted:
  assumes "\<forall>j<max 1 (attempts p). is_transient (fst (call (nth_world p sleep call w j)))"
  defines "final \<equiv> call (nth_world p sleep call w (max 1 (attempts p) - 1))"
  shows "retry p sleep call w = (map_err into_error (fst final), snd final)"
proof -
  have "is_transient (fst final)" using assms(1) unfolding final_def by simp
  moreover have "retry p sleep call w = retry_loop p call sleep (backoff p (max 1 (attempts p) - 1))
      (Suc (max 1 (attempts p) - 1)) (nth_world p sleep call w (max 1 (attempts p) - 1))"
    by (rule retry_loop_after) (use assms(1) in auto)
  ultimately show ?thesis
    by (subst (asm) retry_loop.simps)
      (auto simp: final_def is_transient_def split: prod.splits sum.splits call_error.splits)
qed

text \<open>
  The invariant rule of the loop: the result of a retried call is the translated result of one
  attempt, made in a world that satisfies every invariant of the attempts and of the waiting.
\<close>

lemma retry_loop_last:
  assumes "retry_loop p call sleep delay k w = (r, w')" and "I w"
    and "\<And>v. I v \<Longrightarrow> I (snd (call v))" and "\<And>d v. I v \<Longrightarrow> I (sleep d v)"
  shows "\<exists>v c. I v \<and> call v = (c, w') \<and> r = map_err into_error c"
  using assms
proof (induction p call sleep delay k w rule: retry_loop.induct)
  case (1 p call sleep delay k w)
  obtain c v where cv: "call w = (c, v)" by (cases "call w")
  have I: "I (sleep delay v)" using "1.prems"(2-4) cv by (metis snd_conv)
  show ?case
  proof (cases "is_transient c \<and> k < attempts p")
    case True
    then obtain m where "c = Inl (Transient m)" by (auto simp: is_transient_iff)
    moreover have "retry_loop p call sleep (min (delay * 2) (max_delay p)) (k + 1) (sleep delay v) = (r, w')"
      using "1.prems"(1) True cv \<open>c = Inl (Transient m)\<close> by (subst (asm) retry_loop.simps) simp
    ultimately show ?thesis using "1.IH" cv I "1.prems"(3,4) True by simp
  next
    case False
    then have "r = map_err into_error c \<and> w' = v" using "1.prems"(1) cv
      by (subst (asm) retry_loop.simps)
        (auto simp: is_transient_def split: sum.splits call_error.splits)
    then show ?thesis using cv "1.prems"(2) by blast
  qed
qed

lemma retry_last:
  assumes "retry p sleep call w = (r, w')" and "I w"
    and "\<And>v. I v \<Longrightarrow> I (snd (call v))" and "\<And>d v. I v \<Longrightarrow> I (sleep d v)"
  shows "\<exists>v c. I v \<and> call v = (c, w') \<and> r = map_err into_error c"
  using retry_loop_last [OF assms(1) [unfolded retry_def]] assms(2-4) by blast

lemma retry_first: "call w = (Inr x, w') \<Longrightarrow> retry p sleep call w = (Inr x, w')"
  by (simp add: retry_def retry_loop.simps)

text \<open>
  Claim C20 (retry_spec). A retried call is made at most \<open>max 1 attempts\<close> times. It returns what the
  first attempt that is not a transient failure returns, an error translated, and otherwise
  \<open>Unavailable\<close> with the message of the last attempt. Between attempt \<open>k\<close> and the next one it
  sleeps \<open>backoff k\<close>: the base delay doubled each time and capped by the maximal delay; it never
  sleeps after the last attempt. The sequence of worlds \<^const>\<open>nth_world\<close> records exactly these
  calls and sleeps.
\<close>

theorem retry_spec:
  fixes w :: 'w and call :: "('w, call_error + 'a) io" and p :: retry_policy
    and sleep :: "duration \<Rightarrow> 'w \<Rightarrow> 'w"
  defines "W \<equiv> nth_world p sleep call w" and "n \<equiv> max 1 (attempts p)"
  shows "(\<exists>k<n. (\<forall>j<k. is_transient (fst (call (W j)))) \<and> \<not> is_transient (fst (call (W k)))
            \<and> retry p sleep call w = (map_err into_error (fst (call (W k))), snd (call (W k))))
    \<or> ((\<forall>j<n. is_transient (fst (call (W j))))
        \<and> (\<exists>m. fst (call (W (n - 1))) = Inl (Transient m)
             \<and> retry p sleep call w = (Inl (Unavailable m), snd (call (W (n - 1))))))"
proof (cases "\<forall>j<n. is_transient (fst (call (W j)))")
  case True
  then have "is_transient (fst (call (W (n - 1))))" by (simp add: n_def)
  then obtain m where m: "fst (call (W (n - 1))) = Inl (Transient m)"
    by (auto simp: is_transient_def split: sum.splits call_error.splits)
  then show ?thesis
    using True retry_exhausted [of p call sleep w] by (simp add: W_def n_def)
next
  case False
  define k where "k = (LEAST j. j < n \<and> \<not> is_transient (fst (call (W j))))"
  have k: "k < n" "\<not> is_transient (fst (call (W k)))"
    using False LeastI_ex [of "\<lambda>j. j < n \<and> \<not> is_transient (fst (call (W j)))"] by (auto simp: k_def)
  have less: "\<forall>j<k. is_transient (fst (call (W j)))"
    using k not_less_Least [of _ "\<lambda>j. j < n \<and> \<not> is_transient (fst (call (W j)))"]
    by (auto simp: k_def [symmetric])
  show ?thesis
    using k less retry_stops [of k call p sleep w] unfolding W_def n_def by blast
qed

definition demo_policy :: retry_policy where
  "demo_policy = \<lparr>attempts = 3, base_delay = 3, max_delay = 5\<rparr>"

text \<open>A call that fails twice; its world counts the calls and records the sleeps.\<close>

definition flaky_call :: "(nat \<times> duration list, call_error + string) io" where
  "flaky_call w = (if fst w < 2 then Inl (Transient ''flaky'') else Inr ''done'', (fst w + 1, snd w))"

definition log_sleep :: "duration \<Rightarrow> nat \<times> duration list \<Rightarrow> nat \<times> duration list" where
  "log_sleep d w = (fst w, snd w @ [d])"

theorem retry_spec_witness:
  "retry demo_policy log_sleep flaky_call (0, []) = (Inr ''done'', 3, [3, 5])
   \<and> (\<exists>k<3. \<not> is_transient (fst (flaky_call (nth_world demo_policy log_sleep flaky_call (0, []) k))))"
proof -
  have run: "retry demo_policy log_sleep flaky_call (0, []) = (Inr ''done'', 3, [3, 5])"
    by (simp add: retry_def retry_loop.simps demo_policy_def flaky_call_def log_sleep_def)
  show ?thesis
    using run retry_spec [where p = demo_policy and sleep = log_sleep and call = flaky_call and w = "(0, [])"]
    by (auto simp: demo_policy_def)
qed

end
