(* ===== verification/Drive_Map.thy ===== *)
theory Drive_Map
  imports Core
begin

text \<open>
  The data side of the crate \<^verbatim>\<open>backup-gdrive\<close>: the Drive search queries with their escaping
  (\<^verbatim>\<open>query.rs\<close>) and the translation between Drive files and backups (\<^verbatim>\<open>mapping.rs\<close>).
\<close>

section \<open>Queries\<close>

definition FILE_FIELDS :: string where
  "FILE_FIELDS = ''id,name,createdTime,size,md5Checksum,appProperties,parents,trashed''"

definition NEWEST_FIRST :: string where "NEWEST_FIRST = ''createdTime desc''"
definition PROP_FORMAT :: string where "PROP_FORMAT = ''format''"
definition PROP_KIND :: string where "PROP_KIND = ''kind''"
definition PROP_DB_NAME :: string where "PROP_DB_NAME = ''db_name''"
definition FOLDER_MIME :: string where "FOLDER_MIME = ''application/vnd.google-apps.folder''"

lemmas [fb_const] = FILE_FIELDS_def NEWEST_FIRST_def PROP_FORMAT_def PROP_KIND_def PROP_DB_NAME_def
  FOLDER_MIME_def

definition list_fields :: string where
  "list_fields = ''nextPageToken,files('' @ FILE_FIELDS @ '')''"

text \<open>\<^verbatim>\<open>str::replace\<close> of one character.\<close>

definition replace_char :: "char \<Rightarrow> string \<Rightarrow> string \<Rightarrow> string" where
  "replace_char c r s = concat (map (\<lambda>x. if x = c then r else [x]) s)"

definition escape :: "string \<Rightarrow> string" where
  "escape value =
     replace_char (CHR 0x27) [CHR 0x5C, CHR 0x27] (replace_char (CHR 0x5C) [CHR 0x5C, CHR 0x5C] value)"

definition folder_query :: "string \<Rightarrow> string" where
  "folder_query folder_id =
     [CHR 0x27] @ escape folder_id @ [CHR 0x27] @ '' in parents and trashed = false and mimeType != ''
     @ quoted FOLDER_MIME"

definition latest_query :: "string \<Rightarrow> string" where
  "latest_query folder_id =
     folder_query folder_id @ '' and not appProperties has '' @ [CHR 0x7B] @ '' key='' @ quoted PROP_KIND
     @ '' and value='' @ quoted (kind_as_str PreRestore) @ '' '' @ [CHR 0x7D]"

section \<open>Files\<close>

text \<open>The fields of \<^verbatim>\<open>google_drive3::api::File\<close> that the sources read or write.\<close>

record gfile =
  f_id :: "string option"
  f_name :: "string option"
  f_created_time :: "datetime option"
  f_size :: "64 word option"
  f_md5_checksum :: "string option"
  f_app_properties :: "(string \<rightharpoonup> string) option"
  f_parents :: "string list option"
  f_trashed :: "bool option"
  f_mime_type :: "string option"

definition default_file :: gfile where
  "default_file =
     \<lparr>f_id = None, f_name = None, f_created_time = None, f_size = None, f_md5_checksum = None,
      f_app_properties = None, f_parents = None, f_trashed = None, f_mime_type = None\<rparr>"

definition required :: "'a option \<Rightarrow> string \<Rightarrow> 'a result" where
  "required value field = ok_or (Storage (''Drive file has no '' @ quoted field)) value"

text \<open>\<^verbatim>\<open>u64::try_from\<close> on an \<^verbatim>\<open>i64\<close>.\<close>

definition u64_try_from :: "64 word \<Rightarrow> 64 word option" where
  "u64_try_from s = (if 0 \<le> sint s then Some s else None)"

definition to_backup_info :: "gfile \<Rightarrow> backup_info result" where
  "to_backup_info file =
     and_then (required (f_id file) ''id'') (\<lambda>i.
     and_then (required (f_name file) ''name'') (\<lambda>name.
     and_then (required (f_created_time file) ''createdTime'') (\<lambda>created_at.
     let props = (case f_app_properties file of None \<Rightarrow> Map.empty | Some m \<Rightarrow> m) in
     and_then (detect_format name (props PROP_FORMAT)) (\<lambda>format.
     let size_bytes = Option.bind (f_size file) u64_try_from in
     and_then (kind_parse (props PROP_KIND)) (\<lambda>kind.
     Inr \<lparr>b_id = i, b_name = name, b_created_at = created_at, b_size_bytes = size_bytes,
          b_md5 = f_md5_checksum file, b_format = format, b_kind = kind\<rparr>)))))"

definition is_in_folder :: "gfile \<Rightarrow> string \<Rightarrow> bool" where
  "is_in_folder file folder_id \<longleftrightarrow>
     f_trashed file \<noteq> Some True
     \<and> (case f_parents file of None \<Rightarrow> False | Some p \<Rightarrow> folder_id \<in> set p)"

definition APPLICATION_OCTET_STREAM :: string where
  "APPLICATION_OCTET_STREAM = ''application/octet-stream''"

definition upload_metadata :: "upload_request \<Rightarrow> string \<Rightarrow> gfile" where
  "upload_metadata req folder_id =
     default_file
       \<lparr>f_name := Some (ur_name req), f_parents := Some [folder_id],
        f_mime_type := Some APPLICATION_OCTET_STREAM,
        f_app_properties := Some [PROP_FORMAT \<mapsto> format_as_str (ur_format req),
          PROP_KIND \<mapsto> kind_as_str (ur_kind req), PROP_DB_NAME \<mapsto> ur_db_name req]\<rparr>"

section \<open>Properties of the queries\<close>

text \<open>
  How Drive reads a single-quoted literal, after its opening quote: a backslash makes the next
  character ordinary, a bare quote ends the literal. The result is the value and what follows.
\<close>

fun scan_literal :: "string \<Rightarrow> (string \<times> string) option" where
  "scan_literal [] = None"
| "scan_literal (c # s) =
     (if c = CHR 0x27 then Some ([], s)
      else if c = CHR 0x5C then
        (case s of [] \<Rightarrow> None | d # s' \<Rightarrow> map_option (\<lambda>(v, r). (d # v, r)) (scan_literal s'))
      else map_option (\<lambda>(v, r). (c # v, r)) (scan_literal s))"

lemma replace_char_simps [simp]:
  "replace_char c r [] = []"
  "replace_char c r (x # s) = (if x = c then r else [x]) @ replace_char c r s"
  by (simp_all add: replace_char_def)

lemma replace_char_append [simp]: "replace_char c r (s @ t) = replace_char c r s @ replace_char c r t"
  by (simp add: replace_char_def)

lemma escape_Nil [simp]: "escape [] = []"
  by (simp add: escape_def)

lemma escape_Cons:
  "escape (c # s) = (if c = CHR 0x27 \<or> c = CHR 0x5C then [CHR 0x5C, c] else [c]) @ escape s"
  by (simp add: escape_def)

lemma scan_escape: "scan_literal (escape v @ [CHR 0x27] @ rest) = Some (v, rest)"
  by (induction v) (simp_all add: escape_Cons)

text \<open>
  Claim C32 (folder_query_no_injection). Whatever the configured folder id is, Drive reads the
  literal of the folder query back as exactly that id, and the rest of the query is the fixed
  condition: no quote or backslash of the id can end the literal or add a condition. The query
  of the latest backup is the same one with one more fixed condition.
\<close>

theorem folder_query_no_injection:
  "\<exists>q. folder_query folder_id = CHR 0x27 # q
    \<and> scan_literal q = Some (folder_id,
        '' in parents and trashed = false and mimeType != '' @ quoted FOLDER_MIME)
    \<and> (\<exists>q'. latest_query folder_id = CHR 0x27 # q'
        \<and> scan_literal q' = Some (folder_id,
            '' in parents and trashed = false and mimeType != '' @ quoted FOLDER_MIME
            @ '' and not appProperties has '' @ [CHR 0x7B] @ '' key='' @ quoted ''kind''
            @ '' and value='' @ quoted ''pre_restore'' @ '' '' @ [CHR 0x7D]))"
  unfolding folder_query_def latest_query_def
  using scan_escape [of folder_id] by (simp add: PROP_KIND_def)

section \<open>Properties of the mapping\<close>

lemma to_backup_info_Inr:
  assumes "to_backup_info file = Inr b"
  shows "f_id file = Some (b_id b)" "f_name file = Some (b_name b)"
    "f_created_time file = Some (b_created_at b)" "f_md5_checksum file = b_md5 b"
  using assms by (auto simp: to_backup_info_def and_then_Inr_iff required_def Let_def)

text \<open>
  Claim C34 (upload_roundtrip). The metadata sent with an upload survives the way through Drive:
  once the server has added an id, a creation time, a size and a checksum, the file is read
  back as a backup with the name, format and kind of the request, and it is found in the
  folder. A negative size is dropped instead of wrapping around.
\<close>

theorem upload_roundtrip:
  "let stored = (upload_metadata req folder_id)\<lparr>f_id := Some i, f_created_time := Some t,
       f_size := Some sz, f_md5_checksum := md5\<rparr> in
   to_backup_info stored =
     Inr \<lparr>b_id = i, b_name = ur_name req, b_created_at = t,
          b_size_bytes = (if 0 \<le> sint sz then Some sz else None), b_md5 = md5,
          b_format = ur_format req, b_kind = ur_kind req\<rparr>
   \<and> is_in_folder stored folder_id"
  by (simp add: upload_metadata_def to_backup_info_def default_file_def required_def detect_format_def
      fmt.parse_as_str u64_try_from_def is_in_folder_def fb_const Let_def)

end
