(* ===== verification/Drive_Storage.thy ===== *)
theory Drive_Storage
  imports Drive_Retry Drive_Map Paging
begin

text \<open>
  \<^verbatim>\<open>GoogleDriveStorage\<close> (\<^verbatim>\<open>storage.rs\<close>): the implementation of the port \<^verbatim>\<open>Storage\<close> on one Drive
  folder. The Drive API client is the record \<open>drive_hub\<close> of the calls the code makes; a call gives
  \<^const>\<open>None\<close> when its time limit expires first. \<open>md5_hex\<close> stands for
  \<^verbatim>\<open>hex::encode(Md5::digest(data))\<close>.
\<close>

section \<open>The client\<close>

text \<open>The parameters of \<^verbatim>\<open>files().list()\<close>, and the parts of its answer that are read.\<close>

record list_call =
  lc_q :: string
  lc_order_by :: string
  lc_page_size :: "32 word"
  lc_fields :: string
  lc_page_token :: "string option"

record file_list =
  fl_files :: "gfile list option"
  fl_next_page_token :: "string option"

text \<open>
  What awaiting the next frame of a response body gives: nothing within the limit, a broken
  connection, data, or trailers. The end of the list is the end of the body.
\<close>

datatype frame = Elapsed | Broken string | Data bytes | Trailers

record 'e drive_hub =
  hub_list :: "duration \<Rightarrow> list_call \<Rightarrow> ('e world, (gd_error + file_list) option) io"
  hub_get :: "duration \<Rightarrow> string \<Rightarrow> string \<Rightarrow> ('e world, (gd_error + gfile) option) io"
  hub_media :: "duration \<Rightarrow> string \<Rightarrow> ('e world, (gd_error + frame list) option) io"
  hub_create :: "duration \<Rightarrow> gfile \<Rightarrow> string \<Rightarrow> bytes \<Rightarrow> ('e world, (gd_error + gfile) option) io"
  hub_delete :: "duration \<Rightarrow> string \<Rightarrow> ('e world, (gd_error + unit) option) io"
  hub_sleep :: "duration \<Rightarrow> 'e world \<Rightarrow> 'e world"

definition LATEST_PAGE_SIZE :: "32 word" where "LATEST_PAGE_SIZE = 10"
definition LATEST_MAX_PAGES :: nat where "LATEST_MAX_PAGES = 10"

record drive_options =
  request_timeout :: duration
  upload_timeout :: duration
  read_idle_timeout :: duration
  opt_retry :: retry_policy

definition default_options :: drive_options where
  "default_options =
     \<lparr>request_timeout = from_secs 60, upload_timeout = from_secs (30 * 60),
      read_idle_timeout = from_secs 60, opt_retry = default_policy\<rparr>"

record 'e gdrive =
  hub :: "'e drive_hub"
  folder_id :: string
  opts :: drive_options

section \<open>Single attempts\<close>

definition i32_try_from :: "32 word \<Rightarrow> 32 word option" where
  "i32_try_from n = (if unat n < 2 ^ 31 then Some n else None)"

definition I32_MAX :: "32 word" where "I32_MAX = 2 ^ 31 - 1"

text \<open>The backups among the files of a page; other files are skipped.\<close>

definition backups_of :: "gfile list \<Rightarrow> backup_info list" where
  "backups_of fs = List.map_filter (\<lambda>file. res_ok (to_backup_info file)) fs"

definition list_request :: "string \<Rightarrow> 32 word \<Rightarrow> string option \<Rightarrow> list_call" where
  "list_request query page_size page_token =
     \<lparr>lc_q = query, lc_order_by = NEWEST_FIRST,
      lc_page_size = (case i32_try_from page_size of Some n \<Rightarrow> n | None \<Rightarrow> I32_MAX),
      lc_fields = list_fields, lc_page_token = page_token\<rparr>"

definition list_once ::
  "'e gdrive \<Rightarrow> string \<Rightarrow> 32 word \<Rightarrow> string option \<Rightarrow> ('e world, call_error + backup_info page) io" where
  "list_once self query page_size page_token =
     (let limit = request_timeout (opts self)
      in map_io (\<lambda>outcome. and_then (timed ''Listing backups'' limit outcome) (\<lambda>l.
           let fs = (case fl_files l of None \<Rightarrow> [] | Some fs \<Rightarrow> fs)
           in Inr \<lparr>items = backups_of fs, next_page_token = fl_next_page_token l\<rparr>))
           (hub_list (hub self) limit (list_request query page_size page_token)))"

text \<open>
  The loop over the frames of a download: what was hashed so far, the size as \<^verbatim>\<open>u64\<close>, and the
  writes to the file.
\<close>

fun receive ::
  "duration \<Rightarrow> path \<Rightarrow> frame list \<Rightarrow> bytes \<Rightarrow> 64 word \<Rightarrow> ('e world, call_error + bytes \<times> 64 word) io" where
  "receive idle dst [] hashed len w = (Inr (hashed, len), w)"
| "receive idle dst (Elapsed # fs) hashed len w =
     (Inl (Transient (''No download data for '' @ duration_debug idle)), w)"
| "receive idle dst (Broken e # fs) hashed len w =
     (Inl (Transient (''Download interrupted: '' @ e)), w)"
| "receive idle dst (Trailers # fs) hashed len w = receive idle dst fs hashed len w"
| "receive idle dst (Data d # fs) hashed len w =
     try_io (map_io (map_err (\<lambda>e. Permanent (Io ''Could not write download file'' e))) (std_write dst d))
       (\<lambda>_. receive idle dst fs (hashed @ d) (len + of_nat (length d))) w"

definition check_md5 ::
  "(bytes \<Rightarrow> string) \<Rightarrow> backup_info \<Rightarrow> bytes \<Rightarrow> 64 word \<Rightarrow> call_error + 64 word" where
  "check_md5 md5_hex backup hashed len =
     (case b_md5 backup of
        None \<Rightarrow> Inr len
      | Some expected \<Rightarrow>
          let actual = md5_hex hashed
          in if \<not> eq_ignore_ascii_case actual expected
             then Inl (Transient (''Checksum mismatch for '' @ quoted (b_name backup) @ '': expected ''
                    @ expected @ '', got '' @ actual))
             else Inr len)"

definition download_once ::
  "(bytes \<Rightarrow> string) \<Rightarrow> 'e gdrive \<Rightarrow> backup_info \<Rightarrow> path \<Rightarrow> ('e world, call_error + 64 word) io" where
  "download_once md5_hex self backup dst =
     (let limit = request_timeout (opts self); idle = read_idle_timeout (opts self) in
      try_io (map_io (timed ''Downloading backup'' limit) (hub_media (hub self) limit (b_id backup))) (\<lambda>body.
      try_io (map_io (map_err (\<lambda>e. Permanent (Io ''Could not create download file'' e))) (std_create dst)) (\<lambda>_.
      try_io (receive idle dst body [] 0) (\<lambda>(hashed, len).
      try_io (map_io (map_err (\<lambda>e. Permanent (Io ''Could not write download file'' e))) (std_flush dst)) (\<lambda>_.
      return_io (check_md5 md5_hex backup hashed len))))))"

section \<open>The port\<close>

text \<open>An upload is not retried.\<close>

definition gd_upload :: "'e gdrive \<Rightarrow> upload_request \<Rightarrow> ('e world, backup_info result) io" where
  "gd_upload self req =
     (let limit = upload_timeout (opts self) in
      try_io (map_io (map_err (Io (''Could not open '' @ str_debug (ur_path req)))) (std_open (ur_path req)))
        (\<lambda>content.
      map_io (\<lambda>outcome. and_then (map_err into_error (timed ''Uploading backup'' limit outcome)) to_backup_info)
        (hub_create (hub self) limit (upload_metadata req (folder_id self)) FILE_FIELDS content)))"

fun bad_token :: "string option \<Rightarrow> call_error \<Rightarrow> call_error" where
  "bad_token (Some t) (BadRequest m) = Permanent (InvalidArgument ''invalid page_token'')"
| "bad_token page_token e = e"

definition gd_list ::
  "'e gdrive \<Rightarrow> 32 word \<Rightarrow> string option \<Rightarrow> ('e world, backup_info page result) io" where
  "gd_list self page_size page_token =
     (let query = folder_query (folder_id self)
      in retry (opt_retry (opts self)) (hub_sleep (hub self))
           (map_io (map_err (bad_token page_token)) (list_once self query page_size page_token)))"

definition no_backup_error :: error where
  "no_backup_error =
     FailedPrecondition (''no backup among the newest ''
       @ show_nat (unat LATEST_PAGE_SIZE * LATEST_MAX_PAGES) @ '' files in the folder'')"

fun latest_loop ::
  "(string option \<Rightarrow> ('w, 'a page result) io) \<Rightarrow> nat \<Rightarrow> string option \<Rightarrow> ('w, 'a option result) io" where
  "latest_loop fetch 0 token w = (Inl no_backup_error, w)"
| "latest_loop fetch (Suc n) token w =
     try_io (fetch token) (\<lambda>page.
       case items page of
         newest # _ \<Rightarrow> return_io (Inr (Some newest))
       | [] \<Rightarrow>
           (case continue_token page of
              Some next \<Rightarrow> latest_loop fetch n (Some next)
            | None \<Rightarrow> return_io (Inr None))) w"

definition latest_page :: "'e gdrive \<Rightarrow> string option \<Rightarrow> ('e world, backup_info page result) io" where
  "latest_page self token =
     retry (opt_retry (opts self)) (hub_sleep (hub self))
       (list_once self (latest_query (folder_id self)) LATEST_PAGE_SIZE token)"

definition gd_latest :: "'e gdrive \<Rightarrow> ('e world, backup_info option result) io" where
  "gd_latest self = latest_loop (latest_page self) LATEST_MAX_PAGES None"

definition gd_get :: "'e gdrive \<Rightarrow> string \<Rightarrow> ('e world, backup_info result) io" where
  "gd_get self i =
     (let limit = request_timeout (opts self) in
      try_io (retry (opt_retry (opts self)) (hub_sleep (hub self))
        (map_io (timed ''Getting backup'' limit) (hub_get (hub self) limit i FILE_FIELDS))) (\<lambda>file.
      if \<not> is_in_folder file (folder_id self)
      then return_io (Inl (NotFound (''backup '' @ quoted i)))
      else return_io (to_backup_info file)))"

definition gd_download ::
  "(bytes \<Rightarrow> string) \<Rightarrow> 'e gdrive \<Rightarrow> backup_info \<Rightarrow> path \<Rightarrow> ('e world, unit result) io" where
  "gd_download md5_hex self backup dst =
     try_io (retry (opt_retry (opts self)) (hub_sleep (hub self)) (download_once md5_hex self backup dst))
       (\<lambda>len. return_io (Inr ()))"

fun missing_is_deleted :: "unit result \<Rightarrow> unit result" where
  "missing_is_deleted (Inl (NotFound m)) = Inr ()"
| "missing_is_deleted res = res"

definition gd_delete :: "'e gdrive \<Rightarrow> string \<Rightarrow> ('e world, unit result) io" where
  "gd_delete self i =
     (let limit = request_timeout (opts self) in
      map_io missing_is_deleted
        (retry (opt_retry (opts self)) (hub_sleep (hub self))
           (map_io (timed ''Deleting backup'' limit) (hub_delete (hub self) limit i))))"

section \<open>Downloads\<close>

text \<open>The data of a body, and that it arrived whole.\<close>

definition body_data :: "frame list \<Rightarrow> bytes" where
  "body_data fs = concat (map (\<lambda>f. case f of Data d \<Rightarrow> d | _ \<Rightarrow> []) fs)"

definition body_whole :: "frame list \<Rightarrow> bool" where
  "body_whole fs \<longleftrightarrow> list_all (\<lambda>f. case f of Elapsed \<Rightarrow> False | Broken _ \<Rightarrow> False | _ \<Rightarrow> True) fs"

text \<open>The Drive client and the timer have no business with local files.\<close>

definition hub_local :: "'e drive_hub \<Rightarrow> bool" where
  "hub_local h \<longleftrightarrow>
     (\<forall>limit i w. files (snd (hub_media h limit i w)) = files w) \<and> (\<forall>d w. files (hub_sleep h d w) = files w)"

lemma receive_Inr:
  assumes "receive idle dst fs hashed n w = (Inr (h, m), w')" and "files w dst = Some c"
  shows "body_whole fs \<and> h = hashed @ body_data fs \<and> m = n + of_nat (length (body_data fs))
    \<and> files w' = (files w)(dst \<mapsto> c @ body_data fs)"
  using assms
proof (induction idle dst fs hashed n w arbitrary: c rule: receive.induct)
  case (5 idle dst d fs hashed n w)
  then obtain v where v: "std_write dst d w = (Inr (), v)"
    "receive idle dst fs (hashed @ d) (n + of_nat (length d)) v = (Inr (h, m), w')"
    by (auto simp: try_io_Inr_iff map_io_def split: prod.splits)
  note fv = std_write_Inr(1) [OF v(1) "5.prems"(2)]
  then show ?case using "5.IH" [OF v(2), of "c @ d"]
    by (auto simp: body_whole_def body_data_def add.assoc fun_eq_iff)
qed (auto simp: body_whole_def body_data_def)

lemma only_touches_receive: "only_touches {dst} (receive idle dst fs hashed n)"
proof (induction fs arbitrary: hashed n)
  case (Cons f fs)
  show ?case
  proof (cases f)
    case (Data d)
    have eq: "receive idle dst (Data d # fs) hashed n =
      try_io (map_io (map_err (\<lambda>e. Permanent (Io ''Could not write download file'' e))) (std_write dst d))
       (\<lambda>_. receive idle dst fs (hashed @ d) (n + of_nat (length d)))"
      by (rule ext) simp
    show ?thesis unfolding Data eq by (rule only_touches_try_io) (simp_all add: Cons)
  qed (use Cons in \<open>simp_all add: only_touches_def\<close>)
qed (simp add: only_touches_def)

lemma only_touches_download_once:
  assumes "hub_local (hub self)"
  shows "only_touches {dst} (download_once md5_hex self b dst)"
  unfolding download_once_def Let_def
  by (intro only_touches_try_io)
    (use assms in \<open>auto simp: hub_local_def only_touches_receive split: prod.split
      intro!: only_touches_try_io\<close>, auto simp: only_touches_def)

lemma download_once_Inr:
  assumes "hub_local (hub self)" and "download_once md5_hex self b dst w = (Inr len, w')"
  obtains fs v where "hub_media (hub self) (request_timeout (opts self)) (b_id b) w = (Some (Inr fs), v)"
    "body_whole fs" "files w' = (files w)(dst \<mapsto> body_data fs)" "len = of_nat (length (body_data fs))"
    "\<forall>m. b_md5 b = Some m \<longrightarrow> eq_ignore_ascii_case (md5_hex (body_data fs)) m"
proof -
  let ?media = "hub_media (hub self) (request_timeout (opts self)) (b_id b)"
  obtain fs v v1 h n v2 v3 where *:
    "map_io (timed ''Downloading backup'' (request_timeout (opts self))) ?media w = (Inr fs, v)"
    "std_create dst v = (Inr (), v1)"
    "receive (read_idle_timeout (opts self)) dst fs [] 0 v1 = (Inr (h, n), v2)"
    "std_flush dst v2 = (Inr (), w')"
    and final: "check_md5 md5_hex b h n = Inr len"
    using assms(2) unfolding download_once_def Let_def
    by (auto simp: try_io_Inr_iff map_io_Inr_iff)
  have media: "?media w = (Some (Inr fs), v)"
    using *(1) by (auto simp: map_io_def timed_def split: prod.splits option.splits)
  then have "files v = files w"
    using assms(1) by (metis hub_local_def snd_conv)
  then have v1: "files v1 = (files w)(dst \<mapsto> [])" using std_create_Inr(1) [OF *(2)] by simp
  then have rec: "body_whole fs" "h = body_data fs" "n = of_nat (length (body_data fs))"
    "files v2 = (files v1)(dst \<mapsto> body_data fs)"
    using receive_Inr [OF *(3), of "[]"] by auto
  show ?thesis
  proof (rule that [OF media rec(1)])
    show "files w' = (files w)(dst \<mapsto> body_data fs)"
      using std_flush_Inr(1) [OF *(4)] rec(4) v1 by simp
  qed (use final rec in \<open>auto simp: check_md5_def Let_def split: option.splits if_splits\<close>)
qed

lemma gd_download_spec:
  assumes "hub_local (hub self)" and "gd_download md5_hex self b dst w = (res, w')"
  shows "(\<forall>q. q \<noteq> dst \<longrightarrow> files w' q = files w q) \<and>
    (res = Inr () \<longrightarrow>
      (\<exists>fs v v'. hub_media (hub self) (request_timeout (opts self)) (b_id b) v = (Some (Inr fs), v')
         \<and> body_whole fs \<and> files w' = (files w)(dst \<mapsto> body_data fs)
         \<and> (\<forall>m. b_md5 b = Some m \<longrightarrow> eq_ignore_ascii_case (md5_hex (body_data fs)) m)))"
proof -
  let ?I = "\<lambda>v. \<forall>q. q \<noteq> dst \<longrightarrow> files v q = files w q"
  let ?call = "download_once md5_hex self b dst"
  obtain r where r: "retry (opt_retry (opts self)) (hub_sleep (hub self)) ?call w = (r, w')"
    and res: "res = Inr () \<Longrightarrow> is_ok r"
    using assms(2) unfolding gd_download_def
    by (auto simp: try_io_def split: prod.splits sum.splits)
  have touch: "?I (snd (?call v))" if "?I v" for v
    using that only_touchesD [OF only_touches_download_once [OF assms(1), of dst md5_hex b]] by simp
  have sleep: "?I (hub_sleep (hub self) d v)" if "?I v" for d v
    using that assms(1) by (simp add: hub_local_def)
  obtain v c where v: "?I v" "?call v = (c, w')" "r = map_err into_error c"
    using retry_last [where I = ?I, OF r] touch sleep by auto
  have "\<exists>fs v v'. hub_media (hub self) (request_timeout (opts self)) (b_id b) v = (Some (Inr fs), v')
      \<and> body_whole fs \<and> files w' = (files w)(dst \<mapsto> body_data fs)
      \<and> (\<forall>m. b_md5 b = Some m \<longrightarrow> eq_ignore_ascii_case (md5_hex (body_data fs)) m)"
    if ok: "res = Inr ()"
  proof -
    obtain len where "?call v = (Inr len, w')"
      using res [OF ok] v(2,3) by (cases c) auto
    from download_once_Inr [OF assms(1) this] obtain fs v' where fs:
      "hub_media (hub self) (request_timeout (opts self)) (b_id b) v = (Some (Inr fs), v')"
      "body_whole fs" "files w' = (files v)(dst \<mapsto> body_data fs)"
      "\<forall>m. b_md5 b = Some m \<longrightarrow> eq_ignore_ascii_case (md5_hex (body_data fs)) m"
      by metis
    then show ?thesis using v(1) by (intro exI [of _ fs] exI [of _ v] exI [of _ v']) auto
  qed
  then show ?thesis using touch [OF v(1)] v(2) by simp
qed

text \<open>
  Claim C8 (download_integrity). A download changes no local file but its destination, whether it
  succeeds or not. When it succeeds, the destination holds exactly the data of one response
  body that arrived whole, however many attempts were made before, and when the backup has a
  checksum, the checksum of that data equals it up to the case of the hexadecimal digits.
\<close>

theorem download_integrity:
  assumes "hub_local (hub self)" and "gd_download md5_hex self b dst w = (res, w')"
  shows "(\<forall>q. q \<noteq> dst \<longrightarrow> files w' q = files w q) \<and>
    (res = Inr () \<longrightarrow>
      (\<exists>fs v v'. hub_media (hub self) (request_timeout (opts self)) (b_id b) v = (Some (Inr fs), v')
         \<and> body_whole fs \<and> files w' = (files w)(dst \<mapsto> body_data fs)
         \<and> (\<forall>m. b_md5 b = Some m \<longrightarrow> eq_ignore_ascii_case (md5_hex (body_data fs)) m)))"
  by (rule gd_download_spec [OF assms])

text \<open>
  A small Drive for the examples: its state counts the downloads begun, of which the first breaks
  off; it lists the given files by pages of the requested size.
\<close>

definition demo_hub :: "gfile list \<Rightarrow> nat drive_hub" where
  "demo_hub fs =
     \<lparr>hub_list = (\<lambda>limit call w.
        let start = (case lc_page_token call of None \<Rightarrow> 0 | Some t \<Rightarrow> the (digits_val 0 t));
            stop = start + unat (lc_page_size call)
        in (Some (Inr \<lparr>fl_files = Some (take (unat (lc_page_size call)) (drop start fs)),
              fl_next_page_token = if stop < length fs then Some (show_nat stop) else None\<rparr>), w)),
      hub_get = (\<lambda>limit i fields w.
        (Some (case find (\<lambda>f. f_id f = Some i) fs of None \<Rightarrow> Inl (GdFailure 404) | Some f \<Rightarrow> Inr f), w)),
      hub_media = (\<lambda>limit i w.
        (Some (Inr (if outside w = 0 then [Data ''x'', Broken ''reset''] else [Data ''ab'', Trailers, Data ''c''])),
         w\<lparr>outside := outside w + 1\<rparr>)),
      hub_create = (\<lambda>limit meta fields content w. (None, w)),
      hub_delete = (\<lambda>limit i w. (Some (Inl (GdFailure 404)), w)),
      hub_sleep = (\<lambda>d w. w)\<rparr>"

definition demo_drive :: "gfile list \<Rightarrow> nat gdrive" where
  "demo_drive fs = \<lparr>hub = demo_hub fs, folder_id = ''folder1'', opts = default_options\<rparr>"

definition demo_world :: "nat world" where
  "demo_world = \<lparr>files = Map.empty, faults = [], rand_names = [], outside = 0\<rparr>"

lemma demo_hub_local: "hub_local (hub (demo_drive fs))"
  by (simp add: hub_local_def demo_drive_def demo_hub_def)

definition demo_sum :: backup_info where
  "demo_sum = (demo_backup ''b'' 1 PgCustom Regular)\<lparr>b_md5 := Some ''ABC''\<rparr>"

lemma demo_eq: "eq_ignore_ascii_case ''abc'' ''ABC''"
  by code_simp

lemma demo_download:
  "gd_download (\<lambda>d. d) (demo_drive []) demo_sum ''d'' demo_world =
     (Inr (), demo_world\<lparr>files := [''d'' \<mapsto> ''abc''], outside := 2\<rparr>)"
  by (simp add: gd_download_def retry_def retry_loop.simps download_once_def demo_drive_def demo_hub_def
      default_options_def default_policy_def demo_sum_def demo_backup_def try_io_def map_io_def timed_def
      std_create_def std_write_def std_flush_def with_fault_def demo_world_def check_md5_def demo_eq)

theorem download_integrity_witness:
  "hub_local (hub (demo_drive [])) \<and> fst (gd_download (\<lambda>d. d) (demo_drive []) demo_sum ''d'' demo_world) = Inr ()
   \<and> (\<exists>fs. body_whole fs \<and> body_data fs = ''abc'' \<and> eq_ignore_ascii_case (body_data fs) ''ABC'')"
proof -
  have "\<exists>fs. body_whole fs \<and> [''d'' \<mapsto> ''abc''] = [''d'' \<mapsto> body_data fs]
      \<and> eq_ignore_ascii_case (body_data fs) ''ABC''"
    using download_integrity [OF demo_hub_local demo_download]
    by (auto simp: demo_sum_def demo_world_def)
  then show ?thesis using demo_hub_local demo_download by (auto simp: fun_eq_iff split: if_splits)
qed

section \<open>Listing\<close>

lemma backups_of_concat: "backups_of (concat fss) = concat (map backups_of fss)"
  by (induction fss) (simp_all add: backups_of_def List.map_filter_def)

context paged_listing
begin

text \<open>The scan for the newest backup: the first item of the first \<open>n\<close> pages.\<close>

lemma latest_loop_at:
  assumes "serves P w" "i < length P"
  shows "fst (latest_loop fetch n (at i) w) =
    (case concat (take n (drop i P)) of
       b # _ \<Rightarrow> Inr (Some b)
     | [] \<Rightarrow> if length P \<le> i + n then Inr None
             else Inl no_backup_error)"
  using assms
proof (induction n arbitrary: i w)
  case (Suc n)
  have drop: "drop i P = P ! i # drop (Suc i) P" using Suc.prems(2) by (rule Cons_nth_drop_Suc [symmetric])
  show ?case
  proof (cases rule: page_cases [OF Suc.prems])
    case (1 page w')
    then show ?thesis by (simp add: drop split: list.split)
  next
    case (2 page w')
    have IH: "fst (latest_loop fetch n (at (Suc i)) w') =
      (case concat (take n (drop (Suc i) P)) of
         b # _ \<Rightarrow> Inr (Some b)
       | [] \<Rightarrow> if length P \<le> Suc i + n then Inr None else Inl no_backup_error)"
      using Suc.IH [OF 2(2,5)] .
    show ?thesis
    proof (cases "P ! i")
      case Nil
      then show ?thesis using 2 IH by (simp add: drop)
    qed (use 2 in \<open>simp add: drop\<close>)
  qed
qed simp

end

text \<open>
  Drive serves a listing: from the current world on, every request for page \<open>i\<close> of the query gets
  the \<open>i\<close>-th page of files, with the token of the next page on every page but the last.
\<close>

definition drive_serves ::
  "'e gdrive \<Rightarrow> string \<Rightarrow> 32 word \<Rightarrow> (nat \<Rightarrow> string) \<Rightarrow> gfile list list \<Rightarrow> 'e world \<Rightarrow> bool" where
  "drive_serves self query page_size token R w \<longleftrightarrow>
     R \<noteq> [] \<and> (\<forall>i. token i \<noteq> []) \<and>
     (\<exists>S. w \<in> S \<and> (\<forall>v\<in>S. \<forall>i<length R. \<exists>l v'.
        hub_list (hub self) (request_timeout (opts self))
          (list_request query page_size (if i = 0 then None else Some (token i))) v = (Some (Inr l), v')
        \<and> v' \<in> S \<and> fl_files l = Some (R ! i)
        \<and> fl_next_page_token l = (if Suc i < length R then Some (token (Suc i)) else None)))"

definition backup_pages ::
  "'e gdrive \<Rightarrow> string \<Rightarrow> 32 word \<Rightarrow> (nat \<Rightarrow> string) \<Rightarrow> backup_info list list \<Rightarrow> 'e world \<Rightarrow> bool" where
  "backup_pages self query page_size token P w \<longleftrightarrow>
     (\<exists>R. P = map backups_of R \<and> drive_serves self query page_size token R w)"

lemma list_once_page:
  assumes "backup_pages self query page_size token P w" and "i < length P"
  shows "\<exists>page w'. list_once self query page_size (if i = 0 then None else Some (token i)) w = (Inr page, w')
    \<and> backup_pages self query page_size token P w' \<and> items page = P ! i
    \<and> continue_token page = (if Suc i < length P then Some (token (Suc i)) else None)"
proof -
  obtain R where R: "P = map backups_of R" "drive_serves self query page_size token R w"
    using assms(1) by (auto simp: backup_pages_def)
  obtain S where S: "R \<noteq> []" "\<forall>i. token i \<noteq> []" "w \<in> S"
    "\<forall>v\<in>S. \<forall>i<length R. \<exists>l v'.
        hub_list (hub self) (request_timeout (opts self))
          (list_request query page_size (if i = 0 then None else Some (token i))) v = (Some (Inr l), v')
        \<and> v' \<in> S \<and> fl_files l = Some (R ! i)
        \<and> fl_next_page_token l = (if Suc i < length R then Some (token (Suc i)) else None)"
    using R(2) unfolding drive_serves_def by blast
  have i: "i < length R" using assms(2) R(1) by simp
  obtain l v' where l: "hub_list (hub self) (request_timeout (opts self))
      (list_request query page_size (if i = 0 then None else Some (token i))) w = (Some (Inr l), v')"
    "v' \<in> S" "fl_files l = Some (R ! i)"
    "fl_next_page_token l = (if Suc i < length R then Some (token (Suc i)) else None)"
    using S(4) [rule_format, OF S(3) i] by blast
  have "drive_serves self query page_size token R v'"
    unfolding drive_serves_def using S(1,2,4) l(2) by (intro conjI exI [of _ S]) simp_all
  then have "backup_pages self query page_size token P v'"
    using R(1) by (auto simp: backup_pages_def)
  then show ?thesis
    using l S(2) i R(1)
    by (simp add: list_once_def Let_def map_io_def timed_def continue_token_def)
qed

lemma backup_pages_some: "backup_pages self query page_size token P w \<Longrightarrow> P \<noteq> []"
  by (auto simp: backup_pages_def drive_serves_def)

lemma latest_page_Inr:
  "list_once self (latest_query (folder_id self)) LATEST_PAGE_SIZE t w = (Inr page, w') \<Longrightarrow>
     latest_page self t w = (Inr page, w')"
  unfolding latest_page_def by (rule retry_first)

lemma gd_list_Inr:
  "list_once self (folder_query (folder_id self)) n t w = (Inr page, w') \<Longrightarrow>
     gd_list self n t w = (Inr page, w')"
  unfolding gd_list_def Let_def by (rule retry_first) (simp add: map_io_Inr_iff)

text \<open>Both ways in which the storage fetches a page satisfy the paging contract.\<close>

interpretation lst: paged_listing "latest_page self"
  "backup_pages self (latest_query (folder_id self)) LATEST_PAGE_SIZE token" token for self token
proof
  fix P w i
  assume *: "backup_pages self (latest_query (folder_id self)) LATEST_PAGE_SIZE token P w" "i < length P"
  show "\<exists>page w'. latest_page self (if i = 0 then None else Some (token i)) w = (Inr page, w')
      \<and> backup_pages self (latest_query (folder_id self)) LATEST_PAGE_SIZE token P w' \<and> items page = P ! i
      \<and> continue_token page = (if Suc i < length P then Some (token (Suc i)) else None)"
    using list_once_page [OF *] by (blast intro: latest_page_Inr)
qed (rule backup_pages_some)

interpretation dls: paged_listing "gd_list self page_size"
  "backup_pages self (folder_query (folder_id self)) page_size token" token for self page_size token
proof
  fix P w i
  assume *: "backup_pages self (folder_query (folder_id self)) page_size token P w" "i < length P"
  show "\<exists>page w'. gd_list self page_size (if i = 0 then None else Some (token i)) w = (Inr page, w')
      \<and> backup_pages self (folder_query (folder_id self)) page_size token P w' \<and> items page = P ! i
      \<and> continue_token page = (if Suc i < length P then Some (token (Suc i)) else None)"
    using list_once_page [OF *] by (blast intro: gd_list_Inr)
qed (rule backup_pages_some)

text \<open>
  Claim C12 (latest_spec). While Drive serves the listing of the latest query as the pages \<open>R\<close>, the
  newest backup is the first file of the first ten pages that is a backup at all: files that
  are not backups are skipped. Without one, the answer is that there is none if the listing ends
  within ten pages, and otherwise an error saying that only the newest hundred files were read.
\<close>

theorem latest_spec:
  assumes "drive_serves self (latest_query (folder_id self)) LATEST_PAGE_SIZE token R w"
  shows "fst (gd_latest self w) =
    (case backups_of (concat (take 10 R)) of
       b # _ \<Rightarrow> Inr (Some b)
     | [] \<Rightarrow> if length R \<le> 10 then Inr None
             else Inl (FailedPrecondition ''no backup among the newest 100 files in the folder''))"
proof -
  have R: "0 < length (map backups_of R)" using assms by (simp add: drive_serves_def)
  have pages: "backup_pages self (latest_query (folder_id self)) LATEST_PAGE_SIZE token (map backups_of R) w"
    using assms by (auto simp: backup_pages_def)
  have flat: "concat (take 10 (drop 0 (map backups_of R))) = backups_of (concat (take 10 R))"
    by (simp add: backups_of_concat take_map)
  have err: "no_backup_error = FailedPrecondition ''no backup among the newest 100 files in the folder''"
    by (simp add: no_backup_error_def LATEST_PAGE_SIZE_def LATEST_MAX_PAGES_def show_nat.simps)
  have "fst (gd_latest self w) = fst (latest_loop (latest_page self) 10 (if (0::nat) = 0 then None else Some (token 0)) w)"
    by (simp add: gd_latest_def LATEST_MAX_PAGES_def)
  then show ?thesis
    unfolding lst.latest_loop_at [OF pages R] flat err by (simp only: length_map add_0)
qed

definition demo_file :: "string \<Rightarrow> string \<Rightarrow> gfile" where
  "demo_file i name =
     default_file\<lparr>f_id := Some i, f_name := Some name, f_created_time := Some demo_time,
       f_parents := Some [''folder1'']\<rparr>"

text \<open>Eleven files, of which only the eleventh, on the second page, is a backup.\<close>

definition demo_files :: "gfile list" where
  "demo_files = replicate 10 (demo_file ''n'' ''notes.txt'') @ [demo_file ''b'' ''backup_x.pgdump'']"

lemma demo_list:
  assumes "i = 0 \<or> i = 1"
  shows "hub_list (hub (demo_drive demo_files)) limit
      (list_request q LATEST_PAGE_SIZE (if i = 0 then None else Some (show_nat (10 * i)))) w =
    (Some (Inr \<lparr>fl_files = Some ([take 10 demo_files, drop 10 demo_files] ! i),
       fl_next_page_token = (if i = 0 then Some (show_nat 10) else None)\<rparr>), w)"
proof -
  have len: "length demo_files = 11" by (simp add: demo_files_def)
  have size: "unat (lc_page_size (list_request q LATEST_PAGE_SIZE t)) = 10"
    "lc_page_token (list_request q LATEST_PAGE_SIZE t) = t" for t
    by (simp_all add: list_request_def i32_try_from_def LATEST_PAGE_SIZE_def)
  show ?thesis
    using assms by (elim disjE) (simp_all add: demo_drive_def demo_hub_def size len)
qed

lemma demo_serves:
  "drive_serves (demo_drive demo_files) (latest_query ''folder1'') LATEST_PAGE_SIZE
     (\<lambda>i. show_nat (10 * i)) [take 10 demo_files, drop 10 demo_files] w"
  unfolding drive_serves_def
proof (intro conjI exI [of _ UNIV] ballI allI impI)
  fix v :: "nat world" and i
  assume "i < length [take 10 demo_files, drop 10 demo_files]"
  then have i: "i = 0 \<or> i = 1" by auto
  show "\<exists>l v'. hub_list (hub (demo_drive demo_files)) (request_timeout (opts (demo_drive demo_files)))
        (list_request (latest_query ''folder1'') LATEST_PAGE_SIZE
          (if i = 0 then None else Some (show_nat (10 * i)))) v = (Some (Inr l), v')
      \<and> v' \<in> UNIV \<and> fl_files l = Some ([take 10 demo_files, drop 10 demo_files] ! i)
      \<and> fl_next_page_token l =
          (if Suc i < length [take 10 demo_files, drop 10 demo_files] then Some (show_nat (10 * Suc i)) else None)"
    unfolding demo_list [OF i] using i by auto
qed simp_all

lemma demo_info:
  "to_backup_info (demo_file ''b'' ''backup_x.pgdump'') =
     Inr \<lparr>b_id = ''b'', b_name = ''backup_x.pgdump'', b_created_at = demo_time, b_size_bytes = None,
          b_md5 = None, b_format = PgCustom, b_kind = Regular\<rparr>"
  "res_ok (to_backup_info (demo_file ''n'' ''notes.txt'')) = None"
proof -
  have ext: "path_extension ''backup_x.pgdump'' = Some ''pgdump''" "path_extension ''notes.txt'' = Some ''txt''"
    by code_simp+
  show "to_backup_info (demo_file ''b'' ''backup_x.pgdump'') =
     Inr \<lparr>b_id = ''b'', b_name = ''backup_x.pgdump'', b_created_at = demo_time, b_size_bytes = None,
          b_md5 = None, b_format = PgCustom, b_kind = Regular\<rparr>"
    and "res_ok (to_backup_info (demo_file ''n'' ''notes.txt'')) = None"
    by (simp_all add: to_backup_info_def demo_file_def default_file_def required_def detect_format_def ext
        kind_parse_def fb_const)
qed

lemma demo_backups:
  "backups_of demo_files =
     [\<lparr>b_id = ''b'', b_name = ''backup_x.pgdump'', b_created_at = demo_time, b_size_bytes = None,
       b_md5 = None, b_format = PgCustom, b_kind = Regular\<rparr>]"
  by (simp add: backups_of_def demo_files_def List.map_filter_def demo_info)

theorem latest_spec_witness:
  "drive_serves (demo_drive demo_files) (latest_query ''folder1'') LATEST_PAGE_SIZE
     (\<lambda>i. show_nat (10 * i)) [take 10 demo_files, drop 10 demo_files] demo_world
   \<and> (\<exists>b. fst (gd_latest (demo_drive demo_files) demo_world) = Inr (Some b) \<and> b_id b = ''b'')"
proof -
  have folder: "folder_id (demo_drive demo_files) = ''folder1''" by (simp add: demo_drive_def)
  have "concat (take 10 [take 10 demo_files, drop 10 demo_files]) = demo_files" by simp
  then show ?thesis
    using demo_serves latest_spec [of "demo_drive demo_files" "\<lambda>i. show_nat (10 * i)"
        "[take 10 demo_files, drop 10 demo_files]" demo_world, unfolded folder, OF demo_serves]
    by (simp only: demo_backups) simp
qed

section \<open>Errors\<close>

text \<open>What a timed call can fail with, and what survives the retry loop.\<close>

definition call_failure :: "error \<Rightarrow> bool" where
  "call_failure e \<longleftrightarrow> (\<exists>m. e = Storage m \<or> e = Unavailable m \<or> e = NotFound m)"

lemma classify_failure: "call_failure (into_error (classify op e))"
proof -
  have status: "call_failure (into_error (classify_status op st r d))" for st r d
    by (simp add: classify_status_def call_failure_def Let_def)
  then show ?thesis
    by (cases e) (simp_all add: call_failure_def classify_json_def Let_def split: option.split)
qed

lemma timed_failure: "timed op limit outcome = Inl e \<Longrightarrow> call_failure (into_error e)"
  using classify_failure
  by (auto simp: timed_def call_failure_def map_err_Inl_iff split: option.splits)

lemma retry_result:
  "retry p sleep call w = (r, w') \<Longrightarrow> \<exists>v c. call v = (c, w') \<and> r = map_err into_error c"
  using retry_last [where I = "\<lambda>_. True"] by metis

lemma retry_timed_failure:
  assumes "retry p sleep (map_io (timed op limit) m) w = (Inl e, w')"
  shows "call_failure e"
proof -
  obtain v c where "map_io (timed op limit) m v = (c, w')" "Inl e = map_err into_error c"
    using retry_result [OF assms] by blast
  then show ?thesis
    using timed_failure by (cases c) (auto simp: map_io_def split: prod.splits)
qed

lemma list_once_failure:
  "list_once self q n t w = (Inl e, w') \<Longrightarrow> call_failure (into_error e)"
  using timed_failure
  by (auto simp: list_once_def map_io_def Let_def and_then_Inl_iff split: prod.splits)

lemma missing_is_deleted_Inl: "missing_is_deleted r = Inl e \<Longrightarrow> r = Inl e \<and> (\<forall>m. e \<noteq> NotFound m)"
  by (induction r rule: missing_is_deleted.induct) auto

lemma gd_delete_failure:
  assumes "gd_delete self i w = (Inl e, w')"
  shows "\<exists>m. e = Storage m \<or> e = Unavailable m"
proof -
  let ?call = "map_io (timed ''Deleting backup'' (request_timeout (opts self)))
         (hub_delete (hub self) (request_timeout (opts self)) i)"
  obtain r where r: "retry (opt_retry (opts self)) (hub_sleep (hub self)) ?call w = (r, w')"
    "missing_is_deleted r = Inl e"
    using assms [unfolded gd_delete_def Let_def map_io_iff [of missing_is_deleted]]
    by (elim exE conjE) (rule that, assumption, rule sym)
  have e: "r = Inl e" "\<forall>m. e \<noteq> NotFound m" using missing_is_deleted_Inl [OF r(2)] by simp_all
  have "call_failure e" by (rule retry_timed_failure [OF r(1) [unfolded e(1)]])
  then show ?thesis using e(2) by (simp add: call_failure_def)
qed

lemma gd_list_failure:
  assumes "gd_list self n t w = (Inl e, w')"
  shows "call_failure e \<or> e = InvalidArgument ''invalid page_token'' \<and> t \<noteq> None"
proof -
  let ?once = "list_once self (folder_query (folder_id self)) n t"
  obtain v c where v: "map_io (map_err (bad_token t)) ?once v = (c, w')" "Inl e = map_err into_error c"
    using retry_result [OF assms [unfolded gd_list_def Let_def]] by blast
  obtain r where r: "?once v = (r, w')" "c = map_err (bad_token t) r"
    using v(1) unfolding map_io_iff by blast
  then obtain e' where e': "?once v = (Inl e', w')" "e = into_error (bad_token t e')"
    using v(2) by (cases r) simp_all
  from list_once_failure [OF e'(1)] show ?thesis
    unfolding e'(2) by (cases t; cases e') simp_all
qed

lemma gd_get_Inr:
  assumes "gd_get self i w = (Inr b, w')"
  shows "\<exists>f v. hub_get (hub self) (request_timeout (opts self)) i FILE_FIELDS v = (Some (Inr f), w')
      \<and> is_in_folder f (folder_id self) \<and> to_backup_info f = Inr b"
proof -
  let ?get = "hub_get (hub self) (request_timeout (opts self)) i FILE_FIELDS"
  let ?call = "map_io (timed ''Getting backup'' (request_timeout (opts self))) ?get"
  obtain f v' where f: "retry (opt_retry (opts self)) (hub_sleep (hub self)) ?call w = (Inr f, v')"
    "(if \<not> is_in_folder f (folder_id self)
      then return_io (Inl (NotFound (''backup '' @ quoted i)))
      else return_io (to_backup_info f)) v' = (Inr b, w')"
    using assms [unfolded gd_get_def Let_def try_io_Inr_iff] by (elim exE conjE) (rule that)
  have b: "is_in_folder f (folder_id self)" "to_backup_info f = Inr b" "v' = w'"
    using f(2) by (simp_all split: if_splits)
  obtain v c where v: "?call v = (c, v')" "Inr f = map_err into_error c"
    using retry_result [OF f(1)] by (elim exE conjE) (rule that)
  have c: "c = Inr f" using v(2) by (cases c) simp_all
  obtain r where g: "?get v = (r, v')" "Inr f = timed ''Getting backup'' (request_timeout (opts self)) r"
    using v(1) [unfolded c map_io_iff] by (elim exE conjE) (rule that)
  have "r = Some (Inr f)" using g(2) [symmetric] by (simp add: timed_def split: option.splits)
  then show ?thesis using b g(1) by (intro exI [of _ f] exI [of _ v]) simp
qed


text \<open>A Drive that refuses deletions and rejects every listing.\<close>

definition broken_drive :: "nat gdrive" where
  "broken_drive = demo_drive []
     \<lparr>hub := (demo_hub [])\<lparr>hub_delete := (\<lambda>limit i w. (Some (Inl (GdFailure 403)), w)),
        hub_list := (\<lambda>limit call w. (Some (Inl (GdFailure 400)), w))\<rparr>\<rparr>"


text \<open>
  However many attempts it takes, a backup is got only from the configured
  folder: it is the translation of a file that Drive returned for that id, that has the folder
  among its parents and is not in the trash.
\<close>

lemma get_in_folder:
  assumes "gd_get self i w = (Inr b, w')"
  shows "\<exists>f v. hub_get (hub self) (request_timeout (opts self)) i FILE_FIELDS v = (Some (Inr f), w')
      \<and> is_in_folder f (folder_id self) \<and> f_trashed f \<noteq> Some True \<and> to_backup_info f = Inr b"
  using gd_get_Inr [OF assms] by (auto simp: is_in_folder_def)

end
