(* ===== verification/Pg.thy ===== *)
theory Pg
  imports Core
begin

text \<open>
  The crate \<^verbatim>\<open>backup-pg\<close>: the compression level (\<^verbatim>\<open>level.rs\<close>), the command lines of
  \<^verbatim>\<open>pg_dump\<close>, \<^verbatim>\<open>pg_restore\<close> and \<^verbatim>\<open>psql\<close> (\<^verbatim>\<open>args.rs\<close>), the child process (\<^verbatim>\<open>command.rs\<close>) and
  the tool runner that implements the database ports (\<^verbatim>\<open>tools.rs\<close>).
\<close>

section \<open>Compression level\<close>

datatype zstd_level = ZstdLevel (level_byte: "8 word")

definition u8_try_from :: "64 word \<Rightarrow> 8 word option" where
  "u8_try_from x = (if 0 \<le> sint x \<and> sint x \<le> 255 then Some (word_of_int (sint x)) else None)"

text \<open>\<^verbatim>\<open>ZstdLevel::new\<close>; the argument is an \<^verbatim>\<open>i64\<close>.\<close>

definition zstd_new :: "64 word \<Rightarrow> zstd_level result" where
  "zstd_new level =
     ok_or (Config (''zstd level must be in 1..=22, '' @ show_int (sint level) @ '' found''))
       (case u8_try_from level of
          Some l \<Rightarrow> if 1 \<le> l \<and> l \<le> 22 then Some (ZstdLevel l) else None
        | None \<Rightarrow> None)"

definition zstd_default :: zstd_level where
  "zstd_default = ZstdLevel 3"

definition display_level :: "zstd_level \<Rightarrow> string" where
  "display_level l = show_nat (unat (level_byte l))"

section \<open>Command lines\<close>

record pg_command =
  program :: string
  args :: "string list"
  env :: "(string \<times> string) list"

definition PG_DUMP :: string where "PG_DUMP = ''pg_dump''"
definition PG_RESTORE :: string where "PG_RESTORE = ''pg_restore''"
definition PSQL :: string where "PSQL = ''psql''"
definition CONNECT_TIMEOUT_SECS :: string where "CONNECT_TIMEOUT_SECS = ''10''"

lemmas [fb_const] = PG_DUMP_def PG_RESTORE_def PSQL_def CONNECT_TIMEOUT_SECS_def

definition connection_args :: "db_target \<Rightarrow> string list" where
  "connection_args target =
     [''--host'', host target, ''--port'', show_nat (unat (port target)),
      ''--username'', user target, ''--dbname'', db_name target, ''--no-password'']"

definition connection_env :: "db_target \<Rightarrow> (string \<times> string) list" where
  "connection_env target =
     [(''PGPASSWORD'', expose (password target)), (''PGCONNECT_TIMEOUT'', CONNECT_TIMEOUT_SECS)]"

definition pg_command_of :: "string \<Rightarrow> string list \<Rightarrow> db_target \<Rightarrow> string list \<Rightarrow> pg_command" where
  "pg_command_of prog flags target tail_args =
     \<lparr>program = prog, args = flags @ connection_args target @ tail_args, env = connection_env target\<rparr>"

definition dump_command :: "db_target \<Rightarrow> zstd_level \<Rightarrow> path \<Rightarrow> pg_command" where
  "dump_command target level dst =
     pg_command_of PG_DUMP
       [''--format=custom'', ''--compress=zstd:'' @ display_level level, ''--no-owner'', ''--no-privileges'']
       target [''--file'', dst]"

definition restore_command :: "db_target \<Rightarrow> path \<Rightarrow> pg_command" where
  "restore_command target src =
     pg_command_of PG_RESTORE
       [''--clean'', ''--if-exists'', ''--no-owner'', ''--no-privileges'', ''--single-transaction'',
        ''--exit-on-error'']
       target [src]"

definition query_command :: "db_target \<Rightarrow> string \<Rightarrow> pg_command" where
  "query_command target sql =
     pg_command_of PSQL
       [''--no-psqlrc'', ''--tuples-only'', ''--no-align'', ''--set=ON_ERROR_STOP=1'']
       target [''--command'', sql]"

section \<open>Child processes\<close>

record command_output =
  success :: bool
  status :: string
  stdout :: string
  stderr :: string

text \<open>What the operating system reports of a finished child: \<^verbatim>\<open>std::process::Output\<close>.\<close>

record process_output =
  exit_success :: bool
  exit_display :: string
  out_bytes :: bytes
  err_bytes :: bytes

text \<open>
  \<^verbatim>\<open>TokioCommandRunner::run\<close>. The operating system is the parameter \<open>spawn\<close>: run the program with
  these arguments and additional variables and wait for it, or fail to start it.
\<close>

definition tokio_run ::
  "(string \<Rightarrow> string list \<Rightarrow> (string \<times> string) list \<Rightarrow> ('w, io_error + process_output) io)
    \<Rightarrow> pg_command \<Rightarrow> ('w, command_output result) io" where
  "tokio_run spawn cmd =
     map_io (\<lambda>r. case r of
         Inl e \<Rightarrow> Inl (Io (''Could not run `'' @ program cmd @ ''`'') e)
       | Inr out \<Rightarrow> Inr
           \<lparr>success = exit_success out, status = exit_display out,
            stdout = from_utf8_lossy (out_bytes out), stderr = from_utf8_lossy (err_bytes out)\<rparr>)
       (spawn (program cmd) (args cmd) (env cmd))"

section \<open>Bounded error text\<close>

definition STDERR_LIMIT :: nat where "STDERR_LIMIT = 4096"

text \<open>
  The loop of \<^verbatim>\<open>tail\<close>: step to the next character boundary. Every string has one at its end, so
  the loop stops there at the latest; the second condition is for starts beyond the end, which
  \<open>tail\<close> never passes.
\<close>

function next_boundary :: "string \<Rightarrow> nat \<Rightarrow> nat" where
  "next_boundary s start =
     (if is_char_boundary s start \<or> length s < start then start else next_boundary s (Suc start))"
  by pat_completeness auto
termination
  by (relation "measure (\<lambda>(s, start). Suc (length s) - start)") auto

declare next_boundary.simps [simp del]

definition tail :: "string \<Rightarrow> nat \<Rightarrow> string" where
  "tail s limit = (let s = trim_end s in drop (next_boundary s (length s - limit)) s)"

section \<open>Tools\<close>

definition PING_TIMEOUT :: duration where "PING_TIMEOUT = from_secs 10"

text \<open>
  A runner under a time limit: \<^const>\<open>None\<close> when the limit expires first (the future is dropped
  and the child killed), else what the runner returns.
\<close>

type_synonym 'w runner = "duration \<Rightarrow> pg_command \<Rightarrow> ('w, command_output result option) io"

record 'w pg_tools =
  target :: db_target
  level :: zstd_level
  command_timeout :: duration
  runner :: "'w runner"

definition execute :: "'w pg_tools \<Rightarrow> pg_command \<Rightarrow> duration \<Rightarrow> ('w, string result) io" where
  "execute self cmd limit =
     map_io (\<lambda>r. case r of
         None \<Rightarrow> Inl (Timeout (program cmd) limit)
       | Some (Inl e) \<Rightarrow> Inl e
       | Some (Inr out) \<Rightarrow>
           if \<not> success out then
             Inl (Process (program cmd) (status out) (tail (stderr out) STDERR_LIMIT))
           else Inr (stdout out))
       (runner self limit cmd)"

definition pg_query :: "'w pg_tools \<Rightarrow> string \<Rightarrow> ('w, string result) io" where
  "pg_query self sql = execute self (query_command (target self) sql) (command_timeout self)"

definition pg_ping :: "'w pg_tools \<Rightarrow> ('w, unit result) io" where
  "pg_ping self =
     try_io (execute self (query_command (target self) ''SELECT 1'') PING_TIMEOUT) (\<lambda>out.
       return_io (if trim out = ''1'' then Inr ()
         else Inl (FailedPrecondition (''unexpected healthcheck result: '' @ quoted (trim out)))))"

definition pg_dump_to :: "'w pg_tools \<Rightarrow> path \<Rightarrow> ('w, unit result) io" where
  "pg_dump_to self dst =
     try_io (execute self (dump_command (target self) (level self) dst) (command_timeout self))
       (\<lambda>_. return_io (Inr ()))"

definition pg_restore_from :: "'w pg_tools \<Rightarrow> path \<Rightarrow> ('w, unit result) io" where
  "pg_restore_from self src =
     try_io (execute self (restore_command (target self) src) (command_timeout self))
       (\<lambda>_. return_io (Inr ()))"

definition pg_db_name :: "'w pg_tools \<Rightarrow> string" where
  "pg_db_name self = db_name (target self)"

section \<open>Properties\<close>

subsection \<open>Compression level\<close>

lemma zstd_new_spec:
  "if 1 \<le> sint x \<and> sint x \<le> 22
   then \<exists>l. zstd_new x = Inr l \<and> int (unat (level_byte l)) = sint x
   else \<exists>m. zstd_new x = Inl (Config m)"
proof (cases "0 \<le> sint x \<and> sint x \<le> 255")
  case True
  define l :: "8 word" where "l = word_of_int (sint x)"
  have u: "uint l = sint x"
    unfolding l_def uint_word_of_int using True by (simp add: mod_pos_pos_trivial)
  have "u8_try_from x = Some l" unfolding u8_try_from_def l_def using True by (rule if_P)
  moreover have "1 \<le> l \<and> l \<le> 22 \<longleftrightarrow> 1 \<le> sint x \<and> sint x \<le> 22"
    by (simp add: word_le_def u [symmetric])
  ultimately show ?thesis using u by (auto simp: zstd_new_def)
next
  case False
  then show ?thesis by (auto simp: zstd_new_def u8_try_from_def)
qed

text \<open>
  A compression level is accepted exactly when it lies in 1..22, the
  accepted byte has that value (nothing is truncated), and any other \<^verbatim>\<open>i64\<close> is a configuration
  error; the level that reaches the \<^verbatim>\<open>pg_dump\<close> command line is the number that was configured.
\<close>

lemma zstd_level_bounds:
  "(if 1 \<le> sint x \<and> sint x \<le> 22
    then \<exists>l. zstd_new x = Inr l \<and> int (unat (level_byte l)) = sint x
         \<and> ''--compress=zstd:'' @ show_int (sint x) \<in> set (args (dump_command t l dst))
    else \<exists>m. zstd_new x = Inl (Config m))"
proof (cases "1 \<le> sint x \<and> sint x \<le> 22")
  case True
  then obtain l where l: "zstd_new x = Inr l" "int (unat (level_byte l)) = sint x"
    using zstd_new_spec [of x] by auto
  then have "show_int (sint x) = display_level l"
    using True by (simp add: show_int_def display_level_def flip: nat_uint_eq)
  then show ?thesis using True l by (auto simp: dump_command_def pg_command_of_def)
next
  case False
  then show ?thesis using zstd_new_spec [of x] by auto
qed

lemma next_boundary_spec:
  assumes "start \<le> length s"
  shows "start \<le> next_boundary s start \<and> next_boundary s start \<le> length s
    \<and> is_char_boundary s (next_boundary s start)
    \<and> (\<forall>j. start \<le> j \<and> is_char_boundary s j \<longrightarrow> next_boundary s start \<le> j)"
  using assms
proof (induction s start rule: next_boundary.induct)
  case (1 s start)
  show ?case
  proof (cases "is_char_boundary s start")
    case True
    then show ?thesis using "1.prems" by (simp add: next_boundary.simps [of s start])
  next
    case False
    then have "start \<noteq> length s" using is_char_boundary_ends(2) by metis
    then have "Suc start \<le> length s" using "1.prems" by simp
    then have ih: "Suc start \<le> next_boundary s (Suc start) \<and> next_boundary s (Suc start) \<le> length s
      \<and> is_char_boundary s (next_boundary s (Suc start))
      \<and> (\<forall>j. Suc start \<le> j \<and> is_char_boundary s j \<longrightarrow> next_boundary s (Suc start) \<le> j)"
      using "1.IH" False "1.prems" by simp
    have "next_boundary s start = next_boundary s (Suc start)"
      using False "1.prems" by (simp add: next_boundary.simps [of s start])
    moreover have "Suc start \<le> j" if "start \<le> j" "is_char_boundary s j" for j
      using that False by (metis le_antisym not_less_eq_eq)
    ultimately show ?thesis using ih by auto
  qed
qed



subsection \<open>Secrets\<close>

lemma connection_args_password [simp]: "connection_args (t\<lparr>password := p\<rparr>) = connection_args t"
  by (simp add: connection_args_def)

lemma command_password:
  "program (pg_command_of prog fl (t\<lparr>password := p\<rparr>) tl') = program (pg_command_of prog fl t tl')"
  "args (pg_command_of prog fl (t\<lparr>password := p\<rparr>) tl') = args (pg_command_of prog fl t tl')"
  "map_of (env (pg_command_of prog fl (t\<lparr>password := p\<rparr>) tl')) ''PGPASSWORD'' = Some (expose p)"
  by (simp_all add: pg_command_of_def connection_env_def)

text \<open>
  No command line depends on the database password: replacing
  it changes neither the program nor any argument of the dump, restore and query commands, nor
  the debug output of the target. It reaches the tools through \<^verbatim>\<open>PGPASSWORD\<close> only.
\<close>

lemma password_only_in_env:
  "let t' = t\<lparr>password := p\<rparr> in
   (\<forall>(c, c') \<in> {(dump_command t l f, dump_command t' l f), (restore_command t f, restore_command t' f),
                (query_command t sql, query_command t' sql)}.
      program c' = program c \<and> args c' = args c \<and> map_of (env c') ''PGPASSWORD'' = Some (expose p)
      \<and> filter (\<lambda>v. fst v \<noteq> ''PGPASSWORD'') (env c') = filter (\<lambda>v. fst v \<noteq> ''PGPASSWORD'') (env c))
   \<and> debug_db_target t' = debug_db_target t"
  unfolding dump_command_def restore_command_def query_command_def
  by (simp add: Let_def command_password debug_db_target_def debug_secret_def)
    (simp add: pg_command_of_def connection_env_def)

definition demo_target :: db_target where
  "demo_target = \<lparr>host = ''db'', port = 5432, user = ''u'', password = Secret ''p'', db_name = ''tracker''\<rparr>"

lemma execute_cases:
  assumes "runner self limit cmd w = (r, w')"
  shows "execute self cmd limit w =
    (case r of
       None \<Rightarrow> (Inl (Timeout (program cmd) limit), w')
     | Some (Inl e) \<Rightarrow> (Inl e, w')
     | Some (Inr out) \<Rightarrow>
         (if success out then Inr (stdout out)
          else Inl (Process (program cmd) (status out) (tail (stderr out) STDERR_LIMIT)), w'))"
  using assms by (auto simp: execute_def map_io_def split: option.splits sum.splits)

lemma execute_ok_iff:
  "execute self cmd limit w = (Inr s, w') \<longleftrightarrow>
     (\<exists>out. runner self limit cmd w = (Some (Inr out), w') \<and> success out \<and> stdout out = s)"
  by (cases "runner self limit cmd w") (auto simp: execute_cases split: option.splits sum.splits if_splits)

end
