(* ===== verification/Settings.thy ===== *)
theory Settings
  imports Pg Std_Parse
begin

text \<open>
  The configuration (\<^verbatim>\<open>settings.rs\<close>): read once from the environment, checked completely before the
  server starts.
\<close>

section \<open>Reading the configuration\<close>

definition DEFAULT_DATA_FOLDER :: string where "DEFAULT_DATA_FOLDER = ''data''"
definition DEFAULT_DB_PORT :: "16 word" where "DEFAULT_DB_PORT = 5432"
definition DEFAULT_LISTEN_ADDR :: string where "DEFAULT_LISTEN_ADDR = ''0.0.0.0:50051''"
definition DEFAULT_PG_TIMEOUT_SECS :: nat where "DEFAULT_PG_TIMEOUT_SECS = 60 * 60"

lemmas [fb_const] = DEFAULT_DATA_FOLDER_def DEFAULT_DB_PORT_def DEFAULT_LISTEN_ADDR_def
  DEFAULT_PG_TIMEOUT_SECS_def

record settings =
  cfg_listen_addr :: socket_addr
  cfg_db :: db_target
  cfg_comp_level :: zstd_level
  cfg_drive_creds :: secret
  cfg_drive_folder_id :: string
  cfg_data_folder :: path
  cfg_retention :: "nat option"
  cfg_pg_timeout :: duration

text \<open>\<open>from_str\<close> is the parser of the type, with its error as a text.\<close>

definition parse_value :: "(string \<Rightarrow> string + 'a) \<Rightarrow> string \<Rightarrow> string \<Rightarrow> 'a result" where
  "parse_value from_str key value =
     map_err (\<lambda>e. Config (key @ '': invalid value '' @ quoted value @ '': '' @ e)) (from_str value)"

definition int_from_str :: "(string \<Rightarrow> int_error + 'a) \<Rightarrow> string \<Rightarrow> string + 'a" where
  "int_from_str p s = map_err display_int_error (p s)"

definition required_key :: "(string \<Rightarrow> string option) \<Rightarrow> string \<Rightarrow> string result" where
  "required_key get key = ok_or (Config (key @ '' is required'')) (get key)"

definition read_db :: "(string \<Rightarrow> string option) \<Rightarrow> db_target result" where
  "read_db get =
     and_then (required_key get ''DB_HOST'') (\<lambda>h.
     and_then (case get ''DB_PORT'' of
                 Some v \<Rightarrow> parse_value (int_from_str parse_u16) ''DB_PORT'' v
               | None \<Rightarrow> Inr DEFAULT_DB_PORT) (\<lambda>p.
     and_then (required_key get ''DB_USERNAME'') (\<lambda>u.
     and_then (required_key get ''DB_PASSWORD'') (\<lambda>pw.
     and_then (required_key get ''DB_NAME'') (\<lambda>n.
       Inr \<lparr>host = h, port = p, user = u, password = Secret pw, db_name = n\<rparr>)))))"

definition read_comp_level :: "(string \<Rightarrow> string option) \<Rightarrow> zstd_level result" where
  "read_comp_level get =
     (case get ''COMPRESSION_LEVEL'' of
        Some v \<Rightarrow> and_then (parse_value (int_from_str parse_i64) ''COMPRESSION_LEVEL'' v) zstd_new
      | None \<Rightarrow> Inr zstd_default)"

definition read_retention :: "(string \<Rightarrow> string option) \<Rightarrow> nat option result" where
  "read_retention get =
     (case get ''DRIVE_RETENTION_COUNT'' of
        None \<Rightarrow> Inr None
      | Some v \<Rightarrow>
          and_then (parse_value (int_from_str parse_usize) ''DRIVE_RETENTION_COUNT'' v) (\<lambda>n.
            if n = 0 then Inl (Config ''DRIVE_RETENTION_COUNT must be positive'') else Inr (Some n)))"

definition read_pg_timeout :: "(string \<Rightarrow> string option) \<Rightarrow> nat result" where
  "read_pg_timeout get =
     (case get ''PG_TIMEOUT_SECS'' of
        None \<Rightarrow> Inr DEFAULT_PG_TIMEOUT_SECS
      | Some v \<Rightarrow>
          and_then (parse_value (int_from_str parse_u64) ''PG_TIMEOUT_SECS'' v) (\<lambda>n.
            if n = 0 then Inl (Config ''PG_TIMEOUT_SECS must be positive'') else Inr n))"

definition from_source :: "(string \<Rightarrow> string option) \<Rightarrow> settings result" where
  "from_source get =
     and_then (read_db get) (\<lambda>db.
     and_then (read_comp_level get) (\<lambda>comp_level.
     and_then (read_retention get) (\<lambda>retention.
     and_then (read_pg_timeout get) (\<lambda>pg_timeout.
     let listen_addr = (case get ''LISTEN_ADDR'' of Some v \<Rightarrow> v | None \<Rightarrow> DEFAULT_LISTEN_ADDR) in
     and_then (parse_value parse_socket_addr ''LISTEN_ADDR'' listen_addr) (\<lambda>listen_addr.
     and_then (required_key get ''DRIVE_CREDS'') (\<lambda>drive_creds.
     and_then (required_key get ''DRIVE_FOLDER_ID'') (\<lambda>drive_folder_id.
       Inr \<lparr>cfg_listen_addr = listen_addr, cfg_db = db, cfg_comp_level = comp_level,
            cfg_drive_creds = Secret drive_creds, cfg_drive_folder_id = drive_folder_id,
            cfg_data_folder = (case get ''DATA_FOLDER'' of Some v \<Rightarrow> v | None \<Rightarrow> DEFAULT_DATA_FOLDER),
            cfg_retention = retention, cfg_pg_timeout = from_secs pg_timeout\<rparr>)))))))"

text \<open>\<^verbatim>\<open>std::env::var(key).ok()\<close>: a variable whose value is not valid UTF-8 is as good as absent.\<close>

definition from_env :: "(string \<Rightarrow> bytes option) \<Rightarrow> settings result" where
  "from_env environment =
     from_source (\<lambda>key. case environment key of
                          Some v \<Rightarrow> if utf8_valid v then Some v else None
                        | None \<Rightarrow> None)"

section \<open>What is accepted\<close>

lemma parse_value_Inr_iff: "parse_value p k v = Inr x \<longleftrightarrow> p v = Inr x"
  by (simp add: parse_value_def)

lemma int_from_str_Inr_iff: "int_from_str p v = Inr x \<longleftrightarrow> p v = Inr x"
  by (simp add: int_from_str_def)

lemma required_key_Inr_iff: "required_key get k = Inr v \<longleftrightarrow> get k = Some v"
  by (simp add: required_key_def)

lemmas settings_iffs = and_then_Inr_iff parse_value_Inr_iff int_from_str_Inr_iff required_key_Inr_iff

lemma parse_u16_Inr_iff: "parse_u16 v = Inr p \<longleftrightarrow> (\<exists>n\<le>65535. decimal v = Some n \<and> p = of_nat n)"
proof -
  have "parse_u16 v = Inr p \<longleftrightarrow> (\<exists>n. parse_unsigned 65535 v = Inr n \<and> p = of_nat n)"
    by (cases "parse_unsigned 65535 v") (auto simp: parse_u16_def)
  then show ?thesis by (auto simp: parse_unsigned_Inr_iff)
qed

text \<open>The number that the variable \<open>k\<close> holds, if any, lies between \<open>lo\<close> and \<open>hi\<close>.\<close>

definition number_between :: "(string \<Rightarrow> string option) \<Rightarrow> string \<Rightarrow> nat \<Rightarrow> nat \<Rightarrow> bool" where
  "number_between get k lo hi \<longleftrightarrow>
     (case get k of
        None \<Rightarrow> True
      | Some v \<Rightarrow> (case decimal v of None \<Rightarrow> False | Some n \<Rightarrow> lo \<le> n \<and> n \<le> hi))"

lemma is_ok_iff: "is_ok r \<longleftrightarrow> (\<exists>x. r = Inr x)"
  by (cases r) auto

lemma zstd_new_ok: "is_ok (zstd_new x) \<longleftrightarrow> 1 \<le> sint x \<and> sint x \<le> 22"
  using zstd_new_spec [of x] by (auto split: if_splits)

lemma level_accepted:
  "(\<exists>x. parse_i64 v = Inr x \<and> 1 \<le> sint x \<and> sint x \<le> 22) \<longleftrightarrow> (\<exists>n. decimal v = Some n \<and> 1 \<le> n \<and> n \<le> 22)"
proof
  assume "\<exists>x. parse_i64 v = Inr x \<and> 1 \<le> sint x \<and> sint x \<le> 22"
  then show "\<exists>n. decimal v = Some n \<and> 1 \<le> n \<and> n \<le> 22" by (fastforce dest: parse_i64_Inr)
next
  assume "\<exists>n. decimal v = Some n \<and> 1 \<le> n \<and> n \<le> 22"
  then obtain n where "decimal v = Some n" "1 \<le> n" "n \<le> 22" by blast
  then show "\<exists>x. parse_i64 v = Inr x \<and> 1 \<le> sint x \<and> sint x \<le> 22"
    using parse_i64_decimal [of v n] sint_of_nat_64 [of n] by auto
qed

lemma read_comp_level_ok: "is_ok (read_comp_level get) \<longleftrightarrow> number_between get ''COMPRESSION_LEVEL'' 1 22"
proof (cases "get ''COMPRESSION_LEVEL''")
  case (Some v)
  have "is_ok (read_comp_level get) \<longleftrightarrow> (\<exists>x. parse_i64 v = Inr x \<and> is_ok (zstd_new x))"
    using Some by (auto simp: read_comp_level_def is_ok_iff settings_iffs)
  then show ?thesis using Some level_accepted [of v]
    by (auto simp: number_between_def zstd_new_ok split: option.splits)
qed (simp add: read_comp_level_def number_between_def)

lemma positive_Inr_iff: "(if n = 0 then Inl e else Inr y) = Inr z \<longleftrightarrow> 0 < n \<and> y = z" for n :: nat
  by auto

lemma read_retention_Inr_iff:
  "read_retention get = Inr r \<longleftrightarrow>
     (case get ''DRIVE_RETENTION_COUNT'' of
        None \<Rightarrow> r = None
      | Some v \<Rightarrow> \<exists>n. decimal v = Some n \<and> 1 \<le> n \<and> n \<le> 2 ^ 64 - 1 \<and> r = Some n)"
  by (cases "get ''DRIVE_RETENTION_COUNT''")
    (auto simp: read_retention_def settings_iffs parse_usize_def parse_unsigned_Inr_iff positive_Inr_iff)

lemma read_pg_timeout_Inr_iff:
  "read_pg_timeout get = Inr t \<longleftrightarrow>
     (case get ''PG_TIMEOUT_SECS'' of
        None \<Rightarrow> t = 3600
      | Some v \<Rightarrow> decimal v = Some t \<and> 1 \<le> t \<and> t \<le> 2 ^ 64 - 1)"
  by (cases "get ''PG_TIMEOUT_SECS''")
    (auto simp: read_pg_timeout_def settings_iffs parse_u64_def parse_unsigned_Inr_iff positive_Inr_iff fb_const)

lemma read_retention_ok:
  "is_ok (read_retention get) \<longleftrightarrow> number_between get ''DRIVE_RETENTION_COUNT'' 1 (2 ^ 64 - 1)"
  by (auto simp: is_ok_iff read_retention_Inr_iff number_between_def split: option.splits)

lemma read_pg_timeout_ok:
  "is_ok (read_pg_timeout get) \<longleftrightarrow> number_between get ''PG_TIMEOUT_SECS'' 1 (2 ^ 64 - 1)"
  by (auto simp: is_ok_iff read_pg_timeout_Inr_iff number_between_def split: option.splits)

lemma read_db_Inr_iff:
  "read_db get = Inr db \<longleftrightarrow>
     get ''DB_HOST'' = Some (host db) \<and> get ''DB_USERNAME'' = Some (user db)
     \<and> get ''DB_PASSWORD'' = Some (expose (password db)) \<and> get ''DB_NAME'' = Some (db_name db)
     \<and> (case get ''DB_PORT'' of None \<Rightarrow> port db = 5432 | Some v \<Rightarrow> parse_u16 v = Inr (port db))"
  by (cases db; cases "password db"; cases "get ''DB_PORT''")
    (auto simp: read_db_def settings_iffs fb_const)

lemma read_db_ok:
  "is_ok (read_db get) \<longleftrightarrow>
     (\<forall>k\<in>{''DB_HOST'', ''DB_USERNAME'', ''DB_PASSWORD'', ''DB_NAME''}. get k \<noteq> None)
     \<and> number_between get ''DB_PORT'' 0 65535"
  by (cases "get ''DB_PORT''")
    (auto simp: read_db_def is_ok_iff settings_iffs number_between_def parse_u16_Inr_iff split: option.splits)

lemma from_source_Inr_iff:
  "from_source get = Inr cfg \<longleftrightarrow>
     read_db get = Inr (cfg_db cfg) \<and> read_comp_level get = Inr (cfg_comp_level cfg)
     \<and> read_retention get = Inr (cfg_retention cfg)
     \<and> (\<exists>t. read_pg_timeout get = Inr t \<and> cfg_pg_timeout cfg = from_secs t)
     \<and> parse_socket_addr (case get ''LISTEN_ADDR'' of Some v \<Rightarrow> v | None \<Rightarrow> DEFAULT_LISTEN_ADDR) = Inr (cfg_listen_addr cfg)
     \<and> get ''DRIVE_CREDS'' = Some (expose (cfg_drive_creds cfg))
     \<and> get ''DRIVE_FOLDER_ID'' = Some (cfg_drive_folder_id cfg)
     \<and> cfg_data_folder cfg = (case get ''DATA_FOLDER'' of Some v \<Rightarrow> v | None \<Rightarrow> DEFAULT_DATA_FOLDER)"
  by (cases cfg; cases "cfg_drive_creds cfg") (auto simp: from_source_def settings_iffs Let_def)

lemma from_source_ok:
  "is_ok (from_source get) \<longleftrightarrow>
     is_ok (read_db get) \<and> is_ok (read_comp_level get) \<and> is_ok (read_retention get)
     \<and> is_ok (read_pg_timeout get)
     \<and> is_ok (parse_socket_addr (case get ''LISTEN_ADDR'' of Some v \<Rightarrow> v | None \<Rightarrow> DEFAULT_LISTEN_ADDR))
     \<and> get ''DRIVE_CREDS'' \<noteq> None \<and> get ''DRIVE_FOLDER_ID'' \<noteq> None"
  by (auto simp: from_source_def is_ok_iff settings_iffs Let_def)

section \<open>Properties\<close>

definition REQUIRED :: "string list" where
  "REQUIRED = [''DB_HOST'', ''DB_USERNAME'', ''DB_PASSWORD'', ''DB_NAME'', ''DRIVE_CREDS'', ''DRIVE_FOLDER_ID'']"

lemma default_listen_addr: "parse_socket_addr ''0.0.0.0:50051'' = Inr (V4 [0, 0, 0, 0] 50051)"
proof -
  have "show_v4 0 0 0 0 50051 = ''0.0.0.0:50051''" by (simp add: show_v4_def show_nat.simps)
  then show ?thesis using parse_show_v4 [of 0 0 0 0 50051] by simp
qed

text \<open>
  Claim C18 (settings_accepted). The server starts with exactly the environments in which the six required
  variables are set, the port is a number up to 65535, the compression level lies in 1..22, the
  retention count and the timeout are positive and fit in 64 bits, and the listening address, if
  given, is a socket address. Everything else is rejected.
\<close>

theorem settings_accepted:
  "is_ok (from_source get) \<longleftrightarrow>
     (\<forall>k\<in>set REQUIRED. get k \<noteq> None)
     \<and> number_between get ''DB_PORT'' 0 65535
     \<and> number_between get ''COMPRESSION_LEVEL'' 1 22
     \<and> number_between get ''DRIVE_RETENTION_COUNT'' 1 (2 ^ 64 - 1)
     \<and> number_between get ''PG_TIMEOUT_SECS'' 1 (2 ^ 64 - 1)
     \<and> (case get ''LISTEN_ADDR'' of None \<Rightarrow> True | Some v \<Rightarrow> is_ok (parse_socket_addr v))"
  unfolding from_source_ok read_db_ok read_comp_level_ok read_retention_ok read_pg_timeout_ok
  by (cases "get ''LISTEN_ADDR''") (auto simp: REQUIRED_def fb_const default_listen_addr)


text \<open>Two results that agree in whether and how they fail.\<close>

definition same_error :: "'e + 'a \<Rightarrow> 'e + 'b \<Rightarrow> bool" where
  "same_error r r' \<longleftrightarrow> (\<forall>x. r = Inl x \<longleftrightarrow> r' = Inl x)"

lemma same_error_refl: "same_error r r"
  by (simp add: same_error_def)

lemma same_error_Inr: "same_error (Inr a) (Inr b)"
  by (simp add: same_error_def)

lemma same_error_and_then:
  "same_error r r' \<Longrightarrow> (\<And>a b. same_error (f a) (f' b)) \<Longrightarrow> same_error (and_then r f) (and_then r' f')"
  by (cases r; cases r') (auto simp: same_error_def)

lemma same_error_and_then_eq:
  "(\<And>a. same_error (f a) (f' a)) \<Longrightarrow> same_error (and_then r f) (and_then r f')"
  by (cases r) (auto simp: same_error_def)

text \<open>
  Claim C37 (settings_errors_hide_secrets). Why a configuration is rejected never tells the password or the
  credentials: two environments that differ only in their values are rejected with the same error.
\<close>

theorem settings_errors_hide_secrets:
  assumes "\<forall>k. k \<notin> {''DB_PASSWORD'', ''DRIVE_CREDS''} \<longrightarrow> get k = get' k"
    and "\<forall>k. get k = None \<longleftrightarrow> get' k = None" and "from_source get = Inl e"
  shows "from_source get' = Inl e"
proof -
  have same: "read_comp_level get' = read_comp_level get" "read_retention get' = read_retention get"
    "read_pg_timeout get' = read_pg_timeout get" "get' ''LISTEN_ADDR'' = get ''LISTEN_ADDR''"
    "get' ''DB_PORT'' = get ''DB_PORT''"
    using assms(1) by (simp_all add: read_comp_level_def read_retention_def read_pg_timeout_def)
  have key: "same_error (required_key get k) (required_key get' k)" for k
    using assms(2) [rule_format, of k] by (cases "get k"; cases "get' k") (auto simp: required_key_def same_error_def)
  have db: "same_error (read_db get) (read_db get')"
    unfolding read_db_def same by (intro same_error_and_then key same_error_refl same_error_Inr)
  have "same_error (from_source get) (from_source get')"
    unfolding from_source_def same Let_def
    by (intro same_error_and_then same_error_and_then_eq db key same_error_refl same_error_Inr)
  then show ?thesis using assms(3) unfolding same_error_def by blast
qed

section \<open>Witnesses\<close>

definition demo_env :: "(string \<times> string) list" where
  "demo_env = [(''DB_HOST'', ''tracker-db''), (''DB_USERNAME'', ''tracker''), (''DB_PASSWORD'', ''secret''),
     (''DB_NAME'', ''tracker''), (''DRIVE_CREDS'', ''{}''), (''DRIVE_FOLDER_ID'', ''folder'')]"

lemma demo_env_ok: "is_ok (from_source (map_of demo_env))"
  by (simp add: from_source_ok read_db_ok read_comp_level_ok read_retention_ok read_pg_timeout_ok
      number_between_def demo_env_def default_listen_addr fb_const)

theorem settings_accepted_witness:
  "is_ok (from_source (map_of demo_env))
   \<and> \<not> is_ok (from_source (map_of ((''DRIVE_RETENTION_COUNT'', ''0'') # demo_env)))
   \<and> \<not> is_ok (from_source (map_of (tl demo_env)))"
  using settings_accepted [of "map_of demo_env"] demo_env_ok
    settings_accepted [of "map_of ((''DRIVE_RETENTION_COUNT'', ''0'') # demo_env)"]
    settings_accepted [of "map_of (tl demo_env)"]
  by (simp add: number_between_def decimal_def digit_val_def REQUIRED_def demo_env_def)


theorem settings_errors_hide_secrets_witness:
  "\<exists>e. from_source (map_of ((''DB_PORT'', ''x'') # demo_env)) = Inl e
     \<and> from_source (map_of ((''DB_PASSWORD'', ''other'') # (''DB_PORT'', ''x'') # demo_env)) = Inl e"
proof -
  let ?g = "map_of ((''DB_PORT'', ''x'') # demo_env)"
  let ?h = "map_of ((''DB_PASSWORD'', ''other'') # (''DB_PORT'', ''x'') # demo_env)"
  have "\<not> is_ok (from_source ?g)"
    by (simp add: from_source_ok read_db_ok number_between_def decimal_def digit_val_def)
  then obtain e where e: "from_source ?g = Inl e" by (cases "from_source ?g") auto
  have "\<forall>k. k \<notin> {''DB_PASSWORD'', ''DRIVE_CREDS''} \<longrightarrow> ?g k = ?h k" "\<forall>k. ?g k = None \<longleftrightarrow> ?h k = None"
    by (simp_all add: demo_env_def)
  from settings_errors_hide_secrets [OF this e] e show ?thesis by blast
qed

end
