(* ===== verification/Concurrency.thy ===== *)
theory Concurrency
  imports Service_Safety Transition
begin

text \<open>
  Many requests at once on one \<^verbatim>\<open>BackupService\<close>. A task is the rest of its program with the
  resources it owns. The system makes one event of one task at a time, at the await points, in
  any order; a new request can arrive, and the runtime can drop the future of any task at any
  await point when its client goes away (\<^verbatim>\<open>tonic\<close> cancels it), which drops everything it owns.
\<close>

section \<open>The system\<close>

type_synonym task = "unit prog \<times> resource set"

text \<open>The tasks by number, the write lock, and the files in the data folder.\<close>

record sys =
  tasks :: "nat \<rightharpoonup> task"
  sys_lock :: bool
  disk :: "path set"

definition init_sys :: "path set \<Rightarrow> sys" where
  "init_sys F = \<lparr>tasks = Map.empty, sys_lock = False, disk = F\<rparr>"

text \<open>
  Only the lock and the disk constrain the answers: \<^verbatim>\<open>try_lock\<close> tells the truth, and a new
  temporary file is not there yet. The ports answer anything.
\<close>

fun allowed :: "sys \<Rightarrow> event \<Rightarrow> bool" where
  "allowed s (ELock r) \<longleftrightarrow> r = (\<not> sys_lock s)"
| "allowed s (ETemp suf (Inr f)) \<longleftrightarrow> f \<notin> disk s"
| "allowed s e \<longleftrightarrow> True"

fun effect :: "event \<Rightarrow> sys \<Rightarrow> sys" where
  "effect (ELock True) s = s\<lparr>sys_lock := True\<rparr>"
| "effect (ETemp suf (Inr f)) s = s\<lparr>disk := insert f (disk s)\<rparr>"
| "effect (ERelease Guard) s = s\<lparr>sys_lock := False\<rparr>"
| "effect (ERelease (Temp f)) s = s\<lparr>disk := disk s - {f}\<rparr>"
| "effect e s = s"

text \<open>Everything in \<open>H\<close> is dropped at once.\<close>

definition drop_all :: "resource set \<Rightarrow> sys \<Rightarrow> sys" where
  "drop_all H s = s\<lparr>sys_lock := sys_lock s \<and> Guard \<notin> H, disk := disk s - {f. Temp f \<in> H}\<rparr>"

datatype action = Arrive request | Act event | Cancel | Finish

inductive sys_step :: "'a service_deps_scheme \<Rightarrow> sys \<Rightarrow> nat \<times> action \<Rightarrow> sys \<Rightarrow> bool" for deps where
  arrive: "tasks s i = None \<Longrightarrow>
     sys_step deps s (i, Arrive req) (s\<lparr>tasks := (tasks s)(i \<mapsto> (serve deps req, {}))\<rparr>)"
| act: "tasks s i = Some (p, H) \<Longrightarrow> pstep p e p' \<Longrightarrow> allowed s e \<Longrightarrow>
     sys_step deps s (i, Act e) ((effect e s)\<lparr>tasks := (tasks s)(i \<mapsto> (p', held_after H e))\<rparr>)"
| cancel: "tasks s i = Some (p, H) \<Longrightarrow>
     sys_step deps s (i, Cancel) ((drop_all H s)\<lparr>tasks := (tasks s)(i := None)\<rparr>)"
| finish: "tasks s i = Some (Ret (), H) \<Longrightarrow>
     sys_step deps s (i, Finish) (s\<lparr>tasks := (tasks s)(i := None)\<rparr>)"

section \<open>Reachable states\<close>

text \<open>The states of a system that started with the files \<open>F\<close> in its folder.\<close>

definition sys_reachable :: "'a service_deps_scheme \<Rightarrow> path set \<Rightarrow> sys \<Rightarrow> bool" where
  "sys_reachable deps F = reachable (\<lambda>s. s = init_sys F) (sys_step deps)"

lemma sys_reachable_init: "sys_reachable deps F (init_sys F)"
  by (simp add: sys_reachable_def reachable.init)

lemma sys_reachable_step: "sys_reachable deps F s \<Longrightarrow> sys_step deps s l t \<Longrightarrow> sys_reachable deps F t"
  unfolding sys_reachable_def by (rule reachable.step)

section \<open>The invariant\<close>

text \<open>
  Every task owns what its program needs; no resource has two owners; the lock is taken exactly
  when some task owns the guard; and the folder holds exactly its first files and the temporary
  files of the tasks.
\<close>

definition owners :: "sys \<Rightarrow> resource \<Rightarrow> nat set" where
  "owners s x = {i. \<exists>p H. tasks s i = Some (p, H) \<and> x \<in> H}"

definition sys_inv :: "path set \<Rightarrow> sys \<Rightarrow> bool" where
  "sys_inv F s \<longleftrightarrow>
     (\<forall>i p H. tasks s i = Some (p, H) \<longrightarrow> owned p H (\<lambda>_ H'. H' = {}))
     \<and> (\<forall>x i j. i \<in> owners s x \<longrightarrow> j \<in> owners s x \<longrightarrow> i = j)
     \<and> (sys_lock s \<longleftrightarrow> owners s Guard \<noteq> {})
     \<and> (\<forall>f. f \<in> disk s \<longleftrightarrow> f \<in> F \<or> owners s (Temp f) \<noteq> {})
     \<and> (\<forall>f\<in>F. owners s (Temp f) = {})"

lemma owners_put:
  "tasks t = (tasks s)(i \<mapsto> (p, H)) \<Longrightarrow>
     owners t x = (if x \<in> H then insert i (owners s x) else owners s x - {i})"
  by (auto simp: owners_def)

lemma owners_drop: "tasks t = (tasks s)(i := None) \<Longrightarrow> owners t x = owners s x - {i}"
  by (auto simp: owners_def)

lemma owners_iff: "tasks s i = Some (p, H) \<Longrightarrow> i \<in> owners s x \<longleftrightarrow> x \<in> H"
  by (auto simp: owners_def)

lemma sys_inv_fresh:
  "sys_inv F s \<Longrightarrow> tasks s i = Some (p, H) \<Longrightarrow> allowed s e \<Longrightarrow> fresh_event H e"
  by (cases "(H, e)" rule: fresh_event.cases) (auto simp: sys_inv_def owners_def)

text \<open>One owner at most, so the other tasks own nothing of what \<open>i\<close> owns.\<close>

lemma sys_inv_single: "sys_inv F s \<Longrightarrow> tasks s i = Some (p, H) \<Longrightarrow> x \<in> H \<Longrightarrow> owners s x = {i}"
  unfolding sys_inv_def by (auto simp: owners_iff)

lemma sys_inv_foreign: "sys_inv F s \<Longrightarrow> tasks s i = Some (p, H) \<Longrightarrow> Temp f \<in> H \<Longrightarrow> f \<notin> F"
  using sys_inv_single [of F s i p H "Temp f"] unfolding sys_inv_def by blast

lemma effect_tasks [simp]: "tasks (effect e s) = tasks s"
  by (cases "(e, s)" rule: effect.cases) auto

lemma sys_inv_act:
  assumes inv: "sys_inv F s" and task: "tasks s i = Some (p, H)" and step: "pstep p e p'" and ok: "allowed s e"
  shows "sys_inv F ((effect e s)\<lparr>tasks := (tasks s)(i \<mapsto> (p', held_after H e))\<rparr>)"
proof -
  let ?t = "(effect e s)\<lparr>tasks := (tasks s)(i \<mapsto> (p', held_after H e))\<rparr>"
  have "owned p H (\<lambda>_ H'. H' = {})" using inv task by (auto simp: sys_inv_def)
  then have own: "owned p' (held_after H e) (\<lambda>_ H'. H' = {})" and needs: "event_needs e \<subseteq> H"
    using owned_pstep [OF step] sys_inv_fresh [OF inv task ok] by blast+
  have put: "owners ?t x = (if x \<in> held_after H e then insert i (owners s x) else owners s x - {i})" for x
    by (rule owners_put) simp
  have mem: "i \<in> owners s x \<longleftrightarrow> x \<in> H" for x using task by (rule owners_iff)
  have tasks: "\<forall>j q K. tasks ?t j = Some (q, K) \<longrightarrow> owned q K (\<lambda>_ H'. H' = {})"
    using inv own by (auto simp: sys_inv_def)
  have same: ?thesis if "held_after H e = H" "effect e s = s"
  proof -
    have "owners ?t x = owners s x" for x using put mem that(1) by auto
    then show ?thesis using inv tasks that by (simp add: sys_inv_def)
  qed
  show ?thesis
  proof (cases "(H, e)" rule: held_after.cases)
    case (1 K)
    then have free: "owners s Guard = {}" using inv ok by (simp add: sys_inv_def)
    have "owners ?t x = (if x = Guard then {i} else owners s x)" for x
      using put mem free 1 by auto
    then show ?thesis using inv own 1 by (auto simp: sys_inv_def)
  next
    case (2 K suf f)
    then have new: "f \<notin> disk s" using ok by simp
    then have free: "owners s (Temp f) = {}" "f \<notin> F" using inv by (auto simp: sys_inv_def)
    have "owners ?t x = (if x = Temp f then {i} else owners s x)" for x
      using put mem free 2 by auto
    then show ?thesis using inv own 2 free by (auto simp: sys_inv_def)
  next
    case (3 K x)
    have "owners s x = {i}" using sys_inv_single [OF inv task] needs 3 by simp
    then have own3: "owners ?t y = (if y = x then {} else owners s y)" for y
      using put mem 3 by auto
    have "f \<notin> F" if "x = Temp f" for f using sys_inv_foreign [OF inv task] needs 3 that by simp
    then show ?thesis using inv own own3 3 by (cases x) (auto simp: sys_inv_def)
  qed (use same in simp_all)
qed

lemma sys_inv_step:
  assumes "sys_inv F s" and "sys_step deps s l t"
  shows "sys_inv F t"
  using assms(2)
proof cases
  case (arrive i req)
  have "owners t x = owners s x" for x
    using owners_put [of t s i "serve deps req" "{}" x] arrive by (auto simp: owners_def)
  then show ?thesis using assms(1) arrive owned_serve by (auto simp: sys_inv_def)
next
  case (act i p H e p')
  then show ?thesis using sys_inv_act [OF assms(1)] by simp
next
  case (cancel i p H)
  have own: "owners t x = owners s x - {i}" for x using cancel by (intro owners_drop) simp
  have mem: "i \<in> owners s x \<longleftrightarrow> x \<in> H" for x using cancel by (intro owners_iff)
  have gone: "owners t x = (if x \<in> H then {} else owners s x)" for x
    using own mem sys_inv_single [OF assms(1)] cancel by auto
  have old: "f \<notin> F" if "Temp f \<in> H" for f
    using that cancel sys_inv_foreign [OF assms(1)] by blast
  have "sys_lock t \<longleftrightarrow> sys_lock s \<and> Guard \<notin> H" "disk t = disk s - {f. Temp f \<in> H}"
    using cancel by (simp_all add: drop_all_def)
  moreover have "tasks t = (tasks s)(i := None)" using cancel by simp
  ultimately show ?thesis
    using assms(1) gone old unfolding sys_inv_def by (auto split: if_splits)
next
  case (finish i H)
  then have "owned (Ret ()) H (\<lambda>_ H'. H' = {})" using assms(1) unfolding sys_inv_def by blast
  then have "H = {}" by simp
  then have "owners t x = owners s x" for x
    using owners_drop [of t s i x] owners_iff [of s i "Ret ()" H x] finish by auto
  then show ?thesis using assms(1) finish by (auto simp: sys_inv_def)
qed

interpretation service: invariant_system "\<lambda>s. s = init_sys F" "sys_step deps" "sys_inv F" for F deps
proof
  show "sys_inv F s" if "s = init_sys F" for s
    using that by (simp add: sys_inv_def owners_def init_sys_def)
qed (rule sys_inv_step)

lemma reachable_sys_inv: "sys_reachable deps F s \<Longrightarrow> sys_inv F s"
  unfolding sys_reachable_def by (rule service.reachable_inv)

section \<open>Properties\<close>

fun writes_db :: "'r prog \<Rightarrow> bool" where
  "writes_db (DoUnit (Dump f) k) = True"
| "writes_db (DoUnit (RestoreDb f) k) = True"
| "writes_db p = False"

lemma writes_db_owner:
  assumes "sys_inv F s" and "tasks s i = Some (p, H)" and "writes_db p"
  shows "i \<in> owners s Guard"
proof -
  have "owned p H (\<lambda>_ H'. H' = {})" using assms(1,2) by (auto simp: sys_inv_def)
  then have "Guard \<in> H" using assms(3) by (cases p rule: writes_db.cases) auto
  then show ?thesis using owners_iff [OF assms(2)] by simp
qed

text \<open>
  Claim C2 (mutual_exclusion). However the requests of any number of clients interleave, and whichever
  of them are cancelled, at most one task is dumping or overwriting the database, and the write
  lock is taken while it does.
\<close>

theorem mutual_exclusion:
  assumes "sys_reachable deps F s" and "tasks s i = Some (p, H)" and "writes_db p"
  shows "sys_lock s \<and> (\<forall>j q K. tasks s j = Some (q, K) \<and> writes_db q \<longrightarrow> j = i)"
proof -
  note inv = reachable_sys_inv [OF assms(1)]
  have i: "i \<in> owners s Guard" by (rule writes_db_owner [OF inv assms(2,3)])
  then have "sys_lock s" using inv by (auto simp: sys_inv_def)
  moreover have "j = i" if "tasks s j = Some (q, K)" "writes_db q" for j q K
    using writes_db_owner [OF inv that] i inv unfolding sys_inv_def by blast
  ultimately show ?thesis by blast
qed


subsection \<open>Refinement of a single-owner lock\<close>

text \<open>
  What the requests do to the database and its lock, seen from above: at most one task owns the
  database; it acquires it when it is free, works on it, and frees it. Dropping the future of the
  owner frees it too.
\<close>

datatype db_op = Acquire | Work | Free | Other

fun db_step :: "nat option \<Rightarrow> nat \<times> db_op \<Rightarrow> nat option \<Rightarrow> bool" where
  "db_step owner (i, Acquire) owner' \<longleftrightarrow> owner = None \<and> owner' = Some i"
| "db_step owner (i, Work) owner' \<longleftrightarrow> owner = Some i \<and> owner' = Some i"
| "db_step owner (i, Free) owner' \<longleftrightarrow> owner = Some i \<and> owner' = None"
| "db_step owner (i, Other) owner' \<longleftrightarrow> owner' = owner"

fun event_op :: "event \<Rightarrow> db_op" where
  "event_op (ELock True) = Acquire"
| "event_op (EUnit (Dump f) r) = Work"
| "event_op (EUnit (RestoreDb f) r) = Work"
| "event_op (ERelease Guard) = Free"
| "event_op e = Other"

fun action_op :: "sys \<Rightarrow> nat \<times> action \<Rightarrow> db_op" where
  "action_op s (i, Act e) = event_op e"
| "action_op s (i, Cancel) = (if i \<in> owners s Guard then Free else Other)"
| "action_op s (i, a) = Other"

definition owned_by :: "sys \<Rightarrow> nat option \<Rightarrow> bool" where
  "owned_by s owner \<longleftrightarrow> owners s Guard = set_option owner"

lemma owned_by_single: "owned_by s owner \<Longrightarrow> i \<in> owners s Guard \<Longrightarrow> owner = Some i"
  by (cases owner) (auto simp: owned_by_def)

lemma owned_by_act:
  assumes "sys_inv F s" and "tasks s i = Some (p, H)" and "pstep p e p'" and "allowed s e" and "owned_by s owner"
  defines "t \<equiv> (effect e s)\<lparr>tasks := (tasks s)(i \<mapsto> (p', held_after H e))\<rparr>"
  shows "\<exists>owner'. db_step owner (i, event_op e) owner' \<and> owned_by t owner'"
proof -
  have put: "owners t Guard = (if Guard \<in> held_after H e then insert i (owners s Guard) else owners s Guard - {i})"
    by (rule owners_put [of t s i p']) (simp add: t_def)
  have mem: "i \<in> owners s Guard \<longleftrightarrow> Guard \<in> H" by (rule owners_iff [OF assms(2)])
  have needs: "event_needs e \<subseteq> H"
    using owned_pstep [OF assms(3) _ sys_inv_fresh [OF assms(1,2,4)]] assms(1,2) unfolding sys_inv_def by blast
  have temp: "Guard \<in> held_after H (ETemp suf r) \<longleftrightarrow> Guard \<in> H" for suf r by (cases r) auto
  have free: "owner = None" if "\<not> sys_lock s"
    using that assms(1,5) by (cases owner) (auto simp: sys_inv_def owned_by_def)
  have mine: "owner = Some i" if "Guard \<in> H" using owned_by_single [OF assms(5)] mem that by blast
  show ?thesis
    using put mem needs free mine assms(4,5)
    by (cases e rule: event_op.cases) (auto simp: owned_by_def temp split: if_splits)
qed

text \<open>
  Claim C11 (lock_refinement). The server with all its clients implements the single-owner lock: every step
  of the system, at any moment, is a step of the abstract lock by the same task, where a dump and
  a restore are work of the owner and the cancellation of the owner frees the database.
\<close>

theorem lock_refinement:
  assumes "sys_reachable deps F s" and "sys_step deps s (i, a) t" and "owned_by s owner"
  shows "\<exists>owner'. db_step owner (i, action_op s (i, a)) owner' \<and> owned_by t owner'"
  using assms(2)
proof cases
  case (arrive req)
  have "owners t Guard = owners s Guard"
    using owners_put [of t s i "serve deps req" "{}" Guard] arrive by (auto simp: owners_def)
  then show ?thesis using assms(3) arrive by (auto simp: owned_by_def)
next
  case (act p H e p')
  then show ?thesis using owned_by_act [OF reachable_sys_inv [OF assms(1)] act(3-5) assms(3)] by simp
next
  case (cancel p H)
  have "owners t Guard = owners s Guard - {i}" using cancel by (intro owners_drop) simp
  then show ?thesis using assms(3) cancel owned_by_single [OF assms(3)] by (auto simp: owned_by_def)
next
  case (finish H)
  then have "owned (Ret ()) H (\<lambda>_ H'. H' = {})"
    using reachable_sys_inv [OF assms(1)] unfolding sys_inv_def by blast
  then have "H = {}" by simp
  then have "owners t Guard = owners s Guard"
    using owners_drop [of t s i Guard] owners_iff [of s i "Ret ()" H Guard] finish by auto
  then show ?thesis using assms(3) finish by (auto simp: owned_by_def)
qed

subsection \<open>Progress\<close>

lemma finite_disk: "sys_reachable deps F s \<Longrightarrow> finite F \<Longrightarrow> finite (disk s)"
  unfolding sys_reachable_def
proof (induction rule: reachable.induct)
  case (step s l t)
  have "finite (disk (effect e s))" for e
    using step by (cases "(e, s)" rule: effect.cases) auto
  then show ?case using step by (auto elim!: sys_step.cases simp: drop_all_def)
qed (simp add: init_sys_def)


text \<open>Two clients ask for a backup; the first has the lock and is about to dump.\<close>

lemma demo_first_steps:
  "\<exists>p q. pstep (serve demo_deps CreateBackup) (ELock True) p \<and> pstep p (ETemp ''.pgdump'' (Inr ''f'')) q
     \<and> writes_db q"
  by (simp add: create_backup_def with_lock_def dump_and_upload_def temp_file_def call_unit_def scoped_def
      try_prog_def ex_bool_eq map_err_def)

lemma demo_dumping:
  "\<exists>s q. sys_reachable demo_deps {} s \<and> tasks s 0 = Some (q, {Guard, Temp ''f''}) \<and> writes_db q
     \<and> tasks s 1 = Some (serve demo_deps CreateBackup, {}) \<and> disk s = {''f''} \<and> sys_lock s"
proof -
  define p0 where "p0 = serve demo_deps CreateBackup"
  obtain p q where p: "pstep p0 (ELock True) p" and q: "pstep p (ETemp ''.pgdump'' (Inr ''f'')) q"
    and w: "writes_db q"
    using demo_first_steps unfolding p0_def by blast
  define s1 where "s1 = \<lparr>tasks = [0 \<mapsto> (p0, {})], sys_lock = False, disk = {}\<rparr>"
  define s2 where "s2 = \<lparr>tasks = [0 \<mapsto> (p, {Guard})], sys_lock = True, disk = {}\<rparr>"
  define s3 where "s3 = \<lparr>tasks = [0 \<mapsto> (q, {Guard, Temp ''f''})], sys_lock = True, disk = {''f''}\<rparr>"
  define s4 where "s4 = s3\<lparr>tasks := (tasks s3)(1 \<mapsto> (p0, {}))\<rparr>"
  have 1: "sys_step demo_deps (init_sys {}) (0, Arrive CreateBackup) s1"
    using arrive [of "init_sys {}" 0 demo_deps CreateBackup] by (simp add: s1_def init_sys_def p0_def)
  have 2: "sys_step demo_deps s1 (0, Act (ELock True)) s2"
    using act [of s1 0 p0 "{}" "ELock True" p demo_deps] p by (simp add: s1_def s2_def)
  have 3: "sys_step demo_deps s2 (0, Act (ETemp ''.pgdump'' (Inr ''f''))) s3"
    using act [of s2 0 p "{Guard}" "ETemp ''.pgdump'' (Inr ''f'')" q demo_deps] q
    by (simp add: s2_def s3_def insert_commute)
  have 4: "sys_step demo_deps s3 (1, Arrive CreateBackup) s4"
    using arrive [of s3 1 demo_deps CreateBackup] by (simp add: s3_def s4_def p0_def)
  have "sys_reachable demo_deps {} s4"
    by (intro sys_reachable_step [OF _ 4] sys_reachable_step [OF _ 3] sys_reachable_step [OF _ 2]
        sys_reachable_step [OF _ 1] sys_reachable_init)
  then show ?thesis using w by (intro exI [of _ s4]) (simp add: s4_def s3_def p0_def)
qed

theorem mutual_exclusion_witness:
  "\<exists>s p H. sys_reachable demo_deps {} s \<and> tasks s 0 = Some (p, H) \<and> writes_db p \<and> tasks s 1 \<noteq> None
     \<and> sys_lock s \<and> (\<forall>j q K. tasks s j = Some (q, K) \<and> writes_db q \<longrightarrow> j = 0)"
proof -
  obtain s q where s: "sys_reachable demo_deps {} s" "tasks s 0 = Some (q, {Guard, Temp ''f''})" "writes_db q"
      "tasks s 1 = Some (serve demo_deps CreateBackup, {})"
    using demo_dumping by blast
  show ?thesis using mutual_exclusion [OF s(1-3)] s by (intro exI [of _ s]) simp
qed

theorem lock_refinement_witness:
  "\<exists>s t owner'. sys_reachable demo_deps {} s \<and> owned_by s (Some 0) \<and> sys_step demo_deps s (0, Cancel) t
     \<and> db_step (Some 0) (0, action_op s (0, Cancel)) owner' \<and> owned_by t owner'"
proof -
  obtain s q where s: "sys_reachable demo_deps {} s" "tasks s 0 = Some (q, {Guard, Temp ''f''})"
    using demo_dumping by blast
  have "owners s Guard = {0}" using sys_inv_single [OF reachable_sys_inv [OF s(1)] s(2)] by simp
  then have own: "owned_by s (Some 0)" by (simp add: owned_by_def)
  show ?thesis
    using lock_refinement [OF s(1) cancel [OF s(2)] own] s(1) own cancel [OF s(2)] by blast
qed



end
