(* ===== verification/Server.thy ===== *)
theory Server
  imports Grpc Drive_Storage Settings Concurrency
begin

text \<open>
  The server as \<^verbatim>\<open>main.rs\<close> assembles it: the configuration, the connection to Drive (\<^verbatim>\<open>client.rs\<close>),
  the PostgreSQL tools and the storage as the ports of the service, and what the contracts of
  the parts give for the whole.
\<close>

section \<open>The platform\<close>

text \<open>
  What the operating system and the runtime provide: child processes, time limits, the pool of
  blocking threads, the clock, the zstd decoder and MD5.
\<close>

record 'e platform =
  os_spawn :: "string \<Rightarrow> string list \<Rightarrow> (string \<times> string) list \<Rightarrow> ('e world, io_error + process_output) io"
  os_timeout :: "duration \<Rightarrow> ('e world, command_output result) io \<Rightarrow> ('e world, command_output result option) io"
  os_blocking :: "('e world, unit result) io \<Rightarrow> ('e world, string + unit result) io"
  os_now :: "('e world, datetime) io"
  os_copy_decode :: "bytes \<Rightarrow> path \<Rightarrow> ('e world, io_error + unit) io"
  os_md5_hex :: "bytes \<Rightarrow> string"

section \<open>The connection to Drive\<close>

definition CONNECT_TIMEOUT :: duration where "CONNECT_TIMEOUT = from_secs 10"

text \<open>The options that the connector is built with; \<open>'r\<close> are the roots of trust.\<close>

record 'r connector =
  enforce_http :: bool
  connect_timeout :: "duration option"
  tls_roots :: 'r
  https_only :: bool
  http1 :: bool
  http2 :: bool

text \<open>The HTTP, TLS and OAuth libraries, with the text of their errors.\<close>

record ('e, 'k, 'r, 'a) google =
  parse_service_account_key :: "string \<Rightarrow> string + 'k"
  native_roots :: "('e world, string + 'r) io"
  build_authenticator :: "'k \<Rightarrow> 'r connector \<Rightarrow> ('e world, string + 'a) io"
  new_hub :: "'r connector \<Rightarrow> 'a \<Rightarrow> 'e drive_hub"

definition build_connector :: "('e, 'k, 'r, 'a) google \<Rightarrow> ('e world, 'r connector result) io" where
  "build_connector g =
     try_io (map_io (map_err (\<lambda>e. Storage (''Could not load native TLS roots: '' @ e))) (native_roots g)) (\<lambda>roots.
     return_io (Inr \<lparr>enforce_http = False, connect_timeout = Some CONNECT_TIMEOUT, tls_roots = roots,
                     https_only = True, http1 = True, http2 = True\<rparr>))"

definition build_hub :: "('e, 'k, 'r, 'a) google \<Rightarrow> string \<Rightarrow> ('e world, 'e drive_hub result) io" where
  "build_hub g creds =
     (case parse_service_account_key g creds of
        Inl e \<Rightarrow> return_io (Inl (Config (''Could not parse drive creds: '' @ e)))
      | Inr key \<Rightarrow>
          try_io (build_connector g) (\<lambda>auth_connector.
          try_io (map_io (map_err (\<lambda>e. Storage (''Could not build drive authenticator: '' @ e)))
                    (build_authenticator g key auth_connector)) (\<lambda>auth.
          try_io (build_connector g) (\<lambda>connector.
          return_io (Inr (new_hub g connector auth))))))"

definition connect ::
  "('e, 'k, 'r, 'a) google \<Rightarrow> string \<Rightarrow> string \<Rightarrow> drive_options \<Rightarrow> ('e world, 'e gdrive result) io" where
  "connect g creds folder options =
     try_io (build_hub g creds) (\<lambda>h. return_io (Inr \<lparr>hub = h, folder_id = folder, opts = options\<rparr>))"

section \<open>Assembly\<close>

definition system_clock :: "'e platform \<Rightarrow> ('e world, datetime) io" where
  "system_clock os = os_now os"

definition main_tools :: "'e platform \<Rightarrow> settings \<Rightarrow> 'e world pg_tools" where
  "main_tools os cfg =
     \<lparr>target = cfg_db cfg, level = cfg_comp_level cfg, command_timeout = cfg_pg_timeout cfg,
      runner = (\<lambda>limit cmd. os_timeout os limit (tokio_run (os_spawn os) cmd))\<rparr>"

definition main_ports :: "'e platform \<Rightarrow> settings \<Rightarrow> 'e gdrive \<Rightarrow> 'e ports" where
  "main_ports os cfg storage =
     (let pg = main_tools os cfg
      in \<lparr>dumper_db_name = pg_db_name pg, restorer_db_name = pg_db_name pg,
          data_folder = cfg_data_folder cfg, retention = cfg_retention cfg,
          dump_op = pg_dump_to pg, restore_op = pg_restore_from pg, ping_op = pg_ping pg,
          upload_op = gd_upload storage, list_op = gd_list storage, latest_op = gd_latest storage,
          get_op = gd_get storage, download_op = gd_download (os_md5_hex os) storage,
          delete_op = gd_delete storage, now_op = system_clock os,
          blocking = (\<lambda>src dst. os_blocking os (decompress_file (os_copy_decode os) src dst))\<rparr>)"

text \<open>The address to listen on and the ports of the service, before the server accepts requests.\<close>

definition main ::
  "'e platform \<Rightarrow> ('e, 'k, 'r, 'a) google \<Rightarrow> (string \<Rightarrow> bytes option)
    \<Rightarrow> ('e world, (socket_addr \<times> 'e ports) result) io" where
  "main os g environment =
     (case from_env environment of
        Inl e \<Rightarrow> return_io (Inl e)
      | Inr cfg \<Rightarrow>
          try_io (connect g (expose (cfg_drive_creds cfg)) (cfg_drive_folder_id cfg) default_options) (\<lambda>storage.
          return_io (Inr (cfg_listen_addr cfg, main_ports os cfg storage))))"

section \<open>The ports are local\<close>

text \<open>
  What the assembly relies on: \<^verbatim>\<open>pg_dump\<close> writes the file it is told to, \<^verbatim>\<open>pg_restore\<close> and \<^verbatim>\<open>psql\<close>
  write none, a time limit and the thread pool add no writes of their own, the decoder writes
  its output, and the Drive client has no business with local files.
\<close>

definition platform_ok :: "'e platform \<Rightarrow> bool" where
  "platform_ok os \<longleftrightarrow>
     (\<forall>t l dst. local_op {dst} (tokio_run (os_spawn os) (dump_command t l dst)))
     \<and> (\<forall>t src. local_op {} (tokio_run (os_spawn os) (restore_command t src)))
     \<and> (\<forall>t sql. local_op {} (tokio_run (os_spawn os) (query_command t sql)))
     \<and> (\<forall>P limit m. local_op P m \<longrightarrow> local_op P (os_timeout os limit m))
     \<and> (\<forall>P m. local_op P m \<longrightarrow> local_op P (os_blocking os m))
     \<and> local_op {} (os_now os)
     \<and> (\<forall>c dst. local_op {dst} (os_copy_decode os c dst))"

definition hub_quiet :: "'e drive_hub \<Rightarrow> bool" where
  "hub_quiet h \<longleftrightarrow>
     (\<forall>limit c. local_op {} (hub_list h limit c)) \<and> (\<forall>limit i fs. local_op {} (hub_get h limit i fs))
     \<and> (\<forall>limit i. local_op {} (hub_media h limit i)) \<and> (\<forall>limit f m c. local_op {} (hub_create h limit f m c))
     \<and> (\<forall>limit i. local_op {} (hub_delete h limit i)) \<and> (\<forall>d w. files (hub_sleep h d w) = files w)"

lemma local_op_empty: "local_op {} m \<longleftrightarrow> (\<forall>w. files (snd (m w)) = files w)"
  by (auto simp: local_op_def only_touches_def)

lemma local_op_return: "local_op P (return_io x)"
  by (rule local_op_none) (simp add: return_io_def)

lemma local_op_widen: "local_op {} m \<Longrightarrow> local_op P m"
  by (rule local_op_none) (simp add: local_op_empty)

lemma local_op_retry:
  assumes "local_op P call" and "\<And>d w. files (sleep d w) = files w"
  shows "local_op P (retry pol sleep call)"
proof (rule local_opI)
  let ?r = "retry pol sleep call"
  fix w q
  show "files (snd (?r w)) q = files w q" if "q \<notin> P"
  proof -
    have step: "files (snd (call v)) q = files v q" for v
      using assms(1) that by (simp add: local_op_def only_touches_def)
    obtain v c where "files v q = files w q" "call v = (c, snd (?r w))"
      using retry_last [of pol sleep call w "fst (?r w)" "snd (?r w)" "\<lambda>v. files v q = files w q"] step assms(2)
      by auto
    then show ?thesis using step [of v] by simp
  qed
  show "files (snd (?r w)) q \<noteq> None" if q: "q \<in> P" and ex: "files w q \<noteq> None"
  proof -
    have step: "files v q \<noteq> None \<Longrightarrow> files (snd (call v)) q \<noteq> None" for v
      using assms(1) q by (simp add: local_op_def)
    obtain v c where "files v q \<noteq> None" "call v = (c, snd (?r w))"
      using retry_last [of pol sleep call w "fst (?r w)" "snd (?r w)" "\<lambda>v. files v q \<noteq> None"] step assms(2) ex
      by auto
    then show ?thesis using step [of v] by simp
  qed
qed

lemma local_op_receive: "local_op {dst} (receive idle dst fs hashed n)"
proof (induction fs arbitrary: hashed n)
  case (Cons f fs)
  show ?case
  proof (cases f)
    case (Data d)
    have eq: "receive idle dst (Drive_Storage.Data d # fs) hashed n =
      try_io (map_io (map_err (\<lambda>e. Permanent (Io ''Could not write download file'' e))) (std_write dst d))
       (\<lambda>_. receive idle dst fs (hashed @ d) (n + of_nat (length d)))"
      by (rule ext) simp
    show ?thesis unfolding Data eq by (intro local_op_try) (simp_all add: local_op_std Cons)
  qed (use Cons in \<open>simp_all add: local_op_def only_touches_def\<close>)
qed (simp add: local_op_def only_touches_def)

lemma local_op_case_prod: "(\<And>x y. local_op P (f x y)) \<Longrightarrow> local_op P (case p of (x, y) \<Rightarrow> f x y)"
  by (cases p) simp

lemma local_op_download_once:
  assumes "hub_quiet (hub storage)"
  shows "local_op {dst} (download_once md5_hex storage b dst)"
proof -
  have media: "local_op {dst} (hub_media (hub storage) limit i)" for limit i
    using assms by (simp add: hub_quiet_def local_op_widen)
  show ?thesis
    unfolding download_once_def Let_def
    by (intro local_op_try local_op_case_prod local_op_return local_op_receive)
      (simp_all only: local_op_map media local_op_std)
qed

lemma local_op_download:
  assumes "hub_quiet (hub storage)"
  shows "local_op {dst} (gd_download md5_hex storage b dst)"
proof -
  have "files (hub_sleep (hub storage) d w) = files w" for d w using assms by (simp add: hub_quiet_def)
  then show ?thesis
    unfolding gd_download_def
    by (intro local_op_try local_op_retry local_op_download_once [OF assms] local_op_return)
qed

lemma local_op_execute: "local_op P (runner self limit cmd) \<Longrightarrow> local_op P (execute self cmd limit)"
  by (simp add: execute_def)

lemma main_unit_local:
  assumes "platform_ok os" and "hub_quiet (hub storage)"
  shows "local_op (unit_writes c) (unit_op (main_ports os cfg storage) c)"
proof (cases c)
  case (Download b f)
  then show ?thesis using local_op_download [OF assms(2)] by (simp add: main_ports_def Let_def)
next
  case (Delete i)
  then show ?thesis using assms(2)
    by (auto simp: main_ports_def Let_def gd_delete_def hub_quiet_def intro!: local_op_retry)
qed (use assms(1) in \<open>auto simp: main_ports_def Let_def pg_dump_to_def pg_restore_from_def pg_ping_def
      main_tools_def platform_ok_def intro!: local_op_try local_op_return local_op_execute\<close>)

lemma main_local_ports:
  assumes "platform_ok os" and "hub_quiet (hub storage)"
  shows "local_ports (main_ports os cfg storage)"
proof
  let ?D = "main_ports os cfg storage"
  show "local_op (unit_writes c) (unit_op ?D c)" for c by (rule main_unit_local [OF assms])
  show "local_op {} (info_op ?D d)" for d
  proof (cases d)
    case (Upload req)
    have "local_op {} (std_open f)" for f by (simp add: local_op_empty std_open_def with_fault_def split: list.split option.split)
    then show ?thesis using assms(2) Upload
      by (auto simp: main_ports_def Let_def gd_upload_def hub_quiet_def intro!: local_op_try)
  next
    case (Get i)
    then show ?thesis using assms(2)
      by (auto simp: main_ports_def Let_def gd_get_def hub_quiet_def intro!: local_op_try local_op_retry local_op_return)
  qed
  show "local_op {} (list_op ?D n t)" for n t
    using assms(2) by (auto simp: main_ports_def Let_def gd_list_def list_once_def hub_quiet_def intro!: local_op_retry)
  have page: "local_op {} (latest_page storage t)" for t
    using assms(2) by (auto simp: latest_page_def list_once_def Let_def hub_quiet_def intro!: local_op_retry)
  have "local_op {} (latest_loop (latest_page storage) n t)" for n t
  proof (induction n arbitrary: t)
    case (Suc n)
    have eq: "latest_loop (latest_page storage) (Suc n) t = try_io (latest_page storage t) (\<lambda>page.
       case items page of
         newest # _ \<Rightarrow> return_io (Inr (Some newest))
       | [] \<Rightarrow> (case continue_token page of
                  Some t \<Rightarrow> latest_loop (latest_page storage) n (Some t)
                | None \<Rightarrow> return_io (Inr None)))"
      by (rule ext) simp
    show ?case unfolding eq
      by (intro local_op_try page) (auto simp: Suc local_op_return split: list.split option.split)
  qed (simp add: local_op_empty)
  then show "local_op {} (latest_op ?D)" by (simp add: main_ports_def Let_def gd_latest_def)
  show "local_op {} (now_op ?D)"
    using assms(1) by (simp add: main_ports_def Let_def system_clock_def platform_ok_def)
  show "local_op {g} (blocking ?D f g)" for f g
    using assms(1) decompress_local [of g "os_copy_decode os" f]
    by (simp add: main_ports_def Let_def platform_ok_def)
qed

text \<open>What the decoder and the thread pool promise to legacy downloads.\<close>

definition decoder_ok :: "'e platform \<Rightarrow> (bytes \<Rightarrow> bytes option) \<Rightarrow> bool" where
  "decoder_ok os dec \<longleftrightarrow>
     (\<forall>c dst w w'. files w dst = Some [] \<and> os_copy_decode os c dst w = (Inr (), w') \<longrightarrow>
        (\<exists>d. dec c = Some d \<and> files w' dst = Some d))
     \<and> (\<forall>m w r w'. os_blocking os m w = (Inr r, w') \<longrightarrow> m w = (r, w'))"

text \<open>The content of a backup: one whole response to a request for it, with the announced checksum.\<close>

definition drive_content :: "'e platform \<Rightarrow> 'e gdrive \<Rightarrow> backup_info \<Rightarrow> bytes \<Rightarrow> bool" where
  "drive_content os storage b c \<longleftrightarrow>
     (\<exists>fs v v'. hub_media (hub storage) (request_timeout (opts storage)) (b_id b) v = (Some (Inr fs), v')
        \<and> body_whole fs \<and> c = body_data fs)
     \<and> (\<forall>m. b_md5 b = Some m \<longrightarrow> eq_ignore_ascii_case (os_md5_hex os c) m)"

lemma decompress_content:
  assumes "decoder_ok os dec" and "decompress_file (os_copy_decode os) f g w = (Inr (), w')"
    and "files w f = Some c" and "f \<noteq> g"
  shows "\<exists>d. files w' g = Some d \<and> dec c = Some d"
proof -
  obtain c' v1 v2 v3 where v: "std_open f w = (Inr c', v1)" "std_create g v1 = (Inr (), v2)"
    "os_copy_decode os c' g v2 = (Inr (), v3)" "std_flush g v3 = (Inr (), w')"
    using assms(2) by (auto simp: decompress_file_def try_io_Inr_iff map_io_Inr_iff)
  have "c' = c" "files v1 = files w"
    using v(1) assms(3) by (auto simp: std_open_def with_fault_def split: list.splits option.splits)
  moreover have "files v2 g = Some []" using std_create_Inr(1) [OF v(2)] by simp
  moreover obtain d where "dec c' = Some d" "files v3 g = Some d"
    using assms(1) v(3) calculation(3) unfolding decoder_ok_def by blast
  ultimately show ?thesis using std_flush_Inr(1) [OF v(4)] by auto
qed

lemma main_content_ports:
  assumes "platform_ok os" and "hub_quiet (hub storage)" and "decoder_ok os dec"
  shows "content_ports (main_ports os cfg storage) (\<lambda>_. True) (drive_content os storage) (\<lambda>z d. dec z = Some d)"
proof (intro content_ports.intro main_local_ports [OF assms(1,2)] content_ports_axioms.intro)
  let ?D = "main_ports os cfg storage"
  have loc: "hub_local (hub storage)" using assms(2) by (simp add: hub_quiet_def hub_local_def local_op_empty)
  show "\<exists>c. files w' f = Some c \<and> drive_content os storage b c"
    if "download_op ?D b f w = (Inr (), w')" for w w' f b
  proof -
    have "gd_download (os_md5_hex os) storage b f w = (Inr (), w')"
      using that by (simp add: main_ports_def Let_def)
    then obtain fs v v' where "hub_media (hub storage) (request_timeout (opts storage)) (b_id b) v = (Some (Inr fs), v')"
      "body_whole fs" "files w' = (files w)(f \<mapsto> body_data fs)"
      "\<forall>m. b_md5 b = Some m \<longrightarrow> eq_ignore_ascii_case (os_md5_hex os (body_data fs)) m"
      using gd_download_spec [OF loc] by metis
    then show ?thesis unfolding drive_content_def by (intro exI [of _ "body_data fs"]) auto
  qed
  show "\<exists>d. files w' g = Some d \<and> dec c = Some d"
    if "files w f = Some c" "files w g \<noteq> None" "f \<noteq> g" "blocking ?D f g w = (Inr (Inr ()), w')" for w w' f g c
  proof -
    have "decompress_file (os_copy_decode os) f g w = (Inr (), w')"
      using that(4) assms(3) by (auto simp: main_ports_def Let_def decoder_ok_def)
    from decompress_content [OF assms(3) this that(1,3)] show ?thesis .
  qed
qed simp_all

section \<open>The configured database\<close>

definition names_db :: "string \<Rightarrow> string list \<Rightarrow> bool" where
  "names_db n xs \<longleftrightarrow> sublist [''--dbname'', n] xs"

lemma names_db_command: "names_db (db_name t) (args (pg_command_of prog flags t rest))"
  unfolding names_db_def sublist_def
  by (intro exI [of _ "flags @ take 6 (connection_args t)"] exI [of _ "drop 8 (connection_args t) @ rest"])
    (simp add: pg_command_of_def connection_args_def)

end
