(* ===== verification/Varint.thy ===== *)
theory Varint
  imports Text "HOL-Library.Word" "HOL-Library.Monad_Syntax"
begin

text \<open>
  Variable-length integers of protocol buffers, \<^verbatim>\<open>prost/src/encoding/varint.rs\<close>: the encoder, the
  length computed without encoding, and the decoder with its unrolled fast path over a slice and its
  byte-wise slow path. Both paths are shown equal to one reference decoder on natural numbers, the
  unchecked reads of the fast path are shown to stay inside the slice, and decoding is shown to undo
  encoding.
\<close>

unbundle bit_operations_syntax

section \<open>Errors\<close>

datatype wire_type = Varint | SixtyFourBit | LengthDelimited | StartGroup | EndGroup | ThirtyTwoBit

datatype decode_error_kind =
    LengthDelimiterTooLarge
  | InvalidVarint
  | RecursionLimitReached
  | InvalidWireType "64 word"
  | InvalidKey "64 word"
  | InvalidTag
  | UnexpectedWireType wire_type wire_type
  | BufferUnderflow
  | DelimitedLengthExceeded
  | UnexpectedEndGroupTag
  | InvalidString
  | UnexpectedTypeUrl string string
  | Other string

text \<open>The cause, and the message and field names on the way to it, innermost first.\<close>

record decode_error =
  description :: decode_error_kind
  stack :: "(string \<times> string) list"

definition decode_error_from :: "decode_error_kind \<Rightarrow> decode_error" where
  "decode_error_from k = \<lparr>description = k, stack = []\<rparr>"

definition decode_error_push :: "string \<Rightarrow> string \<Rightarrow> decode_error \<Rightarrow> decode_error" where
  "decode_error_push message field e = e\<lparr>stack := stack e @ [(message, field)]\<rparr>"

text \<open>
  A reader of a contiguous buffer: the value and the rest of the buffer. The buffer of a failed read
  is dropped with the message by every caller.
\<close>

type_synonym 'a reading = "decode_error + 'a \<times> bytes"

section \<open>Code\<close>

definition u8 :: "char \<Rightarrow> 8 word" where
  "u8 c = of_nat (byte c)"

text \<open>The cast \<^verbatim>\<open>as u8\<close> keeps the low eight bits.\<close>

definition as_u8 :: "64 word \<Rightarrow> char" where
  "as_u8 v = char_of (unat v)"

fun encode_varint_loop :: "nat \<Rightarrow> 64 word \<Rightarrow> bytes" where
  "encode_varint_loop 0 value = []"
| "encode_varint_loop (Suc n) value =
     (if value < 0x80 then [as_u8 value]
      else as_u8 ((value AND 0x7F) OR 0x80) # encode_varint_loop n (drop_bit 7 value))"

definition encode_varint :: "64 word \<Rightarrow> bytes" where
  "encode_varint value = encode_varint_loop 10 value"

fun ilog2 :: "nat \<Rightarrow> nat" where
  "ilog2 n = (if n < 2 then 0 else Suc (ilog2 (n div 2)))"

declare ilog2.simps [simp del]

definition encoded_len_varint :: "64 word \<Rightarrow> nat" where
  "encoded_len_varint value =
     (let log2value = ilog2 (unat (value OR 1))
      in (log2value * 9 + (64 + 9)) div 64)"

text \<open>A read through \<^verbatim>\<open>get_unchecked\<close>; \<^const>\<open>None\<close> is a read outside the slice.\<close>

definition get_unchecked :: "bytes \<Rightarrow> nat \<Rightarrow> 8 word option" where
  "get_unchecked bs i = (if i < length bs then Some (u8 (bs ! i)) else None)"

text \<open>
  The unrolled loop; \<^const>\<open>None\<close> is a failed assertion or a read outside the slice. The three parts
  are 32 bits wide.
\<close>

definition decode_varint_slice :: "bytes \<Rightarrow> (decode_error_kind + 64 word \<times> nat) option" where
  "decode_varint_slice bs =
     (if bs = [] then None
      else if \<not> (length bs > 10 \<or> u8 (bs ! (length bs - 1)) < 0x80) then None
      else do {
        b \<leftarrow> get_unchecked bs 0;
        let part0 = (ucast b :: 32 word);
        if b < 0x80 then Some (Inr (ucast part0, 1)) else do {
        let part0 = part0 - 0x80;
        b \<leftarrow> get_unchecked bs 1;
        let part0 = part0 + push_bit 7 (ucast b);
        if b < 0x80 then Some (Inr (ucast part0, 2)) else do {
        let part0 = part0 - push_bit 7 0x80;
        b \<leftarrow> get_unchecked bs 2;
        let part0 = part0 + push_bit 14 (ucast b);
        if b < 0x80 then Some (Inr (ucast part0, 3)) else do {
        let part0 = part0 - push_bit 14 0x80;
        b \<leftarrow> get_unchecked bs 3;
        let part0 = part0 + push_bit 21 (ucast b);
        if b < 0x80 then Some (Inr (ucast part0, 4)) else do {
        let part0 = part0 - push_bit 21 0x80;
        let value = (ucast part0 :: 64 word);
        b \<leftarrow> get_unchecked bs 4;
        let part1 = (ucast b :: 32 word);
        if b < 0x80 then Some (Inr (value + push_bit 28 (ucast part1), 5)) else do {
        let part1 = part1 - 0x80;
        b \<leftarrow> get_unchecked bs 5;
        let part1 = part1 + push_bit 7 (ucast b);
        if b < 0x80 then Some (Inr (value + push_bit 28 (ucast part1), 6)) else do {
        let part1 = part1 - push_bit 7 0x80;
        b \<leftarrow> get_unchecked bs 6;
        let part1 = part1 + push_bit 14 (ucast b);
        if b < 0x80 then Some (Inr (value + push_bit 28 (ucast part1), 7)) else do {
        let part1 = part1 - push_bit 14 0x80;
        b \<leftarrow> get_unchecked bs 7;
        let part1 = part1 + push_bit 21 (ucast b);
        if b < 0x80 then Some (Inr (value + push_bit 28 (ucast part1), 8)) else do {
        let part1 = part1 - push_bit 21 0x80;
        let value = value + push_bit 28 (ucast part1);
        b \<leftarrow> get_unchecked bs 8;
        let part2 = (ucast b :: 32 word);
        if b < 0x80 then Some (Inr (value + push_bit 56 (ucast part2), 9)) else do {
        let part2 = part2 - 0x80;
        b \<leftarrow> get_unchecked bs 9;
        let part2 = part2 + push_bit 7 (ucast b);
        if b < 0x02 then Some (Inr (value + push_bit 56 (ucast part2), 10))
        else Some (Inl InvalidVarint) } } } } } } } } } })"

fun decode_varint_slow_loop :: "nat \<Rightarrow> nat \<Rightarrow> 64 word \<Rightarrow> bytes \<Rightarrow> decode_error_kind + 64 word \<times> bytes"
where
  "decode_varint_slow_loop 0 count value buf = Inl InvalidVarint"
| "decode_varint_slow_loop (Suc n) count value [] = Inl InvalidVarint"
| "decode_varint_slow_loop (Suc n) count value (c # buf) =
     (let value = value OR push_bit (count * 7) (ucast (u8 c AND 0x7F))
      in if u8 c \<le> 0x7F
         then if count = 9 \<and> 0x02 \<le> u8 c then Inl InvalidVarint else Inr (value, buf)
         else decode_varint_slow_loop n (Suc count) value buf)"

definition decode_varint_slow :: "bytes \<Rightarrow> decode_error_kind + 64 word \<times> bytes" where
  "decode_varint_slow buf = decode_varint_slow_loop (min 10 (length buf)) 0 0 buf"

text \<open>The choice between the paths; \<^const>\<open>None\<close> as in the fast path.\<close>

definition decode_varint_opt :: "bytes \<Rightarrow> (decode_error_kind + 64 word \<times> bytes) option" where
  "decode_varint_opt buf =
     (let len = length buf
      in if len = 0 then Some (Inl InvalidVarint)
         else if u8 (buf ! 0) < 0x80 then Some (Inr (ucast (u8 (buf ! 0)), drop 1 buf))
         else if len > 10 \<or> u8 (buf ! (len - 1)) < 0x80
         then case decode_varint_slice buf of
                None \<Rightarrow> None
              | Some (Inl e) \<Rightarrow> Some (Inl e)
              | Some (Inr (value, advance)) \<Rightarrow> Some (Inr (value, drop advance buf))
         else Some (decode_varint_slow buf))"

definition decode_varint :: "bytes \<Rightarrow> 64 word reading" where
  "decode_varint buf = map_err decode_error_from (the (decode_varint_opt buf))"

section \<open>Reference decoder\<close>

text \<open>
  Groups of seven bits, least significant first; a byte below 128 ends the number. \<open>n\<close> bounds the
  number of bytes, and the last allowed byte may only hold one bit.
\<close>

fun leb :: "nat \<Rightarrow> bytes \<Rightarrow> (nat \<times> bytes) option" where
  "leb 0 bs = None"
| "leb (Suc n) [] = None"
| "leb (Suc n) (c # bs) =
     (if byte c < 128 then if n = 0 \<and> 2 \<le> byte c then None else Some (byte c, bs)
      else case leb n bs of
             None \<Rightarrow> None
           | Some (v, rest) \<Rightarrow> Some (byte c - 128 + 128 * v, rest))"

definition varint_of :: "(nat \<times> bytes) option \<Rightarrow> decode_error_kind + 64 word \<times> bytes" where
  "varint_of r = (case r of None \<Rightarrow> Inl InvalidVarint | Some (v, rest) \<Rightarrow> Inr (of_nat v, rest))"

definition read_varint :: "bytes \<Rightarrow> decode_error_kind + 64 word \<times> bytes" where
  "read_varint buf = varint_of (leb 10 buf)"

lemma varint_of_simps [simp]:
  "varint_of None = Inl InvalidVarint"
  "varint_of (Some (v, rest)) = Inr (of_nat v, rest)"
  by (simp_all add: varint_of_def)

lemma unat_u8 [simp]: "unat (u8 c) = byte c"
  by (simp add: u8_def unsigned_of_nat take_bit_nat_eq_self)

lemma u8_less_numeral [simp]: "u8 c < numeral w \<longleftrightarrow> byte c < unat (numeral w :: 8 word)"
  by (simp add: word_less_nat_alt)

lemma u8_le_numeral [simp]: "u8 c \<le> numeral w \<longleftrightarrow> byte c \<le> unat (numeral w :: 8 word)"
  by (simp add: word_le_nat_alt)

lemma numeral_le_u8 [simp]: "numeral w \<le> u8 c \<longleftrightarrow> unat (numeral w :: 8 word) \<le> byte c"
  by (simp add: word_le_nat_alt)

lemma ucast_u8: "ucast (u8 c) = (of_nat (byte c) :: 'a::len word)"
  by (simp add: u8_def unsigned_of_nat take_bit_nat_eq_self)

lemma high_byte:
  assumes "\<not> byte c < 128"
  obtains d where "byte c = 128 + d" "d < 128"
proof
  show "byte c = 128 + (byte c - 128)" "byte c - 128 < 128"
    using assms byte_less [of c] by linarith+
qed

lemma leb_bound: "leb n bs = Some (v, rest) \<Longrightarrow> v < 2 ^ (7 * (n - 1) + 1)"
proof (induction n bs arbitrary: v rest rule: leb.induct)
  case (3 n c bs)
  show ?case
  proof (cases n)
    case 0
    then show ?thesis using 3 by (auto split: if_splits)
  next
    case (Suc m)
    show ?thesis
    proof (cases "byte c < 128")
      case True
      have "(128::nat) \<le> 2 ^ (7 * n + 1)" unfolding Suc by (simp add: power_add)
      then show ?thesis using 3 True Suc by (auto split: if_splits)
    next
      case False
      then obtain u where u: "leb n bs = Some (u, rest)" "v = byte c - 128 + 128 * u"
        using 3(2) by (auto split: option.splits prod.splits)
      have "u < 2 ^ (7 * m + 1)" using 3(1) [OF False u(1)] Suc by simp
      moreover have "byte c - 128 < 128" using byte_less [of c] by linarith
      ultimately have "v < 128 * 2 ^ (7 * m + 1)" using u(2) by linarith
      then show ?thesis by (simp add: Suc power_add)
    qed
  qed
qed auto

lemma leb_suffix: "leb n bs = Some (v, rest) \<Longrightarrow> \<exists>e. e \<noteq> [] \<and> bs = e @ rest"
proof (induction n bs arbitrary: v rest rule: leb.induct)
  case (3 n c bs)
  then show ?case
    by (cases "byte c < 128") (fastforce split: if_splits option.splits prod.splits)+
qed auto

lemma or_push_bit_nat:
  assumes "a < 2 ^ k"
  shows "a OR push_bit k b = a + 2 ^ k * (b :: nat)"
proof -
  have "a = take_bit k a" using assms by (simp add: take_bit_nat_eq_self)
  then have h: "\<not> (bit a n \<and> k \<le> n)" for n by (metis bit_take_bit_iff not_less)
  have "a AND push_bit k b = 0"
    by (rule bit_eqI) (use h in \<open>auto simp: bit_simps\<close>)
  from disjunctive_add_eq_or [OF this] show ?thesis
    by (simp add: push_bit_eq_mult ac_simps)
qed

lemma or_push_bit:
  "a < 2 ^ k \<Longrightarrow> (of_nat a :: 64 word) OR push_bit k (of_nat b) = of_nat (a + 2 ^ k * b)"
  using or_push_bit_nat [of a k b] by (metis of_nat_or_eq push_bit_of_nat)

lemma and_7F: "ucast (u8 c AND 0x7F) = (of_nat (byte c mod 128) :: 64 word)"
proof -
  have "u8 c AND 0x7F = take_bit 7 (u8 c)" by (simp add: take_bit_eq_mask mask_eq_exp_minus_1)
  also have "\<dots> = of_nat (take_bit 7 (byte c))" by (simp add: u8_def take_bit_of_nat)
  finally show ?thesis by (simp add: take_bit_eq_mod unsigned_of_nat)
qed

lemma slow_loop_leb:
  "n + count = 10 \<Longrightarrow> v < 2 ^ (7 * count) \<Longrightarrow>
   decode_varint_slow_loop (min n (length bs)) count (of_nat v) bs =
     varint_of (map_option (\<lambda>(u, rest). (v + 2 ^ (7 * count) * u, rest)) (leb n bs))"
proof (induction n bs arbitrary: count v rule: leb.induct)
  case (3 n c bs)
  have v: "(of_nat v :: 64 word) OR push_bit (count * 7) (ucast (u8 c AND 0x7F)) =
      of_nat (v + 2 ^ (7 * count) * (byte c mod 128))"
    using or_push_bit [OF 3(3), of "byte c mod 128"] by (simp add: and_7F mult.commute)
  show ?case
  proof (cases "byte c < 128")
    case True
    then show ?thesis using v 3(2) by (auto simp: Let_def)
  next
    case False
    then obtain d where d: "byte c = 128 + d" "d < 128" by (rule high_byte)
    have "v + 2 ^ (7 * count) * d < 2 ^ (7 * count) * Suc d" using 3(3) by simp
    also have "\<dots> \<le> 2 ^ (7 * count) * 128" by (rule mult_le_mono2) (use d in simp)
    finally have "v + 2 ^ (7 * count) * d < 2 ^ (7 * Suc count)" by (simp add: power_add)
    from 3(1) [OF False _ this] 3(2) d
    have "decode_varint_slow_loop (min (Suc n) (length (c # bs))) count (of_nat v) (c # bs) =
        varint_of (map_option (\<lambda>(u, rest). (v + 2 ^ (7 * count) * d + 2 ^ (7 * Suc count) * u, rest)) (leb n bs))"
      by (simp add: Let_def v del: of_nat_add of_nat_mult)
    then show ?thesis using False d
      by (cases "leb n bs") (auto simp: power_add algebra_simps)
  qed
qed auto

lemma decode_varint_slow_leb: "decode_varint_slow buf = read_varint buf"
proof -
  have "map_option (\<lambda>(u, rest). (0 + 2 ^ (7 * 0) * u, rest)) (leb 10 buf) = leb 10 buf"
    by (cases "leb 10 buf") auto
  with slow_loop_leb [of 10 0 0 buf] show ?thesis
    by (simp only: decode_varint_slow_def read_varint_def) simp
qed


text \<open>Unchecked reads inside the slice, one step of the reference decoder at a time.\<close>

lemma get_unchecked_in: "i < length bs \<Longrightarrow> get_unchecked bs i = Some (u8 (bs ! i))"
  by (simp add: get_unchecked_def)

lemma leb_Nil [simp]: "leb n [] = None"
  by (cases n) simp_all

lemma leb_drop:
  "j < length bs \<Longrightarrow> leb (Suc n) (drop j bs) =
     (if byte (bs ! j) < 128 then if n = 0 \<and> 2 \<le> byte (bs ! j) then None else Some (byte (bs ! j), drop (Suc j) bs)
      else map_option (\<lambda>(v, rest). (byte (bs ! j) - 128 + 128 * v, rest)) (leb n (drop (Suc j) bs)))"
  by (subst Cons_nth_drop_Suc [symmetric]) (auto split: option.splits)

definition slice_ok :: "bytes \<Rightarrow> bool" where
  "slice_ok bs \<longleftrightarrow> bs \<noteq> [] \<and> (length bs > 10 \<or> byte (bs ! (length bs - 1)) < 128)"

lemma slice_ok_next:
  assumes "slice_ok bs" "j < length bs" "128 \<le> byte (bs ! j)" "j < 9"
  shows "Suc j < length bs"
proof -
  have "Suc j \<noteq> length bs"
  proof
    assume "Suc j = length bs"
    then have "length bs - 1 = j" by simp
    then show False using assms \<open>Suc j = length bs\<close> by (simp add: slice_ok_def)
  qed
  then show ?thesis using assms(2) by simp
qed

definition w32 :: "nat \<Rightarrow> 32 word" where
  "w32 n = of_nat n"

lemma ucast_w32: "n < 2 ^ 32 \<Longrightarrow> ucast (w32 n) = (of_nat n :: 64 word)"
  by (simp add: w32_def unsigned_of_nat take_bit_nat_eq_self)

text \<open>The unrolled loop, rolled up again: \<open>n\<close> bytes remain from position \<open>j\<close>.\<close>

fun slice_from :: "nat \<Rightarrow> nat \<Rightarrow> 64 word \<Rightarrow> 32 word \<Rightarrow> bytes \<Rightarrow> (decode_error_kind + 64 word \<times> nat) option"
where
  "slice_from 0 j value part bs = Some (Inl InvalidVarint)"
| "slice_from (Suc n) j value part bs =
     do {
       b \<leftarrow> get_unchecked bs j;
       let part = part + push_bit (7 * (j mod 4)) (ucast b);
       if b < (if n = 0 then 0x02 else 0x80)
       then Some (Inr (value + push_bit (28 * (j div 4)) (ucast part), Suc j))
       else let part = part - push_bit (7 * (j mod 4)) 0x80
            in if n = 0 then Some (Inl InvalidVarint)
               else if j mod 4 = 3
               then slice_from n (Suc j) (value + push_bit (28 * (j div 4)) (ucast part)) 0 bs
               else slice_from n (Suc j) value part bs }"

lemmas slice_from_numeral =
  slice_from.simps(2) [of "pred_numeral k" for k, folded numeral_eq_Suc]

lemma decode_varint_slice_rolled:
  "slice_ok bs \<Longrightarrow> decode_varint_slice bs = slice_from 10 0 0 0 bs"
  by (simp add: decode_varint_slice_def slice_ok_def slice_from_numeral Let_def Suc_numeral
      cong: if_cong flip: numeral_2_eq_2)

lemma part_add:
  "w32 n + push_bit k (ucast (u8 c)) = w32 (n + 2 ^ k * byte c)"
  by (simp add: w32_def ucast_u8 push_bit_eq_mult algebra_simps)

lemma part_sub: "w32 (n + 2 ^ k * (128 + d)) - push_bit k 0x80 = w32 (n + 2 ^ k * d)"
  by (simp add: w32_def push_bit_eq_mult algebra_simps)

lemma part_fits:
  fixes P m a :: nat
  assumes "P < 2 ^ (7 * m)" "m < 4" "a < 256"
  shows "P + 2 ^ (7 * m) * a < 2 ^ 32"
proof -
  have "P + 2 ^ (7 * m) * a < 2 ^ (7 * m) * Suc a" using assms(1) by simp
  also have "\<dots> \<le> 2 ^ 21 * 2 ^ 8"
    by (rule mult_le_mono) (use assms power_increasing [of "7 * m" 21 "2 :: nat"] in auto)
  finally show ?thesis by simp
qed

lemma value_add:
  "n < 2 ^ 32 \<Longrightarrow> (of_nat V :: 64 word) + push_bit k (ucast (w32 n)) = of_nat (V + 2 ^ k * n)"
  by (simp add: ucast_w32 push_bit_eq_mult algebra_simps)

lemma slice_from_leb:
  "n + j = 10 \<Longrightarrow> j < length bs \<Longrightarrow> P < 2 ^ (7 * (j mod 4)) \<Longrightarrow> slice_ok bs \<Longrightarrow>
   slice_from n j (of_nat V) (w32 P) bs =
     Some (case leb n (drop j bs) of
             None \<Rightarrow> Inl InvalidVarint
           | Some (v, rest) \<Rightarrow>
               Inr (of_nat (V + 2 ^ (28 * (j div 4)) * (P + 2 ^ (7 * (j mod 4)) * v)), length bs - length rest))"
proof (induction n arbitrary: j V P)
  case (Suc n)
  let ?m = "j mod 4" and ?q = "j div 4" and ?c = "bs ! j"
  note fits = part_fits [OF Suc.prems(3), of "byte ?c"]
  have part: "w32 P + push_bit (7 * ?m) (ucast (u8 ?c)) = w32 (P + 2 ^ (7 * ?m) * byte ?c)"
    by (rule part_add)
  show ?case
  proof (cases "byte ?c < 128")
    case True
    then show ?thesis using Suc.prems fits
      by (auto simp: leb_drop get_unchecked_in part value_add Let_def simp del: of_nat_add of_nat_mult)
  next
    case False
    then obtain d where d: "byte ?c = 128 + d" "d < 128" by (rule high_byte)
    have sub: "w32 (P + 2 ^ (7 * ?m) * byte ?c) - push_bit (7 * ?m) 0x80 = w32 (P + 2 ^ (7 * ?m) * d)"
      unfolding d(1) by (rule part_sub)
    let ?P = "P + 2 ^ (7 * ?m) * d"
    have m: "?m < 4" by simp
    have fits': "?P < 2 ^ 32" using part_fits [OF Suc.prems(3) m, of d] d(2) by simp
    have P: "?P < 2 ^ (7 * Suc ?m)"
    proof -
      have "?P < 2 ^ (7 * ?m) * Suc d" using Suc.prems(3) by simp
      also have "\<dots> \<le> 2 ^ (7 * ?m) * 128" by (rule mult_le_mono2) (use d in simp)
      finally show ?thesis by (simp add: power_add)
    qed
    show ?thesis
    proof (cases "n = 0")
      case True
      then show ?thesis using Suc.prems False
        by (simp add: leb_drop get_unchecked_in Let_def)
    next
      case n: False
      have len: "Suc j < length bs"
        by (rule slice_ok_next [OF Suc.prems(4,2)]) (use False n Suc.prems(1) in auto)
      have leb: "leb (Suc n) (drop j bs) =
          map_option (\<lambda>(v, rest). (d + 128 * v, rest)) (leb n (drop (Suc j) bs))"
        using leb_drop [OF Suc.prems(2), of n] False d by simp
      have step: "slice_from (Suc n) j (of_nat V) (w32 P) bs =
          (if ?m = 3 then slice_from n (Suc j) (of_nat (V + 2 ^ (28 * ?q) * ?P)) (w32 0) bs
           else slice_from n (Suc j) (of_nat V) (w32 ?P) bs)"
        unfolding slice_from.simps get_unchecked_in [OF Suc.prems(2)] bind.bind_lunit Let_def part sub
          value_add [OF fits']
        using False n by (simp add: w32_def [of 0])
      show ?thesis
      proof (cases "?m = 3")
        case True
        then have mq: "Suc j mod 4 = 0" "Suc j div 4 = Suc ?q" by (auto simp: mod_Suc div_Suc)
        show ?thesis
          using Suc.IH [of "Suc j" 0 "V + 2 ^ (28 * ?q) * ?P"] Suc.prems len
          unfolding step leb
          by (cases "leb n (drop (Suc j) bs)") (auto simp: True mq power_add algebra_simps)
      next
        case False
        then have mq: "Suc j mod 4 = Suc ?m" "Suc j div 4 = ?q"
          using m by (auto simp: mod_Suc div_Suc)
        show ?thesis
          using Suc.IH [of "Suc j" ?P V] Suc.prems len P False
          unfolding step leb
          by (cases "leb n (drop (Suc j) bs)") (auto simp: mq power_add algebra_simps)
      qed
    qed
  qed
qed simp


text \<open>Both paths and the dispatch compute the reference decoder, and no read leaves the slice.\<close>

lemma decode_varint_slice_leb:
  assumes "slice_ok bs"
  shows "decode_varint_slice bs =
    Some (case leb 10 bs of None \<Rightarrow> Inl InvalidVarint
          | Some (v, rest) \<Rightarrow> Inr (of_nat v, length bs - length rest))"
  using slice_from_leb [of 10 0 bs 0 0] assms
  by (cases "leb 10 bs") (simp_all add: decode_varint_slice_rolled slice_ok_def w32_def)

lemma leb_10: "byte c < 128 \<Longrightarrow> leb 10 (c # bs) = Some (byte c, bs)"
  using leb.simps(3) [of 9 c bs] by simp

lemma decode_varint_opt_leb: "decode_varint_opt buf = Some (read_varint buf)"
proof (cases "buf = [] \<or> u8 (buf ! 0) < 0x80")
  case True
  then show ?thesis
    by (cases buf) (auto simp: decode_varint_opt_def read_varint_def leb_10 leb_Nil ucast_u8)
next
  case False
  then have ne: "buf \<noteq> []" "\<not> u8 (buf ! 0) < 0x80" by auto
  show ?thesis
  proof (cases "length buf > 10 \<or> u8 (buf ! (length buf - 1)) < 0x80")
    case True
    then have "slice_ok buf" using ne by (auto simp: slice_ok_def)
    note slice = decode_varint_slice_leb [OF this]
    have "decode_varint_opt buf =
        (case decode_varint_slice buf of
           None \<Rightarrow> None
         | Some (Inl e) \<Rightarrow> Some (Inl e)
         | Some (Inr (value, advance)) \<Rightarrow> Some (Inr (value, drop advance buf)))"
      using ne True by (simp add: decode_varint_opt_def del: u8_less_numeral)
    then show ?thesis
      using leb_suffix [of 10 buf] unfolding slice
      by (cases "leb 10 buf") (auto simp: read_varint_def)
  next
    case False
    then show ?thesis using ne
      by (simp add: decode_varint_opt_def decode_varint_slow_leb del: u8_less_numeral)
  qed
qed

section \<open>Encoding\<close>

lemma byte_as_u8: "byte (as_u8 v) = unat v mod 256"
  by (simp add: byte_def as_u8_def)

lemma unat_or_80: "unat ((v AND 0x7F) OR 0x80 :: 64 word) = unat v mod 128 + 128"
proof -
  have "(v AND 0x7F) = take_bit 7 v" by (simp add: take_bit_eq_mask mask_eq_exp_minus_1)
  then have a: "unat (v AND 0x7F) = unat v mod 128"
    by (simp only: take_bit_eq_mod unat_mod_distrib) simp
  have "(v AND 0x7F) OR 0x80 = of_nat (unat v mod 128) OR push_bit 7 (of_nat 1)"
    by (simp flip: a)
  also have "\<dots> = of_nat (unat v mod 128 + 2 ^ 7 * 1)" by (rule or_push_bit) simp
  finally have "unat ((v AND 0x7F) OR 0x80) = take_bit 64 (unat v mod 128 + 2 ^ 7 * 1)"
    by (simp only: unsigned_of_nat) simp
  moreover have "unat v mod 128 + 2 ^ 7 * 1 < 2 ^ 64" by (rule less_trans [of _ 256]) simp_all
  ultimately show ?thesis by (simp add: take_bit_nat_eq_self)
qed

lemma leb_encode_loop:
  "0 < n \<Longrightarrow> unat v < 2 ^ (7 * (n - 1) + 1) \<Longrightarrow>
   leb n (encode_varint_loop n v @ rest) = Some (unat v, rest)"
proof (induction n arbitrary: v)
  case (Suc n)
  show ?case
  proof (cases "v < 0x80")
    case True
    then show ?thesis using Suc.prems by (auto simp: byte_as_u8 word_less_nat_alt)
  next
    case False
    then have big: "128 \<le> unat v" by (simp add: word_less_nat_alt)
    with Suc.prems have n: "0 < n" by (cases n) auto
    then obtain m where m: "n = Suc m" by (cases n) auto
    have d: "unat (drop_bit 7 v) = unat v div 128" by (simp add: drop_bit_eq_div unat_div_distrib)
    have "unat v < 2 ^ (7 * m + 1) * 128" using Suc.prems by (simp add: m power_add)
    then have "unat (drop_bit 7 v) < 2 ^ (7 * (n - 1) + 1)" by (simp add: d m less_mult_imp_div_less)
    from Suc.IH [OF n this] show ?thesis using False
      by (simp add: byte_as_u8 unat_or_80 d)
  qed
qed simp

lemma read_encode_varint: "read_varint (encode_varint v @ rest) = Inr (v, rest)"
  using leb_encode_loop [of 10 v rest] unsigned_less [of v, where ?'a = nat]
  by (simp add: read_varint_def encode_varint_def)

lemma ilog2_bounds: "0 < n \<Longrightarrow> 2 ^ ilog2 n \<le> n \<and> n < 2 ^ Suc (ilog2 n)"
proof (induction n rule: ilog2.induct)
  case (1 n)
  then show ?case
    by (cases "n < 2") (auto simp: ilog2.simps [of n])
qed

lemma ilog2_half: "2 \<le> n \<Longrightarrow> ilog2 n = Suc (ilog2 (n div 2))"
  by (simp add: ilog2.simps [of n])

lemma ilog2_shift: "2 ^ k \<le> n \<Longrightarrow> ilog2 n = ilog2 (n div 2 ^ k) + k"
proof (induction k)
  case (Suc k)
  have "2 \<le> n div 2 ^ k" using Suc.prems by (simp add: less_eq_div_iff_mult_less_eq ac_simps)
  moreover have "n div 2 ^ k div 2 = n div 2 ^ Suc k" by (simp add: div_mult2_eq [symmetric] ac_simps)
  moreover have "2 ^ k \<le> n" using Suc.prems by simp
  ultimately show ?case using Suc.IH ilog2_half [of "n div 2 ^ k"] by simp
qed simp

lemma ilog2_or_1:
  assumes "0 < n"
  shows "ilog2 (n OR 1) = ilog2 n"
proof (cases "n < 2")
  case True
  with assms have "n = 1" by simp
  then show ?thesis by simp
next
  case False
  have "(n OR 1) div 2 = n div 2" by (simp add: or_Suc_0_eq)
  moreover have "2 \<le> n OR 1" using False by (simp add: or_Suc_0_eq)
  ultimately show ?thesis using False ilog2_half [of n] ilog2_half [of "n OR 1"] by simp
qed

lemma or_1_pos: "0 < (n :: nat) OR 1"
  by (cases "n = 0") (auto simp: or_Suc_0_eq)

lemma length_encode_loop:
  "0 < n \<Longrightarrow> unat v < 2 ^ (7 * n) \<Longrightarrow>
   length (encode_varint_loop n v) = ilog2 (unat v OR 1) div 7 + 1"
proof (induction n arbitrary: v)
  case (Suc n)
  show ?case
  proof (cases "v < 0x80")
    case True
    then have "unat v OR 1 < 2 ^ 7" by (simp add: or_Suc_0_eq word_less_nat_alt) presburger
    then have "(2 :: nat) ^ ilog2 (unat v OR 1) < 2 ^ 7"
      using ilog2_bounds [OF or_1_pos, of "unat v"] by linarith
    then have "ilog2 (unat v OR 1) < 7" by (simp only: power_strict_increasing_iff)
    then show ?thesis using True by simp
  next
    case False
    then have big: "128 \<le> unat v" by (simp add: word_less_nat_alt)
    with Suc.prems have n: "0 < n" by (cases n) auto
    have d: "unat (drop_bit 7 v) = unat v div 128" by (simp add: drop_bit_eq_div unat_div_distrib)
    have "unat v < 2 ^ (7 * n) * 128" using Suc.prems by (simp add: power_add)
    then have "unat (drop_bit 7 v) < 2 ^ (7 * n)" by (simp add: d less_mult_imp_div_less)
    from Suc.IH [OF n this] show ?thesis
      using False big ilog2_shift [of 7 "unat v"] ilog2_or_1 [of "unat v"] ilog2_or_1 [of "unat v div 128"]
      by (simp add: d div_greater_zero_iff div_add_self2)
  qed
qed simp

lemma len_formula: "k < 64 \<Longrightarrow> (k * 9 + (64 + 9)) div 64 = k div 7 + (1 :: nat)"
proof -
  have "\<forall>k\<in>set [0..<64]. (k * 9 + (64 + 9)) div 64 = k div 7 + (1 :: nat)" by code_simp
  then show "k < 64 \<Longrightarrow> ?thesis" by simp
qed

lemma length_encode_varint: "length (encode_varint v) = encoded_len_varint v"
proof -
  have v: "unat v < 2 ^ (7 * 10)" using unsigned_less [of v, where ?'a = nat] by simp
  have or: "unat (v OR 1) = unat v OR 1" by (simp add: unsigned_or_eq)
  have "unat v OR 1 < 2 ^ 64"
    using unsigned_less [of "v OR 1", where ?'a = nat] by (simp add: unsigned_or_eq)
  then have "(2 :: nat) ^ ilog2 (unat v OR 1) < 2 ^ 64"
    using ilog2_bounds [OF or_1_pos, of "unat v"] by linarith
  then have "ilog2 (unat v OR 1) < 64" by (simp only: power_strict_increasing_iff)
  from len_formula [OF this] show ?thesis
    using length_encode_loop [OF _ v]
    by (simp add: encode_varint_def encoded_len_varint_def or)
qed


lemma decode_varint_read: "decode_varint buf = map_err decode_error_from (read_varint buf)"
  by (simp add: decode_varint_def decode_varint_opt_leb)

lemma decode_encode_varint [simp]: "decode_varint (encode_varint v @ rest) = Inr (v, rest)"
  by (simp add: decode_varint_read read_encode_varint)

lemma decode_varint_suffix: "decode_varint buf = Inr (v, rest) \<Longrightarrow> \<exists>e. e \<noteq> [] \<and> buf = e @ rest"
  using leb_suffix [of 10 buf]
  by (cases "leb 10 buf") (auto simp: decode_varint_read read_varint_def)

lemma decode_varint_shrinks: "decode_varint buf = Inr (v, rest) \<Longrightarrow> length rest < length buf"
  by (drule decode_varint_suffix) auto

lemma decode_varint_Nil [simp]: "decode_varint [] = Inl (decode_error_from InvalidVarint)"
  by (simp add: decode_varint_read read_varint_def)

section \<open>Properties\<close>

text \<open>
  Claim C24 (varint_paths_agree). On every buffer the decoder of variable-length integers returns what its byte-wise
  slow path returns: the unrolled fast path, taken on long buffers and on buffers ending in a final
  byte, computes the same value and advances by the same number of bytes, fails on the same inputs,
  and never fails its assertions or reads outside the slice through its unchecked accesses.
\<close>

theorem varint_paths_agree: "decode_varint_opt buf = Some (decode_varint_slow buf)"
  by (simp add: decode_varint_opt_leb decode_varint_slow_leb)

text \<open>
  Decoding undoes encoding for every 64-bit value, whatever bytes follow; the encoding
  has exactly the length computed without encoding, which is between one and ten bytes.
\<close>

lemma varint_round_trip:
  "decode_varint_opt (encode_varint v @ rest) = Some (Inr (v, rest))
   \<and> length (encode_varint v) = encoded_len_varint v
   \<and> 1 \<le> encoded_len_varint v \<and> encoded_len_varint v \<le> 10"
proof -
  have "length (encode_varint_loop n v) \<le> n" for n by (induction n arbitrary: v) simp_all
  then have "length (encode_varint v) \<le> 10" by (simp add: encode_varint_def)
  moreover have "encode_varint v \<noteq> []" by (simp add: encode_varint_def numeral_eq_Suc)
  then have "1 \<le> length (encode_varint v)" by (cases "encode_varint v") simp_all
  ultimately show ?thesis
    by (simp add: decode_varint_opt_leb read_encode_varint flip: length_encode_varint)
qed

end
