(* ===== verification/Prost.thy ===== *)
theory Prost
  imports Varint
begin

text \<open>
  Fields and messages of protocol buffers, \<^verbatim>\<open>prost/src/encoding.rs\<close>, \<^verbatim>\<open>wire_type.rs\<close> and
  \<^verbatim>\<open>message.rs\<close>: keys, scalar fields, nested messages with their recursion limit, unknown fields,
  and the loop that merges the fields of a buffer into a message. A message type is a locale: what the
  derived code of a type must provide, and the round trip of whole messages proved once from it.
\<close>

section \<open>Wire types and keys\<close>

fun wire_type_number :: "wire_type \<Rightarrow> 32 word" where
  "wire_type_number Varint = 0"
| "wire_type_number SixtyFourBit = 1"
| "wire_type_number LengthDelimited = 2"
| "wire_type_number StartGroup = 3"
| "wire_type_number EndGroup = 4"
| "wire_type_number ThirtyTwoBit = 5"

definition wire_type_try_from :: "64 word \<Rightarrow> decode_error + wire_type" where
  "wire_type_try_from value =
     (if value = 0 then Inr Varint
      else if value = 1 then Inr SixtyFourBit
      else if value = 2 then Inr LengthDelimited
      else if value = 3 then Inr StartGroup
      else if value = 4 then Inr EndGroup
      else if value = 5 then Inr ThirtyTwoBit
      else Inl (decode_error_from (InvalidWireType value)))"

definition check_wire_type :: "wire_type \<Rightarrow> wire_type \<Rightarrow> decode_error + unit" where
  "check_wire_type expected actual =
     (if expected \<noteq> actual then Inl (decode_error_from (UnexpectedWireType actual expected)) else Inr ())"

definition MIN_TAG :: "32 word" where
  "MIN_TAG = 1"

definition MAX_TAG :: "32 word" where
  "MAX_TAG = push_bit 29 1 - 1"

definition U32_MAX :: "64 word" where
  "U32_MAX = 0xFFFFFFFF"

definition encode_key :: "32 word \<Rightarrow> wire_type \<Rightarrow> bytes" where
  "encode_key tag wire_type = encode_varint (ucast (push_bit 3 tag OR wire_type_number wire_type))"

definition decode_key :: "bytes \<Rightarrow> (32 word \<times> wire_type) reading" where
  "decode_key buf =
     and_then (decode_varint buf) (\<lambda>(key, buf).
       if key > U32_MAX then Inl (decode_error_from (InvalidKey key))
       else and_then (wire_type_try_from (key AND 0x07)) (\<lambda>wire_type.
         let tag = drop_bit 3 (ucast key :: 32 word)
         in if tag < MIN_TAG then Inl (decode_error_from InvalidTag)
            else Inr ((tag, wire_type), buf)))"

definition key_len :: "32 word \<Rightarrow> nat" where
  "key_len tag = encoded_len_varint (ucast (push_bit 3 tag))"

section \<open>Loops\<close>

text \<open>
  The loops run while bytes remain and read at least the byte of a key in every round, so the length
  of the buffer bounds the number of rounds. A loop out of rounds has an empty buffer, and ends as the
  code does there.
\<close>

fun merge_while :: "nat \<Rightarrow> ('m \<Rightarrow> bytes \<Rightarrow> 'm reading) \<Rightarrow> nat \<Rightarrow> 'm \<Rightarrow> bytes \<Rightarrow> 'm reading" where
  "merge_while 0 merge limit value buf = Inr (value, buf)"
| "merge_while (Suc n) merge limit value buf =
     (if length buf > limit
      then and_then (merge value buf) (\<lambda>(value, buf). merge_while n merge limit value buf)
      else Inr (value, buf))"

definition merge_loop :: "('m \<Rightarrow> bytes \<Rightarrow> 'm reading) \<Rightarrow> 'm \<Rightarrow> bytes \<Rightarrow> 'm reading" where
  "merge_loop merge value buf =
     and_then (decode_varint buf) (\<lambda>(len, buf).
       let remaining = length buf
       in if unat len > remaining then Inl (decode_error_from BufferUnderflow)
          else let limit = remaining - unat len
               in and_then (merge_while remaining merge limit value buf) (\<lambda>(value, buf).
                    if length buf \<noteq> limit then Inl (decode_error_from DelimitedLengthExceeded)
                    else Inr (value, buf)))"

text \<open>The loop of a skipped group; \<open>skip\<close> skips a field one level deeper.\<close>

fun skip_group ::
  "nat \<Rightarrow> (wire_type \<Rightarrow> 32 word \<Rightarrow> bytes \<Rightarrow> decode_error + bytes) \<Rightarrow> 32 word \<Rightarrow> bytes \<Rightarrow> decode_error + bytes"
where
  "skip_group 0 skip tag buf = Inl (decode_error_from InvalidVarint)"
| "skip_group (Suc n) skip tag buf =
     and_then (decode_key buf) (\<lambda>((inner_tag, inner_wire_type), buf).
       if inner_wire_type = EndGroup
       then if inner_tag \<noteq> tag then Inl (decode_error_from UnexpectedEndGroupTag) else Inr buf
       else and_then (skip inner_wire_type inner_tag buf) (skip_group n skip tag))"

text \<open>The context is the number of levels left.\<close>

fun skip_field :: "nat \<Rightarrow> wire_type \<Rightarrow> 32 word \<Rightarrow> bytes \<Rightarrow> decode_error + bytes" where
  "skip_field 0 wire_type tag buf = Inl (decode_error_from RecursionLimitReached)"
| "skip_field (Suc ctx) wire_type tag buf =
     and_then
       (case wire_type of
          Varint \<Rightarrow> and_then (decode_varint buf) (\<lambda>(_, buf). Inr (0, buf))
        | ThirtyTwoBit \<Rightarrow> Inr (4, buf)
        | SixtyFourBit \<Rightarrow> Inr (8, buf)
        | LengthDelimited \<Rightarrow> decode_varint buf
        | StartGroup \<Rightarrow> and_then (skip_group (length buf) (skip_field ctx) tag buf) (\<lambda>buf. Inr (0, buf))
        | EndGroup \<Rightarrow> Inl (decode_error_from UnexpectedEndGroupTag))
       (\<lambda>(len, buf). if unat len > length buf then Inl (decode_error_from BufferUnderflow)
                     else Inr (drop (unat len) buf))"

section \<open>Scalar fields\<close>

definition varint_encode :: "32 word \<Rightarrow> 64 word \<Rightarrow> bytes" where
  "varint_encode tag value = encode_key tag Varint @ encode_varint value"

definition varint_merge :: "(64 word \<Rightarrow> 'v) \<Rightarrow> wire_type \<Rightarrow> bytes \<Rightarrow> 'v reading" where
  "varint_merge from_uint64 wire_type buf =
     and_then (check_wire_type Varint wire_type) (\<lambda>_.
       and_then (decode_varint buf) (\<lambda>(value, buf). Inr (from_uint64 value, buf)))"

definition varint_len :: "32 word \<Rightarrow> 64 word \<Rightarrow> nat" where
  "varint_len tag value = key_len tag + encoded_len_varint value"

text \<open>The conversions of the integer types; a signed integer is extended by its sign.\<close>

definition bool_to_uint64 :: "bool \<Rightarrow> 64 word" where
  "bool_to_uint64 value = (if value then 1 else 0)"

definition bool_from_uint64 :: "64 word \<Rightarrow> bool" where
  "bool_from_uint64 value \<longleftrightarrow> value \<noteq> 0"

definition int32_to_uint64 :: "32 word \<Rightarrow> 64 word" where
  "int32_to_uint64 value = scast value"

definition int32_from_uint64 :: "64 word \<Rightarrow> 32 word" where
  "int32_from_uint64 value = ucast value"

definition uint32_to_uint64 :: "32 word \<Rightarrow> 64 word" where
  "uint32_to_uint64 value = ucast value"

definition uint32_from_uint64 :: "64 word \<Rightarrow> 32 word" where
  "uint32_from_uint64 value = ucast value"

definition bytes_encode :: "32 word \<Rightarrow> bytes \<Rightarrow> bytes" where
  "bytes_encode tag value =
     encode_key tag LengthDelimited @ encode_varint (of_nat (length value)) @ value"

definition bytes_merge :: "wire_type \<Rightarrow> bytes \<Rightarrow> bytes reading" where
  "bytes_merge wire_type buf =
     and_then (check_wire_type LengthDelimited wire_type) (\<lambda>_.
       and_then (decode_varint buf) (\<lambda>(len, buf).
         if unat len > length buf then Inl (decode_error_from BufferUnderflow)
         else Inr (take (unat len) buf, drop (unat len) buf)))"

definition bytes_len :: "32 word \<Rightarrow> bytes \<Rightarrow> nat" where
  "bytes_len tag value = key_len tag + encoded_len_varint (of_nat (length value)) + length value"

definition string_encode :: "32 word \<Rightarrow> string \<Rightarrow> bytes" where
  "string_encode tag value =
     encode_key tag LengthDelimited @ encode_varint (of_nat (length value)) @ value"

definition string_merge :: "wire_type \<Rightarrow> bytes \<Rightarrow> string reading" where
  "string_merge wire_type buf =
     and_then (bytes_merge wire_type buf) (\<lambda>(value, buf).
       if utf8_valid value then Inr (value, buf) else Inl (decode_error_from InvalidString))"

section \<open>Messages\<close>

text \<open>What the derived code of a message type does with one field.\<close>

type_synonym 'm field_merger = "nat \<Rightarrow> 32 word \<Rightarrow> wire_type \<Rightarrow> 'm \<Rightarrow> bytes \<Rightarrow> 'm reading"

definition merge_step :: "'m field_merger \<Rightarrow> nat \<Rightarrow> 'm \<Rightarrow> bytes \<Rightarrow> 'm reading" where
  "merge_step merge_field ctx msg buf =
     and_then (decode_key buf) (\<lambda>((tag, wire_type), buf). merge_field ctx tag wire_type msg buf)"

definition message_encode :: "('m \<Rightarrow> nat) \<Rightarrow> ('m \<Rightarrow> bytes) \<Rightarrow> 32 word \<Rightarrow> 'm \<Rightarrow> bytes" where
  "message_encode encoded_len encode_raw tag msg =
     encode_key tag LengthDelimited @ encode_varint (of_nat (encoded_len msg)) @ encode_raw msg"

definition message_merge :: "'m field_merger \<Rightarrow> nat \<Rightarrow> wire_type \<Rightarrow> 'm \<Rightarrow> bytes \<Rightarrow> 'm reading" where
  "message_merge merge_field ctx wire_type msg buf =
     and_then (check_wire_type LengthDelimited wire_type) (\<lambda>_.
       if ctx = 0 then Inl (decode_error_from RecursionLimitReached)
       else merge_loop (merge_step merge_field (ctx - 1)) msg buf)"

definition message_len :: "('m \<Rightarrow> nat) \<Rightarrow> 32 word \<Rightarrow> 'm \<Rightarrow> nat" where
  "message_len encoded_len tag msg =
     key_len tag + encoded_len_varint (of_nat (encoded_len msg)) + encoded_len msg"

definition message_merge_repeated ::
  "'m field_merger \<Rightarrow> 'm \<Rightarrow> nat \<Rightarrow> wire_type \<Rightarrow> 'm list \<Rightarrow> bytes \<Rightarrow> 'm list reading" where
  "message_merge_repeated merge_field dflt ctx wire_type messages buf =
     and_then (check_wire_type LengthDelimited wire_type) (\<lambda>_.
       and_then (message_merge merge_field ctx LengthDelimited dflt buf) (\<lambda>(msg, buf).
         Inr (messages @ [msg], buf)))"

definition message_len_repeated :: "('m \<Rightarrow> nat) \<Rightarrow> 32 word \<Rightarrow> 'm list \<Rightarrow> nat" where
  "message_len_repeated encoded_len tag messages =
     key_len tag * length messages
     + sum_list (map (\<lambda>len. len + encoded_len_varint (of_nat len)) (map encoded_len messages))"

definition RECURSION_LIMIT :: nat where
  "RECURSION_LIMIT = 100"

definition message_decode :: "'m field_merger \<Rightarrow> 'm \<Rightarrow> bytes \<Rightarrow> decode_error + 'm" where
  "message_decode merge_field dflt buf =
     and_then (merge_while (length buf) (merge_step merge_field RECURSION_LIMIT) 0 dflt buf)
       (\<lambda>(msg, _). Inr msg)"

section \<open>Keys and scalars, there and back\<close>

lemma check_wire_type_same [simp]: "check_wire_type t t = Inr ()"
  by (simp add: check_wire_type_def)

lemma check_wire_type_Inr_iff [simp]: "check_wire_type t u = Inr x \<longleftrightarrow> t = u"
  by (simp add: check_wire_type_def)

definition tag_ok :: "32 word \<Rightarrow> bool" where
  "tag_ok tag \<longleftrightarrow> MIN_TAG \<le> tag \<and> tag \<le> MAX_TAG"

lemma tag_ok_unat: "tag_ok tag \<longleftrightarrow> 1 \<le> unat tag \<and> unat tag < 2 ^ 29"
  by (auto simp: tag_ok_def MIN_TAG_def MAX_TAG_def word_le_nat_alt)

lemma wire_type_number_nat: "\<exists>w < 8. wire_type_number t = of_nat w \<and> wire_type_try_from (of_nat w) = Inr t"
  by (cases t) (force intro: exI [of _ "0::nat"] exI [of _ "1::nat"] exI [of _ "2::nat"] exI [of _ "3::nat"]
      exI [of _ "4::nat"] exI [of _ "5::nat"] simp: wire_type_try_from_def)+

lemma key_nat:
  assumes "w < 8" "unat tag < 2 ^ 29"
  shows "(ucast (push_bit 3 tag OR of_nat w :: 32 word) :: 64 word) = of_nat (w + 8 * unat tag)"
proof -
  have "push_bit 3 tag OR of_nat w = (of_nat (w OR push_bit 3 (unat tag)) :: 32 word)"
    by (simp add: of_nat_or_eq or.commute flip: push_bit_of_nat)
  also have "w OR push_bit 3 (unat tag) = w + 8 * unat tag"
    using or_push_bit_nat [of w 3 "unat tag"] assms by simp
  finally have "(ucast (push_bit 3 tag OR of_nat w :: 32 word) :: 64 word) =
      of_nat (take_bit 32 (w + 8 * unat tag))"
    by (simp only: unsigned_of_nat) simp
  then show ?thesis using assms by (simp add: take_bit_nat_eq_self del: of_nat_add)
qed

lemma decode_encode_key [simp]:
  assumes "tag_ok tag"
  shows "decode_key (encode_key tag t @ rest) = Inr ((tag, t), rest)"
proof -
  obtain w where w: "w < 8" "wire_type_number t = of_nat w" "wire_type_try_from (of_nat w) = Inr t"
    using wire_type_number_nat by blast
  have tag: "1 \<le> unat tag" "unat tag < 2 ^ 29" using assms by (simp_all add: tag_ok_unat)
  define k where "k = w + 8 * unat tag"
  have k: "k < 2 ^ 32" "k mod 8 = w" "k div 8 = unat tag" using w(1) tag by (simp_all add: k_def)
  note key = key_nat [OF w(1) tag(2), folded k_def]
  have "\<not> (of_nat k :: 64 word) > U32_MAX"
    using k(1) by (simp add: U32_MAX_def word_less_nat_alt unsigned_of_nat take_bit_nat_eq_self)
  moreover have "(of_nat k :: 64 word) AND 0x07 = of_nat w"
  proof -
    have "(of_nat k :: 64 word) AND 0x07 = take_bit 3 (of_nat k)"
      by (simp add: take_bit_eq_mask mask_eq_exp_minus_1)
    also have "\<dots> = of_nat (take_bit 3 k)" by (simp add: take_bit_of_nat)
    finally show ?thesis by (simp add: take_bit_eq_mod k(2))
  qed
  moreover have "drop_bit 3 (ucast (of_nat k :: 64 word) :: 32 word) = tag"
  proof -
    have "(ucast (of_nat k :: 64 word) :: 32 word) = of_nat k"
      using k(1) by (simp add: unsigned_of_nat take_bit_nat_eq_self)
    moreover have "unat (of_nat k :: 32 word) = k"
      using k(1) by (simp add: unsigned_of_nat take_bit_nat_eq_self)
    ultimately have "unat (drop_bit 3 (ucast (of_nat k :: 64 word) :: 32 word)) = unat tag"
      by (simp add: drop_bit_eq_div unat_div_distrib k(3))
    then show ?thesis by (simp add: word_unat_eq_iff)
  qed
  moreover have "\<not> tag < MIN_TAG" using assms by (simp add: tag_ok_def not_less)
  ultimately show ?thesis
    using w by (simp add: encode_key_def decode_key_def key Let_def)
qed

lemma encode_key_nonempty [simp]: "encode_key tag t \<noteq> []"
  by (simp add: encode_key_def encode_varint_def numeral_eq_Suc)

lemma length_encode_key:
  assumes "tag_ok tag"
  shows "length (encode_key tag t) = key_len tag"
proof -
  obtain w where w: "w < 8" "wire_type_number t = of_nat w"
    using wire_type_number_nat by blast
  have tag: "1 \<le> unat tag" "unat tag < 2 ^ 29" using assms by (simp_all add: tag_ok_unat)
  have log: "ilog2 (unat (of_nat (v + 8 * unat tag) OR 1 :: 64 word)) = ilog2 (unat tag) + 3" if "v < 8" for v
  proof -
    have "unat (of_nat (v + 8 * unat tag) OR 1 :: 64 word) = (v + 8 * unat tag) OR 1"
      using that tag by (simp add: unsigned_or_eq unsigned_of_nat take_bit_nat_eq_self del: of_nat_add)
    then show ?thesis
      using that tag ilog2_or_1 [of "v + 8 * unat tag"] ilog2_shift [of 3 "v + 8 * unat tag"] by simp
  qed
  show ?thesis
    using log [OF w(1)] log [of 0] key_nat [OF w(1) tag(2)] key_nat [of 0 tag] tag
    by (simp add: encode_key_def key_len_def length_encode_varint encoded_len_varint_def w(2) del: of_nat_add)
qed

lemma length_varint_encode: "tag_ok tag \<Longrightarrow> length (varint_encode tag v) = varint_len tag v"
  by (simp add: varint_encode_def varint_len_def length_encode_key length_encode_varint)

lemma length_bytes_encode: "tag_ok tag \<Longrightarrow> length (bytes_encode tag v) = bytes_len tag v"
  by (simp add: bytes_encode_def bytes_len_def length_encode_key length_encode_varint)

lemma string_encode_bytes: "string_encode = bytes_encode"
  by (intro ext) (simp add: string_encode_def bytes_encode_def)

lemma int32_round_trip [simp]: "int32_from_uint64 (int32_to_uint64 v) = v"
  unfolding int32_from_uint64_def int32_to_uint64_def by (rule bit_word_eqI) (simp add: bit_simps)

lemma uint32_round_trip [simp]: "uint32_from_uint64 (uint32_to_uint64 v) = v"
  unfolding uint32_from_uint64_def uint32_to_uint64_def by (rule bit_word_eqI) (simp add: bit_simps)

lemma bool_round_trip [simp]: "bool_from_uint64 (bool_to_uint64 v) = v"
  by (simp add: bool_from_uint64_def bool_to_uint64_def)

lemma varint_merge_encode [simp]:
  "varint_merge f Varint (encode_varint v @ rest) = Inr (f v, rest)"
  by (simp add: varint_merge_def)

text \<open>A length that fits \<^verbatim>\<open>usize\<close>.\<close>

definition fits :: "nat \<Rightarrow> bool" where
  "fits n \<longleftrightarrow> n < 2 ^ 64"

lemma unat_fits [simp]: "fits n \<Longrightarrow> unat (of_nat n :: 64 word) = n"
  by (simp add: fits_def unsigned_of_nat take_bit_nat_eq_self)

lemma bytes_merge_encode [simp]:
  "fits (length v) \<Longrightarrow> bytes_merge LengthDelimited (encode_varint (of_nat (length v)) @ v @ rest) = Inr (v, rest)"
  by (simp add: bytes_merge_def)

lemma string_merge_encode [simp]:
  "fits (length v) \<Longrightarrow> utf8_valid v \<Longrightarrow>
   string_merge LengthDelimited (encode_varint (of_nat (length v)) @ v @ rest) = Inr (v, rest)"
  by (simp add: string_merge_def)

section \<open>The bounded loops are the loops of the code\<close>

lemma decode_key_shrinks: "decode_key buf = Inr (k, rest) \<Longrightarrow> length rest < length buf"
  by (auto simp: decode_key_def and_then_Inr_iff Let_def split: if_splits dest: decode_varint_shrinks)

lemma merge_step_shrinks:
  assumes "\<And>tag t m buf m' rest. mf ctx tag t m buf = Inr (m', rest) \<Longrightarrow> length rest \<le> length buf"
  shows "merge_step mf ctx m buf = Inr (m', rest) \<Longrightarrow> length rest < length buf"
  by (fastforce simp: merge_step_def and_then_Inr_iff dest: decode_key_shrinks assms)

lemma merge_while_more:
  assumes shrinks: "\<And>m buf m' rest. step m buf = Inr (m', rest) \<Longrightarrow> length rest < length buf"
  shows "length buf \<le> n \<Longrightarrow> merge_while n step limit m buf = merge_while (length buf) step limit m buf"
proof (induction n arbitrary: m buf rule: less_induct)
  case (less n)
  show ?case
  proof (cases buf)
    case Nil
    then show ?thesis by (cases n) simp_all
  next
    case (Cons c cs)
    with less.prems obtain k where n: "n = Suc k" by (cases n) auto
    show ?thesis
    proof (cases "length buf > limit")
      case True
      show ?thesis
      proof (cases "step m buf")
        case (Inr r)
        obtain m' rest where r: "r = (m', rest)" by (cases r)
        then have "length rest < length buf" using Inr shrinks by blast
        then have "length rest \<le> k" "length rest \<le> length cs" "k < n" "length cs < n"
          using less.prems n Cons by auto
        then show ?thesis
          using less.IH [of k rest m'] less.IH [of "length cs" rest m'] True Inr r n Cons by simp
      qed (use True n Cons in simp)
    qed (use n Cons in simp)
  qed
qed


lemma skip_group_le:
  assumes "\<And>t tag buf rest. skip t tag buf = Inr rest \<Longrightarrow> length rest \<le> length buf"
  shows "skip_group n skip tag buf = Inr rest \<Longrightarrow> length rest \<le> length buf"
proof (induction n arbitrary: buf)
  case (Suc n)
  then show ?case
    by (fastforce simp: and_then_Inr_iff split: if_splits dest: decode_key_shrinks assms)
qed simp

lemma skip_field_le: "skip_field ctx t tag buf = Inr rest \<Longrightarrow> length rest \<le> length buf"
proof (induction ctx arbitrary: t tag buf rest)
  case (Suc ctx)
  then show ?case
    by (cases t) (fastforce simp: and_then_Inr_iff split: if_splits
        dest: decode_varint_shrinks skip_group_le [of "skip_field ctx", rotated])+
qed simp

lemma skip_group_more:
  assumes le: "\<And>t tag buf rest. skip t tag buf = Inr rest \<Longrightarrow> length rest \<le> length buf"
  shows "length buf \<le> n \<Longrightarrow> skip_group n skip tag buf = skip_group (length buf) skip tag buf"
proof (induction n arbitrary: buf rule: less_induct)
  case (less n)
  show ?case
  proof (cases buf)
    case Nil
    then show ?thesis by (cases n) (simp_all add: decode_key_def)
  next
    case (Cons c cs)
    with less.prems obtain k where n: "n = Suc k" by (cases n) auto
    have "skip_group k skip tag rest = skip_group (length cs) skip tag rest"
      if "length rest \<le> length cs" for rest
      using less.IH [of k rest] less.IH [of "length cs" rest] that less.prems n Cons by simp
    then show ?thesis
      using le decode_key_shrinks [of buf] unfolding n Cons
      by (fastforce simp: and_then_def split: sum.splits prod.splits)
  qed
qed

section \<open>Sequences of fields\<close>

text \<open>Merging the bytes \<open>e\<close>, a sequence of whole fields, turns the message \<open>m\<close> into \<open>m'\<close>.\<close>

inductive absorbs :: "('m \<Rightarrow> bytes \<Rightarrow> 'm reading) \<Rightarrow> 'm \<Rightarrow> bytes \<Rightarrow> 'm \<Rightarrow> bool" for step where
  no_field: "absorbs step m [] m"
| one_field:
    "e \<noteq> [] \<Longrightarrow> (\<And>rest. step m (e @ rest) = Inr (m', rest)) \<Longrightarrow> absorbs step m' es m''
     \<Longrightarrow> absorbs step m (e @ es) m''"

lemma absorbs_run:
  "absorbs step m e m' \<Longrightarrow> length (e @ rest) \<le> n \<Longrightarrow>
   merge_while n step (length rest) m (e @ rest) = Inr (m', rest)"
proof (induction arbitrary: n rule: absorbs.induct)
  case (no_field m)
  then show ?case by (cases n) simp_all
next
  case (one_field e m m' es m'')
  then obtain k where "n = Suc k" by (cases n; cases e) auto
  with one_field show ?case by (cases e) simp_all
qed

lemma absorbs_append:
  "absorbs step m e m' \<Longrightarrow> absorbs step m' e' m'' \<Longrightarrow> absorbs step m (e @ e') m''"
  by (induction rule: absorbs.induct) (auto intro: absorbs.one_field)

lemma absorbs_field:
  "tag_ok tag \<Longrightarrow> (\<And>rest. mf ctx tag t m (e @ rest) = Inr (m', rest))
   \<Longrightarrow> absorbs (merge_step mf ctx) m (encode_key tag t @ e) m'"
  using absorbs.one_field [of "encode_key tag t @ e" "merge_step mf ctx" m m' "[]" m']
  by (simp add: merge_step_def absorbs.no_field)

lemma absorbs_plain:
  "(v \<noteq> d \<Longrightarrow> absorbs step m (e v) m') \<Longrightarrow> (v = d \<Longrightarrow> m' = m)
   \<Longrightarrow> absorbs step m (if v \<noteq> d then e v else []) m'"
  by (auto intro: absorbs.no_field)

lemma absorbs_repeated:
  assumes "\<And>xs x. x \<in> set ys \<Longrightarrow> absorbs step (upd xs) (e x) (upd (xs @ [x]))"
  shows "absorbs step (upd zs) (concat (map e ys)) (upd (zs @ ys))"
  using assms
proof (induction ys arbitrary: zs)
  case (Cons y ys)
  then have "absorbs step (upd (zs @ [y])) (concat (map e ys)) (upd ((zs @ [y]) @ ys))"
    by (metis list.set_intros(2))
  with Cons.prems [of y zs] show ?case by (auto intro: absorbs_append)
qed (simp add: absorbs.no_field)

section \<open>Message types\<close>

text \<open>
  What the derived code of a message type promises: merging never grows the buffer, the computed
  length is the length of the encoding, and the fields of an encoding merge into a default message as
  the encoded message, given \<open>depth\<close> levels of nesting. \<open>wf\<close> holds of the values Rust can hold.
\<close>

locale proto_message =
  fixes merge_field :: "'m field_merger"
    and encode_raw :: "'m \<Rightarrow> bytes"
    and encoded_len :: "'m \<Rightarrow> nat"
    and dflt :: 'm
    and wf :: "'m \<Rightarrow> bool"
    and depth :: nat
  assumes merge_le: "merge_field ctx tag t m buf = Inr (m', rest) \<Longrightarrow> length rest \<le> length buf"
    and encoded_length: "encoded_len m = length (encode_raw m)"
    and encode_absorbs:
      "wf m \<Longrightarrow> depth \<le> ctx \<Longrightarrow> absorbs (merge_step merge_field ctx) dflt (encode_raw m) m"
begin

lemma decode_encode:
  assumes "wf m" "depth \<le> RECURSION_LIMIT"
  shows "message_decode merge_field dflt (encode_raw m) = Inr m"
  using absorbs_run [OF encode_absorbs [OF assms], of "[]"] by (simp add: message_decode_def)

lemma decode_encode_more:
  assumes "wf m" "depth \<le> RECURSION_LIMIT"
    and "absorbs (merge_step merge_field RECURSION_LIMIT) m extra m'"
  shows "message_decode merge_field dflt (encode_raw m @ extra) = Inr m'"
  using absorbs_run [OF absorbs_append [OF encode_absorbs [OF assms(1,2)] assms(3)], of "[]"]
  by (simp add: message_decode_def)

lemma merge_encode:
  assumes "wf m" "fits (length (encode_raw m))" "depth < ctx"
  shows "message_merge merge_field ctx LengthDelimited dflt
    (encode_varint (of_nat (encoded_len m)) @ encode_raw m @ rest) = Inr (m, rest)"
  using absorbs_run [OF encode_absorbs [OF assms(1), of "ctx - 1"], of rest] assms
  by (simp add: message_merge_def merge_loop_def encoded_length Let_def)

lemma merge_loop_le:
  "merge_loop (merge_step merge_field ctx) m buf = Inr (m', rest) \<Longrightarrow> length rest \<le> length buf"
  by (auto simp: merge_loop_def and_then_Inr_iff Let_def split: if_splits dest!: decode_varint_shrinks)

lemma message_merge_le:
  "message_merge merge_field ctx t m buf = Inr (m', rest) \<Longrightarrow> length rest \<le> length buf"
  by (auto simp: message_merge_def and_then_Inr_iff split: if_splits dest: merge_loop_le)

lemma merge_repeated_le:
  "message_merge_repeated merge_field dflt ctx t ms buf = Inr (ms', rest) \<Longrightarrow> length rest \<le> length buf"
  by (auto simp: message_merge_repeated_def and_then_Inr_iff split: if_splits dest: message_merge_le)

lemma length_message_encode:
  "tag_ok tag \<Longrightarrow> length (message_encode encoded_len encode_raw tag m) = message_len encoded_len tag m"
  by (simp add: message_encode_def message_len_def length_encode_key length_encode_varint encoded_length)

lemma length_message_repeated:
  "tag_ok tag \<Longrightarrow> length (concat (map (message_encode encoded_len encode_raw tag) ms)) =
     message_len_repeated encoded_len tag ms"
  by (induction ms)
    (simp_all add: length_message_encode message_len_def message_len_repeated_def)

text \<open>The bound on the rounds of the loops does not cut them short.\<close>

lemma merge_while_exact:
  "length buf \<le> n \<Longrightarrow>
   merge_while n (merge_step merge_field ctx) limit m buf =
     merge_while (length buf) (merge_step merge_field ctx) limit m buf"
  by (rule merge_while_more, erule merge_step_shrinks [rotated], erule merge_le)

end

end
