(* ===== verification/Messages.thy ===== *)
theory Messages
  imports Prost Wire
begin

text \<open>
  The messages of \<^verbatim>\<open>backup.proto\<close> as bytes: the code \<^verbatim>\<open>prost-derive\<close> writes for each message type
  (encoding in the order of the tags with default values left out, merging of one field by its tag,
  the computed length), from the field declarations of the proto file. Every type is an interpretation
  of the contract of a message type, so every message survives the trip over the wire.
\<close>

section \<open>Pieces of the derived code\<close>

text \<open>A merged field; an error names the message and the field.\<close>

definition set_field :: "string \<Rightarrow> string \<Rightarrow> ('v \<Rightarrow> 'm) \<Rightarrow> 'v reading \<Rightarrow> 'm reading" where
  "set_field message field put r =
     map_err (decode_error_push message field) (and_then r (\<lambda>(v, buf). Inr (put v, buf)))"

definition unknown_field :: "nat \<Rightarrow> 32 word \<Rightarrow> wire_type \<Rightarrow> 'm \<Rightarrow> bytes \<Rightarrow> 'm reading" where
  "unknown_field ctx tag wire_type msg buf =
     and_then (skip_field ctx wire_type tag buf) (\<lambda>buf. Inr (msg, buf))"

definition get_or_insert :: "'v \<Rightarrow> 'v option \<Rightarrow> 'v" where
  "get_or_insert d x = (case x of Some v \<Rightarrow> v | None \<Rightarrow> d)"

definition plain :: "('v \<Rightarrow> bytes) \<Rightarrow> 'v \<Rightarrow> 'v \<Rightarrow> bytes" where
  "plain encode d v = (if v \<noteq> d then encode v else [])"

definition plain_len :: "('v \<Rightarrow> nat) \<Rightarrow> 'v \<Rightarrow> 'v \<Rightarrow> nat" where
  "plain_len len d v = (if v \<noteq> d then len v else 0)"

definition optional :: "('v \<Rightarrow> bytes) \<Rightarrow> 'v option \<Rightarrow> bytes" where
  "optional encode x = (case x of Some v \<Rightarrow> encode v | None \<Rightarrow> [])"

definition optional_len :: "('v \<Rightarrow> nat) \<Rightarrow> 'v option \<Rightarrow> nat" where
  "optional_len len x = (case x of Some v \<Rightarrow> len v | None \<Rightarrow> 0)"

section \<open>Timestamp\<close>

definition timestamp_default :: proto_timestamp where
  "timestamp_default = \<lparr>seconds = 0, nanos = 0\<rparr>"

definition timestamp_encode_raw :: "proto_timestamp \<Rightarrow> bytes" where
  "timestamp_encode_raw m =
     plain (varint_encode 1) 0 (seconds m)
     @ plain (\<lambda>v. varint_encode 2 (int32_to_uint64 v)) 0 (nanos m)"

definition timestamp_merge_field :: "proto_timestamp field_merger" where
  "timestamp_merge_field ctx tag wire_type m buf =
     (if tag = 1 then
        set_field ''Timestamp'' ''seconds'' (\<lambda>v. m\<lparr>seconds := v\<rparr>) (varint_merge id wire_type buf)
      else if tag = 2 then
        set_field ''Timestamp'' ''nanos'' (\<lambda>v. m\<lparr>nanos := v\<rparr>) (varint_merge int32_from_uint64 wire_type buf)
      else unknown_field ctx tag wire_type m buf)"

definition timestamp_encoded_len :: "proto_timestamp \<Rightarrow> nat" where
  "timestamp_encoded_len m =
     0 + plain_len (varint_len 1) 0 (seconds m)
     + plain_len (\<lambda>v. varint_len 2 (int32_to_uint64 v)) 0 (nanos m)"

section \<open>BackupInfo\<close>

definition info_default :: proto_info where
  "info_default =
     \<lparr>pi_id = [], pi_name = [], pi_created_at = None, pi_size_bytes = None, pi_format = 0, pi_kind = 0\<rparr>"

definition info_encode_raw :: "proto_info \<Rightarrow> bytes" where
  "info_encode_raw m =
     plain (string_encode 1) [] (pi_id m)
     @ plain (string_encode 2) [] (pi_name m)
     @ optional (message_encode timestamp_encoded_len timestamp_encode_raw 3) (pi_created_at m)
     @ optional (varint_encode 4) (pi_size_bytes m)
     @ plain (\<lambda>v. varint_encode 5 (int32_to_uint64 v)) 0 (pi_format m)
     @ plain (\<lambda>v. varint_encode 6 (int32_to_uint64 v)) 0 (pi_kind m)"

definition info_merge_field :: "proto_info field_merger" where
  "info_merge_field ctx tag wire_type m buf =
     (if tag = 1 then
        set_field ''BackupInfo'' ''id'' (\<lambda>v. m\<lparr>pi_id := v\<rparr>) (string_merge wire_type buf)
      else if tag = 2 then
        set_field ''BackupInfo'' ''name'' (\<lambda>v. m\<lparr>pi_name := v\<rparr>) (string_merge wire_type buf)
      else if tag = 3 then
        set_field ''BackupInfo'' ''created_at'' (\<lambda>v. m\<lparr>pi_created_at := Some v\<rparr>)
          (message_merge timestamp_merge_field ctx wire_type
             (get_or_insert timestamp_default (pi_created_at m)) buf)
      else if tag = 4 then
        set_field ''BackupInfo'' ''size_bytes'' (\<lambda>v. m\<lparr>pi_size_bytes := Some v\<rparr>) (varint_merge id wire_type buf)
      else if tag = 5 then
        set_field ''BackupInfo'' ''format'' (\<lambda>v. m\<lparr>pi_format := v\<rparr>) (varint_merge int32_from_uint64 wire_type buf)
      else if tag = 6 then
        set_field ''BackupInfo'' ''kind'' (\<lambda>v. m\<lparr>pi_kind := v\<rparr>) (varint_merge int32_from_uint64 wire_type buf)
      else unknown_field ctx tag wire_type m buf)"

definition info_encoded_len :: "proto_info \<Rightarrow> nat" where
  "info_encoded_len m =
     0 + plain_len (bytes_len 1) [] (pi_id m)
     + plain_len (bytes_len 2) [] (pi_name m)
     + optional_len (message_len timestamp_encoded_len 3) (pi_created_at m)
     + optional_len (varint_len 4) (pi_size_bytes m)
     + plain_len (\<lambda>v. varint_len 5 (int32_to_uint64 v)) 0 (pi_format m)
     + plain_len (\<lambda>v. varint_len 6 (int32_to_uint64 v)) 0 (pi_kind m)"

section \<open>Requests and replies without fields\<close>

text \<open>\<^verbatim>\<open>CreateBackupRequest\<close> and \<^verbatim>\<open>HealthcheckRequest\<close>.\<close>

definition empty_encode_raw :: "unit \<Rightarrow> bytes" where
  "empty_encode_raw m = []"

definition empty_merge_field :: "unit field_merger" where
  "empty_merge_field ctx tag wire_type m buf = unknown_field ctx tag wire_type m buf"

definition empty_encoded_len :: "unit \<Rightarrow> nat" where
  "empty_encoded_len m = 0"

section \<open>ListBackups\<close>

definition list_request_default :: list_request_msg where
  "list_request_default = \<lparr>lr_page_size = 0, lr_page_token = []\<rparr>"

definition list_request_encode_raw :: "list_request_msg \<Rightarrow> bytes" where
  "list_request_encode_raw m =
     plain (\<lambda>v. varint_encode 1 (uint32_to_uint64 v)) 0 (lr_page_size m)
     @ plain (string_encode 2) [] (lr_page_token m)"

definition list_request_merge_field :: "list_request_msg field_merger" where
  "list_request_merge_field ctx tag wire_type m buf =
     (if tag = 1 then
        set_field ''ListBackupsRequest'' ''page_size'' (\<lambda>v. m\<lparr>lr_page_size := v\<rparr>)
          (varint_merge uint32_from_uint64 wire_type buf)
      else if tag = 2 then
        set_field ''ListBackupsRequest'' ''page_token'' (\<lambda>v. m\<lparr>lr_page_token := v\<rparr>) (string_merge wire_type buf)
      else unknown_field ctx tag wire_type m buf)"

definition list_request_encoded_len :: "list_request_msg \<Rightarrow> nat" where
  "list_request_encoded_len m =
     0 + plain_len (\<lambda>v. varint_len 1 (uint32_to_uint64 v)) 0 (lr_page_size m)
     + plain_len (bytes_len 2) [] (lr_page_token m)"

definition list_reply_default :: list_reply where
  "list_reply_default = \<lparr>lr_backups = [], lr_next_page_token = []\<rparr>"

definition list_reply_encode_raw :: "list_reply \<Rightarrow> bytes" where
  "list_reply_encode_raw m =
     concat (map (message_encode info_encoded_len info_encode_raw 1) (lr_backups m))
     @ plain (string_encode 2) [] (lr_next_page_token m)"

definition list_reply_merge_field :: "list_reply field_merger" where
  "list_reply_merge_field ctx tag wire_type m buf =
     (if tag = 1 then
        set_field ''ListBackupsReply'' ''backups'' (\<lambda>v. m\<lparr>lr_backups := v\<rparr>)
          (message_merge_repeated info_merge_field info_default ctx wire_type (lr_backups m) buf)
      else if tag = 2 then
        set_field ''ListBackupsReply'' ''next_page_token'' (\<lambda>v. m\<lparr>lr_next_page_token := v\<rparr>)
          (string_merge wire_type buf)
      else unknown_field ctx tag wire_type m buf)"

definition list_reply_encoded_len :: "list_reply \<Rightarrow> nat" where
  "list_reply_encoded_len m =
     0 + message_len_repeated info_encoded_len 1 (lr_backups m)
     + plain_len (bytes_len 2) [] (lr_next_page_token m)"

section \<open>BackupRef\<close>

fun target_encode :: "proto_target \<Rightarrow> bytes" where
  "target_encode (ProtoId v) = string_encode 1 v"
| "target_encode (ProtoLatest v) = varint_encode 2 (bool_to_uint64 v)"

fun target_encoded_len :: "proto_target \<Rightarrow> nat" where
  "target_encoded_len (ProtoId v) = bytes_len 1 v"
| "target_encoded_len (ProtoLatest v) = varint_len 2 (bool_to_uint64 v)"

text \<open>Merging into the variant that is set and into a new one both replace a scalar.\<close>

definition target_merge :: "32 word \<Rightarrow> wire_type \<Rightarrow> bytes \<Rightarrow> proto_target option reading" where
  "target_merge tag wire_type buf =
     (if tag = 1 then and_then (string_merge wire_type buf) (\<lambda>(v, buf). Inr (Some (ProtoId v), buf))
      else and_then (varint_merge bool_from_uint64 wire_type buf) (\<lambda>(v, buf). Inr (Some (ProtoLatest v), buf)))"

definition ref_default :: proto_ref where
  "ref_default = \<lparr>ref_target = None\<rparr>"

definition ref_encode_raw :: "proto_ref \<Rightarrow> bytes" where
  "ref_encode_raw m = optional target_encode (ref_target m)"

definition ref_merge_field :: "proto_ref field_merger" where
  "ref_merge_field ctx tag wire_type m buf =
     (if tag = 1 \<or> tag = 2 then
        set_field ''BackupRef'' ''target'' (\<lambda>v. m\<lparr>ref_target := v\<rparr>) (target_merge tag wire_type buf)
      else unknown_field ctx tag wire_type m buf)"

definition ref_encoded_len :: "proto_ref \<Rightarrow> nat" where
  "ref_encoded_len m = 0 + optional_len target_encoded_len (ref_target m)"

section \<open>DownloadChunk\<close>

fun payload_encode :: "payload \<Rightarrow> bytes" where
  "payload_encode (Info v) = message_encode info_encoded_len info_encode_raw 1 v"
| "payload_encode (Data v) = bytes_encode 2 v"

fun payload_encoded_len :: "payload \<Rightarrow> nat" where
  "payload_encoded_len (Info v) = message_len info_encoded_len 1 v"
| "payload_encoded_len (Data v) = bytes_len 2 v"

definition payload_merge ::
  "payload option \<Rightarrow> nat \<Rightarrow> 32 word \<Rightarrow> wire_type \<Rightarrow> bytes \<Rightarrow> payload option reading" where
  "payload_merge field ctx tag wire_type buf =
     (if tag = 1 then
        and_then (message_merge info_merge_field ctx wire_type
                    (case field of Some (Info v) \<Rightarrow> v | _ \<Rightarrow> info_default) buf)
          (\<lambda>(v, buf). Inr (Some (Info v), buf))
      else and_then (bytes_merge wire_type buf) (\<lambda>(v, buf). Inr (Some (Data v), buf)))"

definition chunk_default :: download_chunk where
  "chunk_default = \<lparr>chunk_payload = None\<rparr>"

definition chunk_encode_raw :: "download_chunk \<Rightarrow> bytes" where
  "chunk_encode_raw m = optional payload_encode (chunk_payload m)"

definition chunk_merge_field :: "download_chunk field_merger" where
  "chunk_merge_field ctx tag wire_type m buf =
     (if tag = 1 \<or> tag = 2 then
        set_field ''DownloadChunk'' ''payload'' (\<lambda>v. m\<lparr>chunk_payload := v\<rparr>)
          (payload_merge (chunk_payload m) ctx tag wire_type buf)
      else unknown_field ctx tag wire_type m buf)"

definition chunk_encoded_len :: "download_chunk \<Rightarrow> nat" where
  "chunk_encoded_len m = 0 + optional_len payload_encoded_len (chunk_payload m)"

section \<open>Restore\<close>

definition restore_request_default :: restore_request_msg where
  "restore_request_default = \<lparr>rr_backup = None, rr_confirm_db_name = []\<rparr>"

definition restore_request_encode_raw :: "restore_request_msg \<Rightarrow> bytes" where
  "restore_request_encode_raw m =
     optional (message_encode ref_encoded_len ref_encode_raw 1) (rr_backup m)
     @ plain (string_encode 2) [] (rr_confirm_db_name m)"

definition restore_request_merge_field :: "restore_request_msg field_merger" where
  "restore_request_merge_field ctx tag wire_type m buf =
     (if tag = 1 then
        set_field ''RestoreRequest'' ''backup'' (\<lambda>v. m\<lparr>rr_backup := Some v\<rparr>)
          (message_merge ref_merge_field ctx wire_type (get_or_insert ref_default (rr_backup m)) buf)
      else if tag = 2 then
        set_field ''RestoreRequest'' ''confirm_db_name'' (\<lambda>v. m\<lparr>rr_confirm_db_name := v\<rparr>)
          (string_merge wire_type buf)
      else unknown_field ctx tag wire_type m buf)"

definition restore_request_encoded_len :: "restore_request_msg \<Rightarrow> nat" where
  "restore_request_encoded_len m =
     0 + optional_len (message_len ref_encoded_len 1) (rr_backup m)
     + plain_len (bytes_len 2) [] (rr_confirm_db_name m)"

definition restore_reply_default :: restore_reply where
  "restore_reply_default = \<lparr>rr_restored = None, rr_pre_restore = None\<rparr>"

definition restore_reply_encode_raw :: "restore_reply \<Rightarrow> bytes" where
  "restore_reply_encode_raw m =
     optional (message_encode info_encoded_len info_encode_raw 1) (rr_restored m)
     @ optional (message_encode info_encoded_len info_encode_raw 2) (rr_pre_restore m)"

definition restore_reply_merge_field :: "restore_reply field_merger" where
  "restore_reply_merge_field ctx tag wire_type m buf =
     (if tag = 1 then
        set_field ''RestoreReply'' ''restored'' (\<lambda>v. m\<lparr>rr_restored := Some v\<rparr>)
          (message_merge info_merge_field ctx wire_type (get_or_insert info_default (rr_restored m)) buf)
      else if tag = 2 then
        set_field ''RestoreReply'' ''pre_restore_backup'' (\<lambda>v. m\<lparr>rr_pre_restore := Some v\<rparr>)
          (message_merge info_merge_field ctx wire_type (get_or_insert info_default (rr_pre_restore m)) buf)
      else unknown_field ctx tag wire_type m buf)"

definition restore_reply_encoded_len :: "restore_reply \<Rightarrow> nat" where
  "restore_reply_encoded_len m =
     0 + optional_len (message_len info_encoded_len 1) (rr_restored m)
     + optional_len (message_len info_encoded_len 2) (rr_pre_restore m)"

section \<open>HealthcheckReply\<close>

record healthcheck_reply =
  hr_is_ok :: bool

definition health_default :: healthcheck_reply where
  "health_default = \<lparr>hr_is_ok = False\<rparr>"

definition health_encode_raw :: "healthcheck_reply \<Rightarrow> bytes" where
  "health_encode_raw m = plain (\<lambda>v. varint_encode 1 (bool_to_uint64 v)) False (hr_is_ok m)"

definition health_merge_field :: "healthcheck_reply field_merger" where
  "health_merge_field ctx tag wire_type m buf =
     (if tag = 1 then
        set_field ''HealthcheckReply'' ''is_ok'' (\<lambda>v. m\<lparr>hr_is_ok := v\<rparr>) (varint_merge bool_from_uint64 wire_type buf)
      else unknown_field ctx tag wire_type m buf)"

definition health_encoded_len :: "healthcheck_reply \<Rightarrow> nat" where
  "health_encoded_len m = 0 + plain_len (\<lambda>v. varint_len 1 (bool_to_uint64 v)) False (hr_is_ok m)"


section \<open>Each message type keeps the contract\<close>

text \<open>The values of Rust: strings are UTF-8, and what is prefixed with its length fits \<^verbatim>\<open>usize\<close>.\<close>

definition string_ok :: "string \<Rightarrow> bool" where
  "string_ok s \<longleftrightarrow> utf8_valid s \<and> fits (length s)"

definition info_ok :: "proto_info \<Rightarrow> bool" where
  "info_ok m \<longleftrightarrow> string_ok (pi_id m) \<and> string_ok (pi_name m)"

definition info_fits :: "proto_info \<Rightarrow> bool" where
  "info_fits m \<longleftrightarrow> info_ok m \<and> fits (length (info_encode_raw m))"

definition list_request_ok :: "list_request_msg \<Rightarrow> bool" where
  "list_request_ok m \<longleftrightarrow> string_ok (lr_page_token m)"

definition list_reply_ok :: "list_reply \<Rightarrow> bool" where
  "list_reply_ok m \<longleftrightarrow> list_all info_fits (lr_backups m) \<and> string_ok (lr_next_page_token m)"

fun target_ok :: "proto_target \<Rightarrow> bool" where
  "target_ok (ProtoId v) \<longleftrightarrow> string_ok v"
| "target_ok (ProtoLatest v) \<longleftrightarrow> True"

definition ref_ok :: "proto_ref \<Rightarrow> bool" where
  "ref_ok m \<longleftrightarrow> pred_option target_ok (ref_target m)"

fun payload_ok :: "payload \<Rightarrow> bool" where
  "payload_ok (Info v) \<longleftrightarrow> info_fits v"
| "payload_ok (Data v) \<longleftrightarrow> fits (length v)"

definition chunk_msg_ok :: "download_chunk \<Rightarrow> bool" where
  "chunk_msg_ok m \<longleftrightarrow> pred_option payload_ok (chunk_payload m)"

definition ref_fits :: "proto_ref \<Rightarrow> bool" where
  "ref_fits m \<longleftrightarrow> ref_ok m \<and> fits (length (ref_encode_raw m))"

definition restore_request_ok :: "restore_request_msg \<Rightarrow> bool" where
  "restore_request_ok m \<longleftrightarrow> pred_option ref_fits (rr_backup m) \<and> string_ok (rr_confirm_db_name m)"

definition restore_reply_ok :: "restore_reply \<Rightarrow> bool" where
  "restore_reply_ok m \<longleftrightarrow> pred_option info_fits (rr_restored m) \<and> pred_option info_fits (rr_pre_restore m)"

lemma tag_ok_numeral [simp]:
  "tag_ok 1" "tag_ok 2" "tag_ok 3" "tag_ok 4" "tag_ok 5" "tag_ok 6"
  by (simp_all add: tag_ok_unat)

text \<open>Fields one at a time.\<close>

lemma set_field_Inr [simp]: "set_field n f put (Inr (v, buf)) = Inr (put v, buf)"
  by (simp add: set_field_def)

lemma set_field_Inr_iff [simp]:
  "set_field n f put r = Inr (m, buf) \<longleftrightarrow> (\<exists>v. r = Inr (v, buf) \<and> m = put v)"
  by (auto simp: set_field_def and_then_Inr_iff)

lemma get_or_insert_None [simp]: "get_or_insert d None = d"
  by (simp add: get_or_insert_def)

lemma absorbs_plain_field:
  assumes "v \<noteq> d \<Longrightarrow> absorbs step m (encode v) m'" "v = d \<Longrightarrow> m' = m"
  shows "absorbs step m (plain encode d v) m'"
  unfolding plain_def using assms by (rule absorbs_plain)

lemma absorbs_optional_field:
  assumes "\<And>v. x = Some v \<Longrightarrow> absorbs step m (encode v) m'" "x = None \<Longrightarrow> m' = m"
  shows "absorbs step m (optional encode x) m'"
  using assms by (cases x) (auto simp: optional_def intro: absorbs.no_field)

lemma absorbs_varint:
  "tag_ok tag \<Longrightarrow> (\<And>rest. mf ctx tag Varint m (encode_varint v @ rest) = Inr (m', rest))
   \<Longrightarrow> absorbs (merge_step mf ctx) m (varint_encode tag v) m'"
  unfolding varint_encode_def by (rule absorbs_field)

lemma absorbs_bytes:
  "tag_ok tag \<Longrightarrow>
   (\<And>rest. mf ctx tag LengthDelimited m (encode_varint (of_nat (length v)) @ v @ rest) = Inr (m', rest))
   \<Longrightarrow> absorbs (merge_step mf ctx) m (bytes_encode tag v) m'"
  unfolding bytes_encode_def by (rule absorbs_field) simp_all

lemma absorbs_message:
  "tag_ok tag \<Longrightarrow>
   (\<And>rest. mf ctx tag LengthDelimited m (encode_varint (of_nat (len v)) @ raw v @ rest) = Inr (m', rest))
   \<Longrightarrow> absorbs (merge_step mf ctx) m (message_encode len raw tag v) m'"
  unfolding message_encode_def by (rule absorbs_field) simp_all

lemma varint_merge_le: "varint_merge f t buf = Inr (v, rest) \<Longrightarrow> length rest \<le> length buf"
  by (auto simp: varint_merge_def and_then_Inr_iff dest: decode_varint_shrinks)

lemma bytes_merge_le: "bytes_merge t buf = Inr (v, rest) \<Longrightarrow> length rest \<le> length buf"
  by (auto simp: bytes_merge_def and_then_Inr_iff split: if_splits dest: decode_varint_shrinks)

lemma string_merge_le: "string_merge t buf = Inr (v, rest) \<Longrightarrow> length rest \<le> length buf"
  by (auto simp: string_merge_def and_then_Inr_iff split: if_splits dest: bytes_merge_le)

lemma unknown_field_le: "unknown_field ctx tag t m buf = Inr (m', rest) \<Longrightarrow> length rest \<le> length buf"
  by (auto simp: unknown_field_def and_then_Inr_iff dest: skip_field_le)

lemmas scalar_le = varint_merge_le bytes_merge_le string_merge_le unknown_field_le

lemma length_plain: "(\<And>v. length (encode v) = len v) \<Longrightarrow> length (plain encode d v) = plain_len len d v"
  by (simp add: plain_def plain_len_def)

lemma length_optional: "(\<And>v. length (encode v) = len v) \<Longrightarrow> length (optional encode x) = optional_len len x"
  by (cases x) (simp_all add: optional_def optional_len_def)

lemmas length_fields = length_plain [OF length_varint_encode] length_plain [OF length_bytes_encode]
  length_optional [OF length_varint_encode] string_encode_bytes

interpretation timestamp_msg: proto_message timestamp_merge_field timestamp_encode_raw
  timestamp_encoded_len timestamp_default "\<lambda>m. True" 0
proof
  fix ctx tag t and m m' :: proto_timestamp and buf rest
  show "timestamp_merge_field ctx tag t m buf = Inr (m', rest) \<Longrightarrow> length rest \<le> length buf"
    by (auto simp: timestamp_merge_field_def split: if_splits dest: scalar_le)
next
  fix m
  show "timestamp_encoded_len m = length (timestamp_encode_raw m)"
    by (simp add: timestamp_encoded_len_def timestamp_encode_raw_def length_fields)
next
  fix m :: proto_timestamp and ctx
  show "absorbs (merge_step timestamp_merge_field ctx) timestamp_default (timestamp_encode_raw m) m"
    unfolding timestamp_encode_raw_def
  proof (rule absorbs_append)
    show "absorbs (merge_step timestamp_merge_field ctx) timestamp_default
        (plain (varint_encode 1) 0 (seconds m)) (timestamp_default\<lparr>seconds := seconds m\<rparr>)"
      by (intro absorbs_plain_field absorbs_varint) (simp_all add: timestamp_merge_field_def timestamp_default_def)
    show "absorbs (merge_step timestamp_merge_field ctx) (timestamp_default\<lparr>seconds := seconds m\<rparr>)
        (plain (\<lambda>v. varint_encode 2 (int32_to_uint64 v)) 0 (nanos m)) m"
      by (intro absorbs_plain_field absorbs_varint) (simp_all add: timestamp_merge_field_def timestamp_default_def)
  qed
qed


lemma length_encode_varint_le: "length (encode_varint v) \<le> 10"
proof -
  have "length (encode_varint_loop n v) \<le> n" for n by (induction n arbitrary: v) simp_all
  then show ?thesis by (simp add: encode_varint_def)
qed

lemma length_encode_key_le: "length (encode_key tag t) \<le> 10"
  by (simp add: encode_key_def length_encode_varint_le)

lemma length_varint_encode_le: "length (varint_encode tag v) \<le> 20"
  using length_encode_key_le [of tag Varint] length_encode_varint_le [of v] by (simp add: varint_encode_def)

lemma length_bytes_encode_le: "length (bytes_encode tag v) \<le> 20 + length v"
  using length_encode_key_le [of tag LengthDelimited] length_encode_varint_le [of "of_nat (length v)"]
  by (simp add: bytes_encode_def)

lemma length_timestamp_le: "length (timestamp_encode_raw m) \<le> 40"
  using length_varint_encode_le [of 1 "seconds m"] length_varint_encode_le [of 2 "int32_to_uint64 (nanos m)"]
  by (simp add: timestamp_encode_raw_def plain_def)

lemma fits_timestamp: "fits (length (timestamp_encode_raw m))"
  using length_timestamp_le [of m] by (simp add: fits_def)

text \<open>The encoding of a backup information is little longer than its strings.\<close>

lemma length_info_le: "length (info_encode_raw m) \<le> length (pi_id m) + length (pi_name m) + 160"
proof -
  have t: "length (message_encode timestamp_encoded_len timestamp_encode_raw 3 v) \<le> 60" for v
    using length_encode_key_le [of 3 LengthDelimited] length_timestamp_le [of v]
      length_encode_varint_le [of "of_nat (timestamp_encoded_len v)"]
    by (simp add: message_encode_def)
  have "length (plain (string_encode 1) [] (pi_id m)) \<le> 20 + length (pi_id m)"
    "length (plain (string_encode 2) [] (pi_name m)) \<le> 20 + length (pi_name m)"
    unfolding string_encode_bytes plain_def
    using length_bytes_encode_le [of 1 "pi_id m"] length_bytes_encode_le [of 2 "pi_name m"] by simp_all
  moreover have "length (optional (message_encode timestamp_encoded_len timestamp_encode_raw 3) (pi_created_at m)) \<le> 60"
    using t by (cases "pi_created_at m") (simp_all add: optional_def)
  moreover have "length (optional (varint_encode 4) (pi_size_bytes m)) \<le> 20"
    using length_varint_encode_le by (cases "pi_size_bytes m") (simp_all add: optional_def)
  moreover have "length (plain (\<lambda>v. varint_encode 5 (int32_to_uint64 v)) 0 (pi_format m)) \<le> 20"
    "length (plain (\<lambda>v. varint_encode 6 (int32_to_uint64 v)) 0 (pi_kind m)) \<le> 20"
    using length_varint_encode_le by (simp_all add: plain_def)
  ultimately show ?thesis by (simp add: info_encode_raw_def)
qed

lemmas message_le = scalar_le timestamp_msg.message_merge_le

lemma info_absorbs:
  assumes "info_ok m" "Suc 0 \<le> ctx"
  shows "absorbs (merge_step info_merge_field ctx) info_default (info_encode_raw m) m"
proof -
  let ?s = "merge_step info_merge_field ctx"
  let ?m1 = "info_default\<lparr>pi_id := pi_id m\<rparr>"
  let ?m2 = "?m1\<lparr>pi_name := pi_name m\<rparr>"
  let ?m3 = "?m2\<lparr>pi_created_at := pi_created_at m\<rparr>"
  let ?m4 = "?m3\<lparr>pi_size_bytes := pi_size_bytes m\<rparr>"
  let ?m5 = "?m4\<lparr>pi_format := pi_format m\<rparr>"
  note defs = info_merge_field_def info_default_def info_ok_def string_ok_def
  have "absorbs ?s info_default (plain (string_encode 1) [] (pi_id m)) ?m1"
    unfolding string_encode_bytes
    by (intro absorbs_plain_field absorbs_bytes) (use assms in \<open>simp_all add: defs\<close>)
  moreover have "absorbs ?s ?m1 (plain (string_encode 2) [] (pi_name m)) ?m2"
    unfolding string_encode_bytes
    by (intro absorbs_plain_field absorbs_bytes) (use assms in \<open>simp_all add: defs\<close>)
  moreover have "absorbs ?s ?m2
      (optional (message_encode timestamp_encoded_len timestamp_encode_raw 3) (pi_created_at m)) ?m3"
    by (intro absorbs_optional_field absorbs_message)
      (use assms timestamp_msg.merge_encode fits_timestamp in \<open>simp_all add: defs\<close>)
  moreover have "absorbs ?s ?m3 (optional (varint_encode 4) (pi_size_bytes m)) ?m4"
    by (intro absorbs_optional_field absorbs_varint) (simp_all add: defs)
  moreover have "absorbs ?s ?m4 (plain (\<lambda>v. varint_encode 5 (int32_to_uint64 v)) 0 (pi_format m)) ?m5"
    by (intro absorbs_plain_field absorbs_varint) (simp_all add: defs)
  moreover have "absorbs ?s ?m5 (plain (\<lambda>v. varint_encode 6 (int32_to_uint64 v)) 0 (pi_kind m)) m"
    by (intro absorbs_plain_field absorbs_varint) (simp_all add: defs)
  ultimately show ?thesis
    unfolding info_encode_raw_def by (blast intro: absorbs_append)
qed

interpretation info_msg: proto_message info_merge_field info_encode_raw info_encoded_len info_default
  info_ok "Suc 0"
proof
  fix ctx tag t and m m' :: proto_info and buf rest
  show "info_merge_field ctx tag t m buf = Inr (m', rest) \<Longrightarrow> length rest \<le> length buf"
    by (auto simp: info_merge_field_def split: if_splits dest: message_le)
next
  fix m
  show "info_encoded_len m = length (info_encode_raw m)"
    by (simp add: info_encoded_len_def info_encode_raw_def length_fields
        length_optional [OF timestamp_msg.length_message_encode])
qed (rule info_absorbs)


lemma info_merge_encode [simp]:
  "info_fits m \<Longrightarrow> 2 \<le> ctx \<Longrightarrow>
   message_merge info_merge_field ctx LengthDelimited info_default
     (encode_varint (of_nat (info_encoded_len m)) @ info_encode_raw m @ rest) = Inr (m, rest)"
  by (rule info_msg.merge_encode) (simp_all add: info_fits_def)

lemmas info_le = message_le info_msg.message_merge_le info_msg.merge_repeated_le

interpretation empty_msg: proto_message empty_merge_field empty_encode_raw empty_encoded_len "()" "\<lambda>m. True" 0
proof
  fix ctx tag t and m m' :: unit and buf rest
  show "empty_merge_field ctx tag t m buf = Inr (m', rest) \<Longrightarrow> length rest \<le> length buf"
    by (auto simp: empty_merge_field_def dest: scalar_le)
qed (simp_all add: empty_encoded_len_def empty_encode_raw_def absorbs.no_field)

interpretation list_request_msg: proto_message list_request_merge_field list_request_encode_raw
  list_request_encoded_len list_request_default list_request_ok 0
proof
  fix ctx tag t and m m' :: list_request_msg and buf rest
  show "list_request_merge_field ctx tag t m buf = Inr (m', rest) \<Longrightarrow> length rest \<le> length buf"
    by (auto simp: list_request_merge_field_def split: if_splits dest: scalar_le)
next
  fix m
  show "list_request_encoded_len m = length (list_request_encode_raw m)"
    by (simp add: list_request_encoded_len_def list_request_encode_raw_def length_fields)
next
  fix m and ctx :: nat
  assume ok: "list_request_ok m"
  let ?m = "list_request_default\<lparr>lr_page_size := lr_page_size m\<rparr>"
  note defs = list_request_merge_field_def list_request_default_def list_request_ok_def string_ok_def
  show "absorbs (merge_step list_request_merge_field ctx) list_request_default (list_request_encode_raw m) m"
    unfolding list_request_encode_raw_def string_encode_bytes
  proof (rule absorbs_append)
    show "absorbs (merge_step list_request_merge_field ctx) list_request_default
        (plain (\<lambda>v. varint_encode 1 (uint32_to_uint64 v)) 0 (lr_page_size m)) ?m"
      by (intro absorbs_plain_field absorbs_varint) (simp_all add: defs)
    show "absorbs (merge_step list_request_merge_field ctx) ?m (plain (bytes_encode 2) [] (lr_page_token m)) m"
      by (intro absorbs_plain_field absorbs_bytes) (use ok in \<open>simp_all add: defs\<close>)
  qed
qed

lemma list_reply_absorbs:
  assumes "list_reply_ok m" "2 \<le> ctx"
  shows "absorbs (merge_step list_reply_merge_field ctx) list_reply_default (list_reply_encode_raw m) m"
proof -
  let ?s = "merge_step list_reply_merge_field ctx"
  let ?upd = "\<lambda>xs. list_reply_default\<lparr>lr_backups := xs\<rparr>"
  note defs = list_reply_merge_field_def list_reply_default_def list_reply_ok_def string_ok_def
    message_merge_repeated_def
  have "absorbs ?s (?upd []) (concat (map (message_encode info_encoded_len info_encode_raw 1) (lr_backups m)))
      (?upd ([] @ lr_backups m))"
    by (rule absorbs_repeated, rule absorbs_message) (use assms in \<open>simp_all add: defs list_all_iff\<close>)
  moreover have "absorbs ?s (?upd (lr_backups m)) (plain (string_encode 2) [] (lr_next_page_token m)) m"
    unfolding string_encode_bytes
    by (intro absorbs_plain_field absorbs_bytes) (use assms in \<open>simp_all add: defs\<close>)
  moreover have "?upd [] = list_reply_default" by (simp add: list_reply_default_def)
  ultimately show ?thesis
    unfolding list_reply_encode_raw_def by (auto intro: absorbs_append)
qed

interpretation list_reply_msg: proto_message list_reply_merge_field list_reply_encode_raw
  list_reply_encoded_len list_reply_default list_reply_ok 2
proof
  fix ctx tag t and m m' :: list_reply and buf rest
  show "list_reply_merge_field ctx tag t m buf = Inr (m', rest) \<Longrightarrow> length rest \<le> length buf"
    by (auto simp: list_reply_merge_field_def split: if_splits dest: info_le)
next
  fix m
  show "list_reply_encoded_len m = length (list_reply_encode_raw m)"
    by (simp add: list_reply_encoded_len_def list_reply_encode_raw_def length_fields info_msg.length_message_repeated)
qed (rule list_reply_absorbs)

lemma target_merge_le: "target_merge tag t buf = Inr (v, rest) \<Longrightarrow> length rest \<le> length buf"
  by (auto simp: target_merge_def and_then_Inr_iff split: if_splits dest: scalar_le)

lemma length_target_encode: "length (target_encode v) = target_encoded_len v"
  by (cases v) (simp_all add: string_encode_bytes length_bytes_encode length_varint_encode)

interpretation ref_msg: proto_message ref_merge_field ref_encode_raw ref_encoded_len ref_default ref_ok 0
proof
  fix ctx tag t and m m' :: proto_ref and buf rest
  show "ref_merge_field ctx tag t m buf = Inr (m', rest) \<Longrightarrow> length rest \<le> length buf"
    by (auto simp: ref_merge_field_def split: if_splits dest: scalar_le target_merge_le)
next
  fix m
  show "ref_encoded_len m = length (ref_encode_raw m)"
    by (simp add: ref_encoded_len_def ref_encode_raw_def length_optional [OF length_target_encode])
next
  fix m and ctx :: nat
  assume ok: "ref_ok m"
  have "absorbs (merge_step ref_merge_field ctx) ref_default (target_encode v) m" if "ref_target m = Some v" for v
    using that ok
    by (cases v) (auto simp: string_encode_bytes ref_merge_field_def ref_default_def ref_ok_def string_ok_def
        target_merge_def intro!: absorbs_bytes absorbs_varint)
  then show "absorbs (merge_step ref_merge_field ctx) ref_default (ref_encode_raw m) m"
    unfolding ref_encode_raw_def by (rule absorbs_optional_field) (simp_all add: ref_default_def)
qed

lemma payload_merge_le: "payload_merge f ctx tag t buf = Inr (v, rest) \<Longrightarrow> length rest \<le> length buf"
  by (auto simp: payload_merge_def and_then_Inr_iff split: if_splits dest: info_le)

lemma length_payload_encode: "length (payload_encode v) = payload_encoded_len v"
  by (cases v) (simp_all add: info_msg.length_message_encode length_bytes_encode)

interpretation chunk_msg: proto_message chunk_merge_field chunk_encode_raw chunk_encoded_len chunk_default
  chunk_msg_ok 2
proof
  fix ctx tag t and m m' :: download_chunk and buf rest
  show "chunk_merge_field ctx tag t m buf = Inr (m', rest) \<Longrightarrow> length rest \<le> length buf"
    by (auto simp: chunk_merge_field_def split: if_splits dest: scalar_le payload_merge_le)
next
  fix m
  show "chunk_encoded_len m = length (chunk_encode_raw m)"
    by (simp add: chunk_encoded_len_def chunk_encode_raw_def length_optional [OF length_payload_encode])
next
  fix m and ctx :: nat
  assume ok: "chunk_msg_ok m" and ctx: "2 \<le> ctx"
  have "absorbs (merge_step chunk_merge_field ctx) chunk_default (payload_encode v) m"
    if "chunk_payload m = Some v" for v
    using that ok ctx
    by (cases v) (auto simp: chunk_merge_field_def chunk_default_def chunk_msg_ok_def payload_merge_def
        intro!: absorbs_message absorbs_bytes)
  then show "absorbs (merge_step chunk_merge_field ctx) chunk_default (chunk_encode_raw m) m"
    unfolding chunk_encode_raw_def by (rule absorbs_optional_field) (simp_all add: chunk_default_def)
qed

interpretation restore_request_msg: proto_message restore_request_merge_field restore_request_encode_raw
  restore_request_encoded_len restore_request_default restore_request_ok "Suc 0"
proof
  fix ctx tag t and m m' :: restore_request_msg and buf rest
  show "restore_request_merge_field ctx tag t m buf = Inr (m', rest) \<Longrightarrow> length rest \<le> length buf"
    by (auto simp: restore_request_merge_field_def split: if_splits dest: scalar_le ref_msg.message_merge_le)
next
  fix m
  show "restore_request_encoded_len m = length (restore_request_encode_raw m)"
    by (simp add: restore_request_encoded_len_def restore_request_encode_raw_def length_fields
        length_optional [OF ref_msg.length_message_encode])
next
  fix m and ctx :: nat
  assume ok: "restore_request_ok m" and ctx: "Suc 0 \<le> ctx"
  let ?m = "restore_request_default\<lparr>rr_backup := rr_backup m\<rparr>"
  note defs = restore_request_merge_field_def restore_request_default_def restore_request_ok_def string_ok_def
    ref_fits_def
  show "absorbs (merge_step restore_request_merge_field ctx) restore_request_default (restore_request_encode_raw m) m"
    unfolding restore_request_encode_raw_def string_encode_bytes
  proof (rule absorbs_append)
    show "absorbs (merge_step restore_request_merge_field ctx) restore_request_default
        (optional (message_encode ref_encoded_len ref_encode_raw 1) (rr_backup m)) ?m"
      by (intro absorbs_optional_field absorbs_message)
        (use ok ctx ref_msg.merge_encode in \<open>simp_all add: defs\<close>)
    show "absorbs (merge_step restore_request_merge_field ctx) ?m (plain (bytes_encode 2) [] (rr_confirm_db_name m)) m"
      by (intro absorbs_plain_field absorbs_bytes) (use ok in \<open>simp_all add: defs\<close>)
  qed
qed

interpretation restore_reply_msg: proto_message restore_reply_merge_field restore_reply_encode_raw
  restore_reply_encoded_len restore_reply_default restore_reply_ok 2
proof
  fix ctx tag t and m m' :: restore_reply and buf rest
  show "restore_reply_merge_field ctx tag t m buf = Inr (m', rest) \<Longrightarrow> length rest \<le> length buf"
    by (auto simp: restore_reply_merge_field_def split: if_splits dest: info_le)
next
  fix m
  show "restore_reply_encoded_len m = length (restore_reply_encode_raw m)"
    by (simp add: restore_reply_encoded_len_def restore_reply_encode_raw_def
        length_optional [OF info_msg.length_message_encode])
next
  fix m and ctx :: nat
  assume ok: "restore_reply_ok m" and ctx: "2 \<le> ctx"
  let ?m = "restore_reply_default\<lparr>rr_restored := rr_restored m\<rparr>"
  note defs = restore_reply_merge_field_def restore_reply_default_def restore_reply_ok_def
  show "absorbs (merge_step restore_reply_merge_field ctx) restore_reply_default (restore_reply_encode_raw m) m"
    unfolding restore_reply_encode_raw_def
  proof (rule absorbs_append)
    show "absorbs (merge_step restore_reply_merge_field ctx) restore_reply_default
        (optional (message_encode info_encoded_len info_encode_raw 1) (rr_restored m)) ?m"
      by (intro absorbs_optional_field absorbs_message) (use ok ctx in \<open>simp_all add: defs\<close>)
    show "absorbs (merge_step restore_reply_merge_field ctx) ?m
        (optional (message_encode info_encoded_len info_encode_raw 2) (rr_pre_restore m)) m"
      by (intro absorbs_optional_field absorbs_message) (use ok ctx in \<open>simp_all add: defs\<close>)
  qed
qed

interpretation health_msg: proto_message health_merge_field health_encode_raw health_encoded_len health_default
  "\<lambda>m. True" 0
proof
  fix ctx tag t and m m' :: healthcheck_reply and buf rest
  show "health_merge_field ctx tag t m buf = Inr (m', rest) \<Longrightarrow> length rest \<le> length buf"
    by (auto simp: health_merge_field_def split: if_splits dest: scalar_le)
next
  fix m
  show "health_encoded_len m = length (health_encode_raw m)"
    by (simp add: health_encoded_len_def health_encode_raw_def length_fields)
next
  fix m :: healthcheck_reply and ctx
  show "absorbs (merge_step health_merge_field ctx) health_default (health_encode_raw m) m"
    unfolding health_encode_raw_def
    by (intro absorbs_plain_field absorbs_varint) (simp_all add: health_merge_field_def health_default_def)
qed


end
