(* ===== verification/Round_Trip.thy ===== *)
theory Round_Trip
  imports Messages
begin

text \<open>
  What the message codec gives the service: every message survives the wire, fields of newer versions
  are skipped, and decoded strings are UTF-8 whatever a client sends.
\<close>

section \<open>Unknown fields\<close>

lemma unknown_varint:
  "unknown_field (Suc ctx) tag Varint m (encode_varint v @ rest) = Inr (m, rest)"
  by (simp add: unknown_field_def)

lemma unknown_bytes:
  "fits (length v) \<Longrightarrow>
   unknown_field (Suc ctx) tag LengthDelimited m (encode_varint (of_nat (length v)) @ v @ rest) = Inr (m, rest)"
  by (simp add: unknown_field_def)

lemma unknown_fields_absorbed:
  assumes "tag_ok tag" "\<And>t buf. mf (Suc ctx) tag t m buf = unknown_field (Suc ctx) tag t m buf" "fits (length v)"
  shows "absorbs (merge_step mf (Suc ctx)) m (varint_encode tag n @ bytes_encode tag v) m"
  by (rule absorbs_append, rule absorbs_varint, simp_all add: assms unknown_varint,
      rule absorbs_bytes, simp_all add: assms unknown_bytes)

section \<open>Strings of decoded messages\<close>

lemma merge_while_invariant:
  assumes "\<And>m buf m' rest. P m \<Longrightarrow> step m buf = Inr (m', rest) \<Longrightarrow> P m'"
  shows "P m \<Longrightarrow> merge_while n step limit m buf = Inr (m', rest) \<Longrightarrow> P m'"
proof (induction n arbitrary: m buf)
  case (Suc n)
  then show ?case
    by (auto simp: and_then_Inr_iff split: if_splits dest: assms)
qed simp

lemma merge_step_invariant:
  assumes "\<And>ctx tag t m buf m' rest. P m \<Longrightarrow> mf ctx tag t m buf = Inr (m', rest) \<Longrightarrow> P m'"
  shows "P m \<Longrightarrow> merge_step mf ctx m buf = Inr (m', rest) \<Longrightarrow> P m'"
  by (auto simp: merge_step_def and_then_Inr_iff dest: assms)

lemma merge_fields_invariant:
  assumes "\<And>ctx tag t m buf m' rest. P m \<Longrightarrow> mf ctx tag t m buf = Inr (m', rest) \<Longrightarrow> P m'"
    and "P m" "merge_while n (merge_step mf ctx) limit m buf = Inr (m', rest)"
  shows "P m'"
proof (rule merge_while_invariant [of P, OF _ assms(2,3)])
  show "P k \<Longrightarrow> merge_step mf ctx k bs = Inr (k', rest') \<Longrightarrow> P k'" for k bs k' rest'
    by (rule merge_step_invariant [of P]) (rule assms(1))
qed

lemma message_merge_invariant:
  assumes inv: "\<And>ctx tag t m buf m' rest. P m \<Longrightarrow> mf ctx tag t m buf = Inr (m', rest) \<Longrightarrow> P m'"
    and P: "P m" and merge: "message_merge mf ctx t m buf = Inr (m', rest)"
  shows "P m'"
proof -
  obtain n limit bs rest' where "merge_while n (merge_step mf (ctx - 1)) limit m bs = Inr (m', rest')"
    using merge by (auto simp: message_merge_def merge_loop_def and_then_Inr_iff Let_def split: if_splits)
  with inv P show ?thesis by (rule merge_fields_invariant [of P])
qed

lemma message_decode_invariant:
  assumes inv: "\<And>ctx tag t m buf m' rest. P m \<Longrightarrow> mf ctx tag t m buf = Inr (m', rest) \<Longrightarrow> P m'"
    and P: "P d" and decode: "message_decode mf d buf = Inr m'"
  shows "P m'"
proof -
  obtain n rest where "merge_while n (merge_step mf RECURSION_LIMIT) 0 d buf = Inr (m', rest)"
    using decode by (auto simp: message_decode_def and_then_Inr_iff)
  with inv P show ?thesis by (rule merge_fields_invariant [of P])
qed

lemma string_merge_valid: "string_merge t buf = Inr (v, rest) \<Longrightarrow> utf8_valid v"
  by (auto simp: string_merge_def and_then_Inr_iff split: if_splits)

lemma unknown_field_same: "unknown_field ctx tag t m buf = Inr (m', rest) \<Longrightarrow> m' = m"
  by (auto simp: unknown_field_def and_then_Inr_iff)

definition target_utf8 :: "proto_ref \<Rightarrow> bool" where
  "target_utf8 m \<longleftrightarrow> (case ref_target m of Some (ProtoId v) \<Rightarrow> utf8_valid v | _ \<Rightarrow> True)"

lemma ref_merge_utf8: "target_utf8 m \<Longrightarrow> ref_merge_field ctx tag t m buf = Inr (m', rest) \<Longrightarrow> target_utf8 m'"
  by (auto simp: ref_merge_field_def target_utf8_def target_merge_def and_then_Inr_iff split: if_splits
      dest: string_merge_valid unknown_field_same)

lemma list_request_merge_utf8:
  "utf8_valid (lr_page_token m) \<Longrightarrow> list_request_merge_field ctx tag t m buf = Inr (m', rest)
   \<Longrightarrow> utf8_valid (lr_page_token m')"
  by (auto simp: list_request_merge_field_def split: if_splits dest: string_merge_valid unknown_field_same)

definition restore_request_utf8 :: "restore_request_msg \<Rightarrow> bool" where
  "restore_request_utf8 m \<longleftrightarrow> utf8_valid (rr_confirm_db_name m) \<and> pred_option target_utf8 (rr_backup m)"

lemma restore_request_merge_utf8:
  assumes "restore_request_utf8 m" "restore_request_merge_field ctx tag t m buf = Inr (m', rest)"
  shows "restore_request_utf8 m'"
proof -
  have "target_utf8 (get_or_insert ref_default (rr_backup m))"
    using assms(1) by (cases "rr_backup m")
      (auto simp: restore_request_utf8_def get_or_insert_def ref_default_def target_utf8_def)
  from message_merge_invariant [of target_utf8, OF ref_merge_utf8 this] show ?thesis
    using assms
    by (auto simp: restore_request_merge_field_def restore_request_utf8_def split: if_splits
        dest: string_merge_valid unknown_field_same)
qed

lemma ref_decode_utf8:
  "message_decode ref_merge_field ref_default buf = Inr m \<Longrightarrow> target_utf8 m"
  by (rule message_decode_invariant [of target_utf8, OF ref_merge_utf8])
    (simp_all add: target_utf8_def ref_default_def)

lemma list_request_decode_utf8:
  "message_decode list_request_merge_field list_request_default buf = Inr m \<Longrightarrow> utf8_valid (lr_page_token m)"
  by (rule message_decode_invariant [of "\<lambda>m. utf8_valid (lr_page_token m)", OF list_request_merge_utf8])
    (simp_all add: list_request_default_def)

lemma restore_request_decode_utf8:
  "message_decode restore_request_merge_field restore_request_default buf = Inr m \<Longrightarrow> restore_request_utf8 m"
  by (rule message_decode_invariant [of restore_request_utf8, OF restore_request_merge_utf8])
    (simp_all add: restore_request_utf8_def restore_request_default_def)

section \<open>Properties\<close>

text \<open>
  Claim C23 (messages_round_trip). Every message of the service survives the wire: for every backup information, page
  request, page, backup reference, piece of a download, restore request, restore reply and health
  reply that Rust can hold, decoding its encoding gives the same message.
\<close>

theorem messages_round_trip:
  assumes "info_ok info" "list_request_ok list_request" "list_reply_ok list_reply" "ref_ok backup_ref"
    and "chunk_msg_ok chunk" "restore_request_ok restore_request" "restore_reply_ok restore_reply"
  shows "message_decode info_merge_field info_default (info_encode_raw info) = Inr info
   \<and> message_decode list_request_merge_field list_request_default
       (list_request_encode_raw list_request) = Inr list_request
   \<and> message_decode list_reply_merge_field list_reply_default (list_reply_encode_raw list_reply) = Inr list_reply
   \<and> message_decode ref_merge_field ref_default (ref_encode_raw backup_ref) = Inr backup_ref
   \<and> message_decode chunk_merge_field chunk_default (chunk_encode_raw chunk) = Inr chunk
   \<and> message_decode restore_request_merge_field restore_request_default
       (restore_request_encode_raw restore_request) = Inr restore_request
   \<and> message_decode restore_reply_merge_field restore_reply_default
       (restore_reply_encode_raw restore_reply) = Inr restore_reply
   \<and> message_decode health_merge_field health_default (health_encode_raw health) = Inr health
   \<and> message_decode empty_merge_field () (empty_encode_raw ()) = Inr ()"
  using assms
  by (simp add: RECURSION_LIMIT_def info_msg.decode_encode list_request_msg.decode_encode
      list_reply_msg.decode_encode ref_msg.decode_encode chunk_msg.decode_encode
      restore_request_msg.decode_encode restore_reply_msg.decode_encode health_msg.decode_encode
      empty_msg.decode_encode)

definition demo_info :: proto_info where
  "demo_info =
     \<lparr>pi_id = ''f1'', pi_name = ''backup_db.pgdump'',
      pi_created_at = Some \<lparr>seconds = 1767225600, nanos = - 1\<rparr>,
      pi_size_bytes = Some 0, pi_format = 1, pi_kind = - 2\<rparr>"

lemma string_ok_demo:
  "string_ok ''f1''" "string_ok ''backup_db.pgdump''" "string_ok ''tok''" "string_ok ''db''"
  by (simp_all add: string_ok_def fits_def utf8_valid_ascii is_ascii_def byte_def)

lemma info_fits_demo: "info_fits demo_info"
proof -
  have "length (info_encode_raw demo_info) \<le> 200"
    using length_info_le [of demo_info] by (simp add: demo_info_def)
  then show ?thesis by (simp add: info_fits_def info_ok_def fits_def demo_info_def string_ok_demo)
qed

theorem messages_round_trip_witness:
  "list_reply_ok \<lparr>lr_backups = [demo_info], lr_next_page_token = ''tok''\<rparr>
   \<and> message_decode list_reply_merge_field list_reply_default
       (list_reply_encode_raw \<lparr>lr_backups = [demo_info], lr_next_page_token = ''tok''\<rparr>)
       = Inr \<lparr>lr_backups = [demo_info], lr_next_page_token = ''tok''\<rparr>"
proof -
  have ref: "ref_fits \<lparr>ref_target = Some (ProtoLatest False)\<rparr>"
  proof -
    have "length (ref_encode_raw \<lparr>ref_target = Some (ProtoLatest False)\<rparr>) \<le> 10" by code_simp
    then show ?thesis by (simp add: ref_fits_def ref_ok_def fits_def)
  qed
  have reply: "list_reply_ok \<lparr>lr_backups = [demo_info], lr_next_page_token = ''tok''\<rparr>"
    by (simp add: list_reply_ok_def info_fits_demo string_ok_demo)
  have "info_ok demo_info" "list_request_ok \<lparr>lr_page_size = 5, lr_page_token = ''tok''\<rparr>"
    "ref_ok \<lparr>ref_target = Some (ProtoId ''f1'')\<rparr>"
    "chunk_msg_ok \<lparr>chunk_payload = Some (Info demo_info)\<rparr>"
    "restore_request_ok \<lparr>rr_backup = Some \<lparr>ref_target = Some (ProtoLatest False)\<rparr>, rr_confirm_db_name = ''db''\<rparr>"
    "restore_reply_ok \<lparr>rr_restored = Some demo_info, rr_pre_restore = None\<rparr>"
    using info_fits_demo
    by (simp_all add: info_fits_def list_request_ok_def ref_ok_def chunk_msg_ok_def restore_request_ok_def
        restore_reply_ok_def string_ok_demo ref)
  with messages_round_trip [of demo_info "\<lparr>lr_page_size = 5, lr_page_token = ''tok''\<rparr>"
      "\<lparr>lr_backups = [demo_info], lr_next_page_token = ''tok''\<rparr>" "\<lparr>ref_target = Some (ProtoId ''f1'')\<rparr>"
      "\<lparr>chunk_payload = Some (Info demo_info)\<rparr>"
      "\<lparr>rr_backup = Some \<lparr>ref_target = Some (ProtoLatest False)\<rparr>, rr_confirm_db_name = ''db''\<rparr>"
      "\<lparr>rr_restored = Some demo_info, rr_pre_restore = None\<rparr>"] reply
  show ?thesis by simp
qed

text \<open>
  A client built from a newer version of the proto file is understood: a backup
  information followed by fields with a tag this version does not have decodes as without them.
\<close>

lemma unknown_fields_ignored:
  assumes "info_ok m" "tag_ok tag" "6 < tag" "fits (length v)"
  shows "message_decode info_merge_field info_default
    (info_encode_raw m @ varint_encode tag n @ bytes_encode tag v) = Inr m"
proof -
  have "tag \<noteq> 1" "tag \<noteq> 2" "tag \<noteq> 3" "tag \<noteq> 4" "tag \<noteq> 5" "tag \<noteq> 6" using assms(3) by auto
  then have "absorbs (merge_step info_merge_field (Suc 99)) m (varint_encode tag n @ bytes_encode tag v) m"
    using assms(2,4) by (intro unknown_fields_absorbed) (simp_all add: info_merge_field_def)
  then show ?thesis
    using assms(1) by (intro info_msg.decode_encode_more) (simp_all add: RECURSION_LIMIT_def)
qed

end
