(* ===== verification/Trailers.thy ===== *)
theory Trailers
  imports Wire
begin

text \<open>
  A gRPC status as HTTP trailers (\<^verbatim>\<open>tonic/src/status.rs\<close>): the code as a decimal number and the
  message percent-encoded (\<^verbatim>\<open>percent-encoding/src/lib.rs\<close>), and how a client reads them back. Every
  status of the server fits into headers and arrives unchanged.
\<close>

section \<open>Percent encoding\<close>

text \<open>The set of \<^verbatim>\<open>status.rs\<close>: controls, blank, and the characters \<open>" # % < > ` ? { }\<close>.\<close>

definition ENCODING_SET :: "char list" where
  "ENCODING_SET = map char_of [0x20 :: nat, 0x22, 0x23, 0x25, 0x3C, 0x3E, 0x60, 0x3F, 0x7B, 0x7D]"

definition should_percent_encode :: "char \<Rightarrow> bool" where
  "should_percent_encode c \<longleftrightarrow> 128 \<le> byte c \<or> byte c < 32 \<or> byte c = 127 \<or> c \<in> set ENCODING_SET"

definition hex_upper :: "nat \<Rightarrow> char" where
  "hex_upper d = (if d < 10 then char_of (48 + d) else char_of (55 + d))"

definition percent_encode_byte :: "char \<Rightarrow> string" where
  "percent_encode_byte c = [CHR ''%'', hex_upper (byte c div 16), hex_upper (byte c mod 16)]"

fun percent_encode :: "bytes \<Rightarrow> string" where
  "percent_encode [] = []"
| "percent_encode (c # cs) =
     (if should_percent_encode c then percent_encode_byte c else [c]) @ percent_encode cs"

definition to_digit_16 :: "char \<Rightarrow> nat option" where
  "to_digit_16 c =
     (let b = byte c
      in if 48 \<le> b \<and> b \<le> 57 then Some (b - 48)
         else if 97 \<le> b \<and> b \<le> 102 then Some (b - 87)
         else if 65 \<le> b \<and> b \<le> 70 then Some (b - 55)
         else None)"

definition after_percent_sign :: "bytes \<Rightarrow> (char \<times> bytes) option" where
  "after_percent_sign bs =
     (case bs of
        h # l # rest \<Rightarrow>
          (case (to_digit_16 h, to_digit_16 l) of
             (Some h, Some l) \<Rightarrow> Some (char_of (h * 0x10 + l), rest)
           | _ \<Rightarrow> None)
      | _ \<Rightarrow> None)"

lemma after_percent_sign_shrinks: "after_percent_sign bs = Some (c, rest) \<Longrightarrow> length rest < length bs"
  by (auto simp: after_percent_sign_def split: list.splits option.splits)

function percent_decode :: "bytes \<Rightarrow> bytes" where
  "percent_decode [] = []"
| "percent_decode (c # cs) =
     (if c = CHR ''%''
      then case after_percent_sign cs of
             Some (b, rest) \<Rightarrow> b # percent_decode rest
           | None \<Rightarrow> c # percent_decode cs
      else c # percent_decode cs)"
  by pat_completeness auto
termination
  by (relation "measure length") (auto dest: after_percent_sign_shrinks)

section \<open>Codes\<close>

fun code_to_header :: "code \<Rightarrow> string" where
  "code_to_header Code_Ok = ''0''"
| "code_to_header Code_Cancelled = ''1''"
| "code_to_header Code_Unknown = ''2''"
| "code_to_header Code_InvalidArgument = ''3''"
| "code_to_header Code_DeadlineExceeded = ''4''"
| "code_to_header Code_NotFound = ''5''"
| "code_to_header Code_AlreadyExists = ''6''"
| "code_to_header Code_PermissionDenied = ''7''"
| "code_to_header Code_ResourceExhausted = ''8''"
| "code_to_header Code_FailedPrecondition = ''9''"
| "code_to_header Code_Aborted = ''10''"
| "code_to_header Code_OutOfRange = ''11''"
| "code_to_header Code_Unimplemented = ''12''"
| "code_to_header Code_Internal = ''13''"
| "code_to_header Code_Unavailable = ''14''"
| "code_to_header Code_DataLoss = ''15''"
| "code_to_header Code_Unauthenticated = ''16''"

definition code_from_bytes :: "bytes \<Rightarrow> code" where
  "code_from_bytes bs =
     (if bs = ''0'' then Code_Ok
      else if bs = ''1'' then Code_Cancelled
      else if bs = ''2'' then Code_Unknown
      else if bs = ''3'' then Code_InvalidArgument
      else if bs = ''4'' then Code_DeadlineExceeded
      else if bs = ''5'' then Code_NotFound
      else if bs = ''6'' then Code_AlreadyExists
      else if bs = ''7'' then Code_PermissionDenied
      else if bs = ''8'' then Code_ResourceExhausted
      else if bs = ''9'' then Code_FailedPrecondition
      else if bs = ''10'' then Code_Aborted
      else if bs = ''11'' then Code_OutOfRange
      else if bs = ''12'' then Code_Unimplemented
      else if bs = ''13'' then Code_Internal
      else if bs = ''14'' then Code_Unavailable
      else if bs = ''15'' then Code_DataLoss
      else if bs = ''16'' then Code_Unauthenticated
      else Code_Unknown)"

section \<open>Header maps\<close>

type_synonym headers = "string \<rightharpoonup> string"

definition GRPC_STATUS :: string where
  "GRPC_STATUS = ''grpc-status''"

definition GRPC_MESSAGE :: string where
  "GRPC_MESSAGE = ''grpc-message''"

text \<open>The bytes a header value may hold, \<^verbatim>\<open>http/src/header/value.rs\<close>.\<close>

definition header_byte_ok :: "char \<Rightarrow> bool" where
  "header_byte_ok c \<longleftrightarrow> 32 \<le> byte c \<and> byte c \<noteq> 127 \<or> byte c = 9"

text \<open>A status of the server has no details and no metadata.\<close>

definition to_header_map :: "status \<Rightarrow> status + headers" where
  "to_header_map st =
     (let h = Map.empty(GRPC_STATUS \<mapsto> code_to_header (st_code st))
      in if st_message st = [] then Inr h
         else let v = percent_encode (st_message st)
              in if list_all header_byte_ok v then Inr (h(GRPC_MESSAGE \<mapsto> v))
                 else Inl \<lparr>st_code = Code_Internal,
                           st_message = ''Couldn't serialize non-text grpc status header''\<rparr>)"

text \<open>\<open>utf8_error\<close> renders the error of the standard library for bytes that are not UTF-8.\<close>

definition from_header_map :: "(bytes \<Rightarrow> string) \<Rightarrow> headers \<Rightarrow> status option" where
  "from_header_map utf8_error h =
     (case h GRPC_STATUS of
        None \<Rightarrow> None
      | Some v \<Rightarrow>
          let code = code_from_bytes v
          in case h GRPC_MESSAGE of
               None \<Rightarrow> Some \<lparr>st_code = code, st_message = []\<rparr>
             | Some m \<Rightarrow>
                 let bs = percent_decode m
                 in if utf8_valid bs then Some \<lparr>st_code = code, st_message = bs\<rparr>
                    else Some \<lparr>st_code = Code_Unknown,
                               st_message = ''Error deserializing status message header: '' @ utf8_error bs\<rparr>)"

section \<open>There and back\<close>

lemma code_from_to_header [simp]: "code_from_bytes (code_to_header c) = c"
  by (cases c) (simp_all add: code_from_bytes_def)

lemma byte_char_of [simp]: "byte (char_of n) = n mod 256"
  by (simp add: byte_def)

lemma char_of_byte [simp]: "char_of (byte c) = c"
  by (simp add: byte_def)

lemma byte_hex_upper: "d < 16 \<Longrightarrow> byte (hex_upper d) = (if d < 10 then 48 + d else 55 + d)"
  by (simp add: hex_upper_def)

lemma to_digit_hex_upper [simp]: "d < 16 \<Longrightarrow> to_digit_16 (hex_upper d) = Some d"
  by (auto simp: to_digit_16_def byte_hex_upper Let_def)

lemma byte_div_16 [simp]: "byte c div 16 < 16"
  using byte_less [of c] by linarith

lemma after_percent_encoded:
  "after_percent_sign (hex_upper (byte c div 16) # hex_upper (byte c mod 16) # rest) = Some (c, rest)"
  by (simp add: after_percent_sign_def)

lemma should_encode_percent: "should_percent_encode (CHR ''%'')"
  by code_simp

lemma percent_decode_encode [simp]: "percent_decode (percent_encode s) = s"
proof (induction s)
  case (Cons c s)
  then show ?case
    using should_encode_percent by (auto simp: percent_encode_byte_def after_percent_encoded)
qed simp

lemma header_byte_ok_hex: "d < 16 \<Longrightarrow> header_byte_ok (hex_upper d)"
  by (auto simp: header_byte_ok_def byte_hex_upper)

lemma percent_encode_ok: "list_all header_byte_ok (percent_encode s)"
proof (induction s)
  case (Cons c s)
  have hex: "header_byte_ok (hex_upper (byte c div 16))" "header_byte_ok (hex_upper (byte c mod 16))"
    by (simp_all add: header_byte_ok_hex)
  have "header_byte_ok (CHR ''%'')" by (simp add: header_byte_ok_def byte_def)
  moreover have "\<not> should_percent_encode c \<Longrightarrow> header_byte_ok c"
    by (auto simp: should_percent_encode_def header_byte_ok_def)
  ultimately show ?case using Cons hex by (simp add: percent_encode_byte_def)
qed simp

lemma to_header_map_Inr: "\<exists>h. to_header_map st = Inr h"
  by (auto simp: to_header_map_def Let_def percent_encode_ok)

lemma header_map_round_trip:
  assumes "utf8_valid (st_message st)" "to_header_map st = Inr h"
  shows "from_header_map utf8_error h = Some st"
  using assms
  by (cases "st_message st = []")
    (auto simp: to_header_map_def from_header_map_def Let_def GRPC_STATUS_def GRPC_MESSAGE_def split: if_splits)

end
