(* ===== verification/Frames.thy ===== *)
theory Frames
  imports Trailers "HOL-Library.Word"
begin

text \<open>
  Messages as the body of an HTTP/2 stream (\<^verbatim>\<open>tonic/src/codec/encode.rs\<close> and \<^verbatim>\<open>decode.rs\<close>): the five
  byte header of a message, the encoder that gathers ready messages into pieces and ends the body with
  the status, and the decoder that reads the messages back from data frames cut anywhere. The server
  enables no compression, so the compression of both sides is \<^verbatim>\<open>None\<close>. An HTTP status other than 200
  is not modelled: the server sends every error as a gRPC status.
\<close>

section \<open>Headers of messages\<close>

definition HEADER_SIZE :: nat where
  "HEADER_SIZE = 1 + 4"

definition DEFAULT_MAX_RECV_MESSAGE_SIZE :: nat where
  "DEFAULT_MAX_RECV_MESSAGE_SIZE = 4 * 1024 * 1024"

definition DEFAULT_MAX_SEND_MESSAGE_SIZE :: nat where
  "DEFAULT_MAX_SEND_MESSAGE_SIZE = 2 ^ 64 - 1"

definition DEFAULT_YIELD_THRESHOLD :: nat where
  "DEFAULT_YIELD_THRESHOLD = 32 * 1024"

definition put_u32 :: "nat \<Rightarrow> bytes" where
  "put_u32 n = map char_of [n div 2 ^ 24 mod 256, n div 2 ^ 16 mod 256, n div 2 ^ 8 mod 256, n mod 256]"

definition get_u32 :: "bytes \<Rightarrow> nat" where
  "get_u32 bs = byte (bs ! 0) * 2 ^ 24 + byte (bs ! 1) * 2 ^ 16 + byte (bs ! 2) * 2 ^ 8 + byte (bs ! 3)"

definition out_of_range :: "string \<Rightarrow> status" where
  "out_of_range m = \<lparr>st_code = Code_OutOfRange, st_message = m\<rparr>"

definition status_internal :: "string \<Rightarrow> status" where
  "status_internal m = \<lparr>st_code = Code_Internal, st_message = m\<rparr>"

text \<open>The buffer from the header on; the header is written over the placeholder.\<close>

definition finish_encoding :: "nat option \<Rightarrow> bytes \<Rightarrow> (status + unit) \<times> bytes" where
  "finish_encoding max_message_size buf =
     (let len = length buf - HEADER_SIZE;
          limit = (case max_message_size of Some l \<Rightarrow> l | None \<Rightarrow> DEFAULT_MAX_SEND_MESSAGE_SIZE)
      in if len > limit
         then (Inl (out_of_range (''Error, encoded message length too large: found '' @ show_nat len
                 @ '' bytes, the limit is: '' @ show_nat limit @ '' bytes'')), buf)
         else if len > 2 ^ 32 - 1
         then (Inl \<lparr>st_code = Code_ResourceExhausted,
                    st_message = ''Cannot return body with more than 4GB of data but got ''
                      @ show_nat len @ '' bytes''\<rparr>, buf)
         else (Inr (), [CHR 0x00] @ put_u32 len @ drop HEADER_SIZE buf))"

definition encode_item :: "('i \<Rightarrow> bytes) \<Rightarrow> nat option \<Rightarrow> bytes \<Rightarrow> 'i \<Rightarrow> (status + unit) \<times> bytes" where
  "encode_item encode max_message_size buf item =
     (let offset = length buf;
          buf = buf @ replicate HEADER_SIZE (CHR 0x00);
          buf = buf @ encode item
      in case finish_encoding max_message_size (drop offset buf) of
           (r, tail) \<Rightarrow> (r, take offset buf @ tail))"

section \<open>Encoding a stream of messages\<close>

text \<open>What polling the source of messages answers; after the answers of the list the source has ended.\<close>

datatype 'i answer = NotReady | Item 'i | Failed status

text \<open>What polling the encoder answers.\<close>

datatype 'o polled = Waiting | Done | Yield 'o

record encoded_bytes =
  eb_buf :: bytes
  eb_error :: "status option"

fun encode_loop ::
  "('i \<Rightarrow> bytes) \<Rightarrow> nat option \<Rightarrow> bytes \<Rightarrow> 'i answer list
   \<Rightarrow> (status + bytes) polled \<times> encoded_bytes \<times> 'i answer list" where
  "encode_loop encode limit buf [] =
     (if buf = [] then (Done, \<lparr>eb_buf = [], eb_error = None\<rparr>, [])
      else (Yield (Inr buf), \<lparr>eb_buf = [], eb_error = None\<rparr>, []))"
| "encode_loop encode limit buf (NotReady # source) =
     (if buf = [] then (Waiting, \<lparr>eb_buf = [], eb_error = None\<rparr>, source)
      else (Yield (Inr buf), \<lparr>eb_buf = [], eb_error = None\<rparr>, source))"
| "encode_loop encode limit buf (Item item # source) =
     (case encode_item encode limit buf item of
        (Inl st, buf) \<Rightarrow> (Yield (Inl st), \<lparr>eb_buf = buf, eb_error = None\<rparr>, source)
      | (Inr _, buf) \<Rightarrow>
          if length buf \<ge> DEFAULT_YIELD_THRESHOLD
          then (Yield (Inr buf), \<lparr>eb_buf = [], eb_error = None\<rparr>, source)
          else encode_loop encode limit buf source)"
| "encode_loop encode limit buf (Failed st # source) =
     (if buf = [] then (Yield (Inl st), \<lparr>eb_buf = [], eb_error = None\<rparr>, source)
      else (Yield (Inr buf), \<lparr>eb_buf = [], eb_error = Some st\<rparr>, source))"

definition encoded_poll_next ::
  "('i \<Rightarrow> bytes) \<Rightarrow> nat option \<Rightarrow> encoded_bytes \<Rightarrow> 'i answer list
   \<Rightarrow> (status + bytes) polled \<times> encoded_bytes \<times> 'i answer list" where
  "encoded_poll_next encode limit eb source =
     (case eb_error eb of
        Some st \<Rightarrow> (Yield (Inl st), eb\<lparr>eb_error := None\<rparr>, source)
      | None \<Rightarrow> encode_loop encode limit (eb_buf eb) source)"

datatype http_frame = DataFrame bytes | TrailersFrame headers

record encode_body =
  body_inner :: encoded_bytes
  body_ended :: bool

definition new_server :: encode_body where
  "new_server = \<lparr>body_inner = \<lparr>eb_buf = [], eb_error = None\<rparr>, body_ended = False\<rparr>"

definition status_ok :: status where
  "status_ok = \<lparr>st_code = Code_Ok, st_message = []\<rparr>"

text \<open>A status that does not fit into headers would fail the body.\<close>

definition trailers_frame :: "status \<Rightarrow> (status + http_frame) polled" where
  "trailers_frame st = Yield (map_sum id TrailersFrame (to_header_map st))"

definition body_poll_frame ::
  "('i \<Rightarrow> bytes) \<Rightarrow> nat option \<Rightarrow> encode_body \<Rightarrow> 'i answer list
   \<Rightarrow> (status + http_frame) polled \<times> encode_body \<times> 'i answer list" where
  "body_poll_frame encode limit body source =
     (case encoded_poll_next encode limit (body_inner body) source of
        (Waiting, eb, source) \<Rightarrow> (Waiting, body\<lparr>body_inner := eb\<rparr>, source)
      | (Yield (Inr d), eb, source) \<Rightarrow> (Yield (Inr (DataFrame d)), body\<lparr>body_inner := eb\<rparr>, source)
      | (Yield (Inl st), eb, source) \<Rightarrow>
          (trailers_frame st, body\<lparr>body_inner := eb, body_ended := True\<rparr>, source)
      | (Done, eb, source) \<Rightarrow>
          if body_ended body then (Done, body\<lparr>body_inner := eb\<rparr>, source)
          else (trailers_frame status_ok, body\<lparr>body_inner := eb, body_ended := True\<rparr>, source))"

text \<open>
  The connection polls the body until it says that it has ended; \<^const>\<open>None\<close> is a body that has not
  ended after \<open>n\<close> polls. Every poll takes an answer of the source or ends the body, so a source of \<open>k\<close>
  answers needs at most \<open>k + 1\<close> polls.
\<close>

fun body_run ::
  "nat \<Rightarrow> ('i \<Rightarrow> bytes) \<Rightarrow> nat option \<Rightarrow> encode_body \<Rightarrow> 'i answer list \<Rightarrow> (status + http_frame) list option" where
  "body_run 0 encode limit body source = (if body_ended body then Some [] else None)"
| "body_run (Suc n) encode limit body source =
     (if body_ended body then Some []
      else case body_poll_frame encode limit body source of
             (Waiting, body, source) \<Rightarrow> body_run n encode limit body source
           | (Done, _, _) \<Rightarrow> Some []
           | (Yield f, body, source) \<Rightarrow> map_option (Cons f) (body_run n encode limit body source))"

definition body_frames :: "('i \<Rightarrow> bytes) \<Rightarrow> 'i answer list \<Rightarrow> (status + http_frame) list option" where
  "body_frames encode source = body_run (length source + 1) encode None new_server source"

section \<open>Decoding a stream of messages\<close>

datatype direction = DirRequest | DirResponse | DirEmptyResponse

datatype dec_state = ReadHeader | ReadBody nat | ErrorState "status option"

record streaming =
  sm_state :: dec_state
  sm_direction :: direction
  sm_buf :: bytes
  sm_trailers :: "headers option"
  sm_max :: "nat option"

definition new_streaming :: "direction \<Rightarrow> nat option \<Rightarrow> streaming" where
  "new_streaming direction max_message_size =
     \<lparr>sm_state = ReadHeader, sm_direction = direction, sm_buf = [], sm_trailers = None,
      sm_max = max_message_size\<rparr>"

definition recv_limit :: "streaming \<Rightarrow> nat" where
  "recv_limit s = (case sm_max s of Some l \<Rightarrow> l | None \<Rightarrow> DEFAULT_MAX_RECV_MESSAGE_SIZE)"

text \<open>The first part of \<^verbatim>\<open>decode_chunk\<close>: the header of a message, when it is there.\<close>

definition read_header :: "streaming \<Rightarrow> (status + unit) \<times> streaming" where
  "read_header s =
     (if sm_state s = ReadHeader \<and> length (sm_buf s) \<ge> HEADER_SIZE
      then let f = byte (sm_buf s ! 0);
               len = get_u32 (drop 1 (sm_buf s));
               rest = drop HEADER_SIZE (sm_buf s)
           in if f = 1
              then (Inl (status_internal ''protocol error: received message with compressed-flag but no grpc-encoding was specified''),
                    s\<lparr>sm_buf := drop 1 (sm_buf s)\<rparr>)
              else if f \<noteq> 0
              then (Inl (status_internal (''protocol error: received message with invalid compression flag: ''
                      @ show_nat f @ '' (valid flags are 0 and 1)''
                      @ (if sm_direction s = DirResponse then '' while receiving response with status: 200 OK''
                         else '', while sending request''))),
                    s\<lparr>sm_buf := drop 1 (sm_buf s)\<rparr>)
              else if len > recv_limit s
              then (Inl (out_of_range (''Error, decoded message length too large: found '' @ show_nat len
                      @ '' bytes, the limit is: '' @ show_nat (recv_limit s) @ '' bytes'')),
                    s\<lparr>sm_buf := rest\<rparr>)
              else (Inr (), s\<lparr>sm_buf := rest, sm_state := ReadBody len\<rparr>)
      else (Inr (), s))"

text \<open>
  A message of the stream. The decoder reads all of the message it is given, so the buffer goes on
  after it; the caller gives up a stream that failed.
\<close>

definition decode_chunk :: "(bytes \<Rightarrow> status + 'm) \<Rightarrow> streaming \<Rightarrow> (status + 'm option) \<times> streaming" where
  "decode_chunk decode s =
     (case read_header s of
        (Inl st, s) \<Rightarrow> (Inl st, s)
      | (Inr _, s) \<Rightarrow>
          (case sm_state s of
             ReadBody len \<Rightarrow>
               if length (sm_buf s) < len then (Inr None, s)
               else (case decode (take len (sm_buf s)) of
                       Inl st \<Rightarrow> (Inl st, s\<lparr>sm_buf := drop len (sm_buf s)\<rparr>)
                     | Inr m \<Rightarrow> (Inr (Some m), s\<lparr>sm_buf := drop len (sm_buf s), sm_state := ReadHeader\<rparr>))
           | _ \<Rightarrow> (Inr None, s)))"

text \<open>What the connection delivers; after the events of the list the body has ended.\<close>

datatype body_event = BodyData bytes | BodyTrailers headers | BodyError status

definition infer_grpc_status :: "(bytes \<Rightarrow> string) \<Rightarrow> headers option \<Rightarrow> status option" where
  "infer_grpc_status utf8_error trailers =
     (case Option.bind trailers (from_header_map utf8_error) of
        Some st \<Rightarrow> if st_code st = Code_Ok then None else Some st
      | None \<Rightarrow> Some \<lparr>st_code = Code_Unknown,
                      st_message = ''protocol error: missing grpc-status trailer, stream was terminated without a final status (possible truncation by a proxy or load balancer)''\<rparr>)"

text \<open>The end of the body: the final status of a response, and the stream yields it once.\<close>

definition stream_ended :: "(bytes \<Rightarrow> string) \<Rightarrow> streaming \<Rightarrow> (status + 'm) option \<times> streaming" where
  "stream_ended utf8_error s =
     (if sm_direction s = DirResponse
      then case infer_grpc_status utf8_error (sm_trailers s) of
             Some st \<Rightarrow> (Some (Inl st), s\<lparr>sm_trailers := None, sm_state := ErrorState None\<rparr>)
           | None \<Rightarrow> (None, s)
      else (None, s))"

fun poll_next ::
  "(bytes \<Rightarrow> string) \<Rightarrow> (bytes \<Rightarrow> status + 'm) \<Rightarrow> streaming \<Rightarrow> body_event list
   \<Rightarrow> (status + 'm) option \<times> streaming \<times> body_event list" where
  "poll_next utf8_error decode s body =
     (case sm_state s of
        ErrorState e \<Rightarrow> (map_option Inl e, s\<lparr>sm_state := ErrorState None\<rparr>, body)
      | _ \<Rightarrow>
          (case decode_chunk decode s of
             (Inl st, s) \<Rightarrow> (Some (Inl st), s, body)
           | (Inr (Some m), s) \<Rightarrow> (Some (Inr m), s, body)
           | (Inr None, s) \<Rightarrow>
               (case body of
                  [] \<Rightarrow>
                    if sm_buf s \<noteq> []
                    then (Some (Inl (status_internal ''Unexpected EOF decoding stream.'')), s, [])
                    else (case stream_ended utf8_error s of (r, s) \<Rightarrow> (r, s, []))
                | BodyError st # body \<Rightarrow>
                    if sm_direction s = DirRequest \<and> st_code st = Code_Cancelled
                    then (case stream_ended utf8_error s of (r, s) \<Rightarrow> (r, s, body))
                    else (Some (Inl st), s\<lparr>sm_state := ErrorState (Some st)\<rparr>, body)
                | BodyTrailers t # body \<Rightarrow>
                    (case stream_ended utf8_error
                            (s\<lparr>sm_trailers := Some (case sm_trailers s of None \<Rightarrow> t | Some u \<Rightarrow> u ++ t)\<rparr>) of
                       (r, s) \<Rightarrow> (r, s, body))
                | BodyData d # body \<Rightarrow> poll_next utf8_error decode (s\<lparr>sm_buf := sm_buf s @ d\<rparr>) body)))"

declare poll_next.simps [simp del]


text \<open>All messages of a stream: up to its end or its first error.\<close>

fun collect ::
  "nat \<Rightarrow> (bytes \<Rightarrow> string) \<Rightarrow> (bytes \<Rightarrow> status + 'm) \<Rightarrow> streaming \<Rightarrow> body_event list
   \<Rightarrow> ('m list \<times> status option) option" where
  "collect 0 utf8_error decode s body = None"
| "collect (Suc n) utf8_error decode s body =
     (case poll_next utf8_error decode s body of
        (None, _, _) \<Rightarrow> Some ([], None)
      | (Some (Inl st), _, _) \<Rightarrow> Some ([], Some st)
      | (Some (Inr m), s, body) \<Rightarrow>
          map_option (\<lambda>(ms, e). (m # ms, e)) (collect n utf8_error decode s body))"

section \<open>One message\<close>

definition framed :: "bytes \<Rightarrow> bytes" where
  "framed e = [CHR 0x00] @ put_u32 (length e) @ e"

text \<open>A message that has a length in the header.\<close>

definition sendable :: "bytes \<Rightarrow> bool" where
  "sendable e \<longleftrightarrow> length e < 2 ^ 32"

lemma length_put_u32 [simp]: "length (put_u32 n) = 4"
  by (simp add: put_u32_def)

lemma length_framed [simp]: "length (framed e) = HEADER_SIZE + length e"
  by (simp add: framed_def HEADER_SIZE_def)

lemma framed_nonempty [simp]: "framed e \<noteq> []"
  by (simp add: framed_def)

lemma get_put_u32:
  assumes "n < 2 ^ 32"
  shows "get_u32 (put_u32 n @ rest) = n"
proof -
  define a b c where "a = n div 256" and "b = a div 256" and "c = b div 256"
  have div: "n div 65536 = b" "n div 16777216 = c"
    by (simp_all add: a_def b_def c_def div_mult2_eq [symmetric])
  have "n = a * 256 + n mod 256" "a = b * 256 + a mod 256" "b = c * 256 + b mod 256"
    unfolding a_def b_def c_def by (simp_all only: div_mult_mod_eq)
  then have "c * 16777216 + b mod 256 * 65536 + a mod 256 * 256 + n mod 256 = n" by linarith
  moreover have "n div 16777216 < 256" by (rule less_mult_imp_div_less) (use assms in simp)
  ultimately show ?thesis using div by (simp add: get_u32_def put_u32_def flip: a_def)
qed

lemma encode_item_framed:
  assumes "sendable (encode item)"
  shows "encode_item encode None buf item = (Inr (), buf @ framed (encode item))"
proof -
  have "\<not> length (encode item) > DEFAULT_MAX_SEND_MESSAGE_SIZE" "\<not> length (encode item) > 2 ^ 32 - 1"
    using assms by (simp_all add: sendable_def DEFAULT_MAX_SEND_MESSAGE_SIZE_def)
  then show ?thesis
    by (simp add: encode_item_def finish_encoding_def framed_def HEADER_SIZE_def Let_def)
qed

section \<open>The encoder sends every message once, in order, and then the status\<close>

text \<open>The messages before the first failure, and the status the stream ends with.\<close>

fun messages_of :: "'i answer list \<Rightarrow> 'i list" where
  "messages_of [] = []"
| "messages_of (NotReady # source) = messages_of source"
| "messages_of (Item i # source) = i # messages_of source"
| "messages_of (Failed st # source) = []"

fun final_status :: "'i answer list \<Rightarrow> status" where
  "final_status [] = status_ok"
| "final_status (NotReady # source) = final_status source"
| "final_status (Item i # source) = final_status source"
| "final_status (Failed st # source) = st"

definition data_of :: "('i \<Rightarrow> bytes) \<Rightarrow> 'i answer list \<Rightarrow> bytes" where
  "data_of encode source = concat (map (\<lambda>i. framed (encode i)) (messages_of source))"

text \<open>What one round of the encoder does to the bytes and the status still to be sent.\<close>

fun progress :: "('i \<Rightarrow> bytes) \<Rightarrow> bytes \<Rightarrow> 'i answer list \<Rightarrow> (status + bytes) polled \<times> encoded_bytes \<times> 'i answer list \<Rightarrow> bool"
where
  "progress encode buf source (Waiting, eb, source') \<longleftrightarrow>
     eb = \<lparr>eb_buf = [], eb_error = None\<rparr> \<and> buf @ data_of encode source = data_of encode source'
     \<and> final_status source = final_status source' \<and> length source' < length source"
| "progress encode buf source (Done, eb, source') \<longleftrightarrow>
     buf @ data_of encode source = [] \<and> final_status source = status_ok"
| "progress encode buf source (Yield (Inl st), eb, source') \<longleftrightarrow>
     buf @ data_of encode source = [] \<and> final_status source = st"
| "progress encode buf source (Yield (Inr d), eb, source') \<longleftrightarrow>
     eb_buf eb = [] \<and> length source' \<le> length source \<and> (buf = [] \<longrightarrow> length source' < length source) \<and>
     (case eb_error eb of
        None \<Rightarrow> buf @ data_of encode source = d @ data_of encode source' \<and> final_status source = final_status source'
      | Some st \<Rightarrow> buf @ data_of encode source = d \<and> final_status source = st)"

lemma data_of_simps [simp]:
  "data_of encode [] = []"
  "data_of encode (NotReady # source) = data_of encode source"
  "data_of encode (Item i # source) = framed (encode i) @ data_of encode source"
  "data_of encode (Failed st # source) = []"
  by (simp_all add: data_of_def)

lemma progress_item:
  "progress encode (buf @ framed (encode i)) source r \<Longrightarrow> progress encode buf (Item i # source) r"
  by (cases "(encode, buf @ framed (encode i), source, r)" rule: progress.cases)
    (auto split: option.splits)

lemma encode_loop_progress:
  "list_all (\<lambda>i. sendable (encode i)) (messages_of source) \<Longrightarrow>
   progress encode buf source (encode_loop encode None buf source)"
proof (induction source arbitrary: buf rule: messages_of.induct)
  case (3 i source)
  then have "encode_item encode None buf i = (Inr (), buf @ framed (encode i))"
    by (simp add: encode_item_framed)
  then show ?case
    using 3 by (auto intro: progress_item)
qed auto

lemma messages_of_suffix:
  "encode_loop encode limit buf source = (r, eb, source') \<Longrightarrow>
   list_all P (messages_of source) \<Longrightarrow> eb_error eb = None \<Longrightarrow> (\<nexists>st. r = Yield (Inl st)) \<Longrightarrow> list_all P (messages_of source')"
proof (induction source arbitrary: buf rule: messages_of.induct)
  case (3 i source)
  then show ?case by (cases "encode_item encode limit buf i"; cases "fst (encode_item encode limit buf i)")
      (auto split: if_splits)
qed (auto split: if_splits)

lemma trailers_frame_Yield: "\<exists>h. trailers_frame st = Yield (Inr (TrailersFrame h)) \<and> to_header_map st = Inr h"
  using to_header_map_Inr [of st] by (auto simp: trailers_frame_def)

lemma body_run_delivers:
  assumes "list_all (\<lambda>i. sendable (encode i)) (messages_of source)" "length source < n"
  shows "\<exists>ds h. body_run n encode None new_server source
      = Some (map (\<lambda>d. Inr (DataFrame d)) ds @ [Inr (TrailersFrame h)])
    \<and> concat ds = data_of encode source \<and> to_header_map (final_status source) = Inr h"
  using assms
proof (induction n arbitrary: source)
  case (Suc n)
  obtain r eb source' where loop: "encode_loop encode None [] source = (r, eb, source')"
    by (metis surj_pair)
  then have poll: "encoded_poll_next encode None (body_inner new_server) source = (r, eb, source')"
    by (simp add: encoded_poll_next_def new_server_def)
  have prog: "progress encode [] source (r, eb, source')"
    using encode_loop_progress [OF Suc.prems(1), of "[]"] loop by simp
  have ended: "body_run n encode None (new_server\<lparr>body_inner := eb', body_ended := True\<rparr>) source'' = Some []" for eb' source''
    by (cases n) simp_all
  have new: "\<not> body_ended new_server" by (simp add: new_server_def)
  show ?case
  proof (cases r)
    case Waiting
    then have eb: "new_server\<lparr>body_inner := eb\<rparr> = new_server" using prog by (simp add: new_server_def)
    have "list_all (\<lambda>i. sendable (encode i)) (messages_of source')"
      using messages_of_suffix [OF loop Suc.prems(1)] Waiting prog by simp
    moreover have "body_run (Suc n) encode None new_server source = body_run n encode None new_server source'"
      using Waiting new by (simp add: body_poll_frame_def poll eb)
    ultimately show ?thesis using Suc.IH [of source'] Waiting prog Suc.prems(2) by simp
  next
    case Done
    then show ?thesis
      using prog new trailers_frame_Yield [of status_ok]
      by (auto simp: body_poll_frame_def poll ended intro!: exI [of _ "[]"])
  next
    case (Yield y)
    show ?thesis
    proof (cases y)
      case (Inl st)
      then show ?thesis
        using prog new trailers_frame_Yield [of st] Yield
        by (auto simp: body_poll_frame_def poll ended intro!: exI [of _ "[]"])
    next
      case (Inr d)
      have len: "length source' < length source" "eb_buf eb = []" using prog Yield Inr by auto
      have step: "body_run (Suc n) encode None new_server source =
          map_option (Cons (Inr (DataFrame d))) (body_run n encode None (new_server\<lparr>body_inner := eb\<rparr>) source')"
        using new Yield Inr by (simp add: body_poll_frame_def poll)
      show ?thesis
      proof (cases "eb_error eb")
        case None
        then have eb: "new_server\<lparr>body_inner := eb\<rparr> = new_server" using len by (simp add: new_server_def)
        have "list_all (\<lambda>i. sendable (encode i)) (messages_of source')"
          using messages_of_suffix [OF loop Suc.prems(1) None] Yield Inr by simp
        from Suc.IH [OF this] len Suc.prems(2) obtain ds h where
          "body_run n encode None new_server source' = Some (map (\<lambda>d. Inr (DataFrame d)) ds @ [Inr (TrailersFrame h)])"
          "concat ds = data_of encode source'" "to_header_map (final_status source') = Inr h" by auto
        then show ?thesis
          using prog None Yield Inr unfolding step eb by (intro exI [of _ "d # ds"] exI [of _ h]) simp
      next
        case (Some st)
        obtain m where "n = Suc m" using len Suc.prems(2) by (cases n) auto
        moreover obtain h where "trailers_frame st = Yield (Inr (TrailersFrame h))" "to_header_map st = Inr h"
          using trailers_frame_Yield by blast
        moreover have "body_run m encode None (b\<lparr>body_ended := True\<rparr>) source'' = Some []" for b source''
          by (cases m) simp_all
        ultimately have "body_run n encode None (new_server\<lparr>body_inner := eb\<rparr>) source' = Some [Inr (TrailersFrame h)]"
          using new Some by (simp add: body_poll_frame_def encoded_poll_next_def)
        with \<open>to_header_map st = Inr h\<close> show ?thesis
          using prog Some Yield Inr unfolding step by (intro exI [of _ "[d]"] exI [of _ h]) simp
      qed
    qed
  qed
qed simp


section \<open>The decoder reads the messages back, however the bytes are cut\<close>

text \<open>The bytes of the message \<open>e\<close> that is next and of what follows, \<open>rest\<close>, in the state \<open>s\<close>.\<close>

definition awaits :: "streaming \<Rightarrow> bytes list \<Rightarrow> bytes \<Rightarrow> bytes \<Rightarrow> bool" where
  "awaits s ds e rest \<longleftrightarrow>
     sm_state s = ReadHeader \<and> sm_buf s @ concat ds = framed e @ rest
     \<or> sm_state s = ReadBody (length e) \<and> sm_buf s @ concat ds = e @ rest"

lemma header_of_buf:
  assumes "buf @ more_bytes = framed e @ rest" "HEADER_SIZE \<le> length buf" "length e < 2 ^ 32"
  shows "byte (buf ! 0) = 0" "get_u32 (drop 1 buf) = length e" "drop HEADER_SIZE buf @ more_bytes = e @ rest"
proof -
  have "take HEADER_SIZE buf = take HEADER_SIZE (framed e @ rest)"
    using assms(1,2) by (metis take_append take0 append.right_neutral diff_is_0_eq)
  also have "\<dots> = CHR 0x00 # put_u32 (length e)" by (simp add: framed_def HEADER_SIZE_def)
  finally have buf: "buf = (CHR 0x00 # put_u32 (length e)) @ drop HEADER_SIZE buf"
    by (metis append_take_drop_id)
  show "byte (buf ! 0) = 0" by (subst buf) (simp add: byte_def)
  have "drop 1 buf = put_u32 (length e) @ drop HEADER_SIZE buf" by (subst buf) simp
  then show "get_u32 (drop 1 buf) = length e" by (simp only: get_put_u32 [OF assms(3)])
  have "drop HEADER_SIZE (buf @ more_bytes) = drop HEADER_SIZE (framed e @ rest)" by (simp add: assms(1))
  then show "drop HEADER_SIZE buf @ more_bytes = e @ rest"
    using assms(2) by (simp add: framed_def HEADER_SIZE_def)
qed

text \<open>Reading the header keeps what is awaited.\<close>

lemma read_header_awaits:
  assumes "awaits s ds e rest" "length e \<le> recv_limit s" "recv_limit s < 2 ^ 32"
  obtains st buf where "read_header s = (Inr (), s\<lparr>sm_state := st, sm_buf := buf\<rparr>)"
    "awaits (s\<lparr>sm_state := st, sm_buf := buf\<rparr>) ds e rest"
    "st = ReadHeader \<Longrightarrow> length buf < HEADER_SIZE"
proof (cases "sm_state s = ReadHeader \<and> HEADER_SIZE \<le> length (sm_buf s)")
  case True
  then have "sm_buf s @ concat ds = framed e @ rest" using assms(1) by (simp add: awaits_def)
  note hdr = header_of_buf [OF this] 
  have "length e < 2 ^ 32" using assms by simp
  with hdr True have "byte (sm_buf s ! 0) = 0" "get_u32 (drop 1 (sm_buf s)) = length e"
    "drop HEADER_SIZE (sm_buf s) @ concat ds = e @ rest" by blast+
  then show thesis
    using True assms(2)
    by (intro that [where st = "ReadBody (length e)" and buf = "drop HEADER_SIZE (sm_buf s)"])
      (auto simp: read_header_def Let_def awaits_def)
next
  case False
  then have "read_header s = (Inr (), s\<lparr>sm_state := sm_state s, sm_buf := sm_buf s\<rparr>)"
    by (auto simp: read_header_def)
  moreover have "awaits (s\<lparr>sm_state := sm_state s, sm_buf := sm_buf s\<rparr>) ds e rest"
    using assms(1) by (simp add: awaits_def)
  ultimately show thesis
    using False by (intro that [where st = "sm_state s" and buf = "sm_buf s"]) auto
qed

lemma decode_chunk_awaits:
  assumes "awaits s ds e rest" "length e \<le> recv_limit s" "recv_limit s < 2 ^ 32" "decode e = Inr m"
  obtains (message) buf where "decode_chunk decode s = (Inr (Some m), s\<lparr>sm_state := ReadHeader, sm_buf := buf\<rparr>)"
      "buf @ concat ds = rest"
    | (more_data) st buf where "decode_chunk decode s = (Inr None, s\<lparr>sm_state := st, sm_buf := buf\<rparr>)"
      "awaits (s\<lparr>sm_state := st, sm_buf := buf\<rparr>) ds e rest" "ds \<noteq> []"
proof -
  obtain st buf where hdr: "read_header s = (Inr (), s\<lparr>sm_state := st, sm_buf := buf\<rparr>)"
    and aw: "awaits (s\<lparr>sm_state := st, sm_buf := buf\<rparr>) ds e rest"
    and short: "st = ReadHeader \<Longrightarrow> length buf < HEADER_SIZE"
    using read_header_awaits [OF assms(1-3)] by blast
  show thesis
  proof (cases "st = ReadBody (length e) \<and> length e \<le> length buf")
    case True
    then have "buf @ concat ds = e @ rest" using aw by (auto simp: awaits_def)
    then have "take (length e) buf = e" "drop (length e) buf @ concat ds = rest"
      using True by (simp_all add: append_eq_append_conv_if split: if_splits)
    then show thesis
      using True assms(4) hdr by (intro message [of "drop (length e) buf"]) (simp_all add: decode_chunk_def)
  next
    case False
    have "ds \<noteq> []"
    proof
      assume "ds = []"
      then show False using aw False short by (auto simp: awaits_def)
    qed
    moreover have "decode_chunk decode s = (Inr None, s\<lparr>sm_state := st, sm_buf := buf\<rparr>)"
      using hdr aw False by (auto simp: decode_chunk_def awaits_def)
    ultimately show thesis using aw by (intro more_data)
  qed
qed

lemma awaits_not_error: "awaits s ds e rest \<Longrightarrow> sm_state s \<noteq> ErrorState x"
  by (auto simp: awaits_def)

lemma poll_next_message:
  assumes "awaits s ds e rest" "length e \<le> recv_limit s" "recv_limit s < 2 ^ 32" "decode e = Inr m"
  shows "\<exists>buf ds'. poll_next utf8_error decode s (map BodyData ds @ body)
      = (Some (Inr m), s\<lparr>sm_state := ReadHeader, sm_buf := buf\<rparr>, map BodyData ds' @ body)
    \<and> buf @ concat ds' = rest"
  using assms
proof (induction ds arbitrary: s)
  case Nil
  have err: "\<nexists>x. sm_state s = ErrorState x" using awaits_not_error [OF Nil.prems(1)] by blast
  show ?case
    using Nil err by (rule_tac decode_chunk_awaits [of s "[]" e rest decode m])
      (auto simp: poll_next.simps [of _ _ s] intro!: exI [of _ "[]"] split: dec_state.splits)
next
  case (Cons d ds)
  have err: "\<nexists>x. sm_state s = ErrorState x" using awaits_not_error [OF Cons.prems(1)] by blast
  show ?case
    using Cons.prems
  proof (cases rule: decode_chunk_awaits)
    case (message buf)
    then show ?thesis
      using err by (intro exI [of _ buf] exI [of _ "d # ds"])
        (auto simp: poll_next.simps [of _ _ s] split: dec_state.splits)
  next
    case (more_data st buf)
    let ?s = "s\<lparr>sm_state := st, sm_buf := buf @ d\<rparr>"
    have "awaits ?s ds e rest" using more_data(2) by (auto simp: awaits_def)
    moreover have "recv_limit ?s = recv_limit s" by (simp add: recv_limit_def)
    ultimately obtain b ds' where
      "poll_next utf8_error decode ?s (map BodyData ds @ body)
         = (Some (Inr m), ?s\<lparr>sm_state := ReadHeader, sm_buf := b\<rparr>, map BodyData ds' @ body)"
      "b @ concat ds' = rest"
      using Cons.IH [of ?s] Cons.prems by auto
    then show ?thesis
      using err more_data(1) by (intro exI [of _ b] exI [of _ ds'])
        (auto simp: poll_next.simps [of _ _ s] split: dec_state.splits)
  qed
qed


lemma poll_next_end:
  assumes "concat ds = []"
  shows "poll_next utf8_error decode (s\<lparr>sm_state := ReadHeader, sm_buf := []\<rparr>) (map BodyData ds @ [BodyTrailers h])
    = (case stream_ended utf8_error (s\<lparr>sm_state := ReadHeader, sm_buf := [],
               sm_trailers := Some (case sm_trailers s of None \<Rightarrow> h | Some u \<Rightarrow> u ++ h)\<rparr>) of
         (r, s) \<Rightarrow> (r, s, []))"
  using assms
  by (induction ds) (simp_all add: poll_next.simps decode_chunk_def read_header_def HEADER_SIZE_def)

lemma collect_messages:
  assumes "sm_state s = ReadHeader" "sm_buf s @ concat ds = concat (map (\<lambda>m. framed (encode m)) ms)"
    and "recv_limit s < 2 ^ 32" "sm_trailers s = None" "length ms < n"
    and "\<And>m. m \<in> set ms \<Longrightarrow> length (encode m) \<le> recv_limit s \<and> decode (encode m) = Inr m"
  shows "collect n utf8_error decode s (map BodyData ds @ [BodyTrailers h])
    = Some (ms, if sm_direction s = DirResponse then infer_grpc_status utf8_error (Some h) else None)"
  using assms
proof (induction ms arbitrary: n s ds)
  case Nil
  then obtain k where "n = Suc k" by (cases n) auto
  moreover have "s = s\<lparr>sm_state := ReadHeader, sm_buf := []\<rparr>" "concat ds = []" using Nil by simp_all
  ultimately show ?case
    using poll_next_end [of ds utf8_error decode s h] Nil
    by (auto simp: stream_ended_def split: option.splits)
next
  case (Cons m ms)
  then obtain k where n: "n = Suc k" by (cases n) auto
  let ?rest = "concat (map (\<lambda>m. framed (encode m)) ms)"
  have "awaits s ds (encode m) ?rest" using Cons.prems(1,2) by (simp add: awaits_def)
  then obtain buf ds' where poll: "poll_next utf8_error decode s (map BodyData ds @ [BodyTrailers h])
      = (Some (Inr m), s\<lparr>sm_state := ReadHeader, sm_buf := buf\<rparr>, map BodyData ds' @ [BodyTrailers h])"
    and rest: "buf @ concat ds' = ?rest"
    using poll_next_message [of s ds "encode m" ?rest decode m utf8_error "[BodyTrailers h]"] Cons.prems(3,6)
    by auto
  have "collect k utf8_error decode (s\<lparr>sm_state := ReadHeader, sm_buf := buf\<rparr>) (map BodyData ds' @ [BodyTrailers h])
      = Some (ms, if sm_direction s = DirResponse then infer_grpc_status utf8_error (Some h) else None)"
    using Cons.IH [of "s\<lparr>sm_state := ReadHeader, sm_buf := buf\<rparr>" ds' k] Cons.prems rest n
    by (simp add: recv_limit_def)
  then show ?case by (simp add: n poll)
qed

section \<open>From the server to the client\<close>

text \<open>
  The messages of a stream and its status reach a client whole: the body ends, all of its
  frames but the last are data, and whenever the connection cuts those bytes into frames in another
  way, the client reads exactly the messages sent before a failure, in order, once each, and then the
  end of the stream or the error the stream failed with. The sizes of the messages are within the limit
  of the client.
\<close>

lemma stream_over_wire:
  assumes sizes: "\<And>m. m \<in> set (messages_of source) \<Longrightarrow> length (encode m) \<le> DEFAULT_MAX_RECV_MESSAGE_SIZE"
    and codec: "\<And>m. m \<in> set (messages_of source) \<Longrightarrow> decode (encode m) = Inr m"
    and message: "utf8_valid (st_message (final_status source))"
  shows "\<exists>ds h. body_frames encode source = Some (map (\<lambda>d. Inr (DataFrame d)) ds @ [Inr (TrailersFrame h)])
    \<and> (\<forall>ds'. concat ds' = concat ds \<longrightarrow>
         collect (Suc (length (messages_of source))) utf8_error decode (new_streaming DirResponse None)
             (map BodyData ds' @ [BodyTrailers h])
           = Some (messages_of source,
                   if st_code (final_status source) = Code_Ok then None else Some (final_status source)))"
proof -
  have small: "DEFAULT_MAX_RECV_MESSAGE_SIZE < 2 ^ 32" by (simp add: DEFAULT_MAX_RECV_MESSAGE_SIZE_def)
  have "list_all (\<lambda>i. sendable (encode i)) (messages_of source)"
    using sizes small by (fastforce simp: list_all_iff sendable_def)
  from body_run_delivers [OF this, of "length source + 1"] obtain ds h where
    frames: "body_frames encode source = Some (map (\<lambda>d. Inr (DataFrame d)) ds @ [Inr (TrailersFrame h)])"
    and data: "concat ds = data_of encode source"
    and h: "to_header_map (final_status source) = Inr h"
    by (auto simp: body_frames_def)
  have st: "infer_grpc_status utf8_error (Some h) =
      (if st_code (final_status source) = Code_Ok then None else Some (final_status source))"
    using header_map_round_trip [OF message h] by (simp add: infer_grpc_status_def)
  have "collect (Suc (length (messages_of source))) utf8_error decode (new_streaming DirResponse None)
      (map BodyData ds' @ [BodyTrailers h]) = Some (messages_of source, infer_grpc_status utf8_error (Some h))"
    if "concat ds' = concat ds" for ds'
    using collect_messages [of "new_streaming DirResponse None" ds' encode "messages_of source"
        "Suc (length (messages_of source))" decode utf8_error h] that data sizes codec small
    by (simp add: new_streaming_def recv_limit_def data_of_def)
  then show ?thesis using frames st by auto
qed

end
