(* ===== verification/Rpc_Wire.thy ===== *)
theory Rpc_Wire
  imports Round_Trip Frames Grpc
begin

text \<open>
  A call from the bytes of its request to the bytes of its answer. The request: the frames of the
  body, the one message of a unary call (\<^verbatim>\<open>map_request_unary\<close> of \<^verbatim>\<open>tonic/src/server/grpc.rs\<close>), the codec of
  \<^verbatim>\<open>tonic-prost\<close>, and the generated routing by path, down to the handlers of the theory \<^verbatim>\<open>Grpc\<close>. The
  answer: the stream of a download as the encoder polls it, read back by a client. Requests carry no
  \<^verbatim>\<open>grpc-encoding\<close> header, as the client enables no compression.
\<close>

section \<open>The codec\<close>

text \<open>The debug format of a wire type and the display format of an error.\<close>

fun wire_type_debug :: "wire_type \<Rightarrow> string" where
  "wire_type_debug Varint = ''Varint''"
| "wire_type_debug SixtyFourBit = ''SixtyFourBit''"
| "wire_type_debug LengthDelimited = ''LengthDelimited''"
| "wire_type_debug StartGroup = ''StartGroup''"
| "wire_type_debug EndGroup = ''EndGroup''"
| "wire_type_debug ThirtyTwoBit = ''ThirtyTwoBit''"

fun decode_error_kind_display :: "decode_error_kind \<Rightarrow> string" where
  "decode_error_kind_display LengthDelimiterTooLarge = ''length delimiter exceeds maximum usize value''"
| "decode_error_kind_display InvalidVarint = ''invalid varint''"
| "decode_error_kind_display RecursionLimitReached = ''recursion limit reached''"
| "decode_error_kind_display (InvalidWireType v) = ''invalid wire type value: '' @ show_nat (unat v)"
| "decode_error_kind_display (InvalidKey k) = ''invalid key value: '' @ show_nat (unat k)"
| "decode_error_kind_display InvalidTag = ''invalid tag value: 0''"
| "decode_error_kind_display (UnexpectedWireType actual expected) =
     ''invalid wire type: '' @ wire_type_debug actual @ '' (expected '' @ wire_type_debug expected @ '')''"
| "decode_error_kind_display BufferUnderflow = ''buffer underflow''"
| "decode_error_kind_display DelimitedLengthExceeded = ''delimited length exceeded''"
| "decode_error_kind_display UnexpectedEndGroupTag = ''unexpected end group tag''"
| "decode_error_kind_display InvalidString = ''invalid string value: data is not UTF-8 encoded''"
| "decode_error_kind_display (UnexpectedTypeUrl actual expected) =
     ''unexpected type URL.type_url: expected type URL: \"'' @ expected @ ''\" (got: \"'' @ actual @ ''\")''"
| "decode_error_kind_display (Other d) = d"

definition decode_error_display :: "decode_error \<Rightarrow> string" where
  "decode_error_display e =
     ''failed to decode Protobuf message: ''
     @ concat (map (\<lambda>(message, field). message @ ''.'' @ field @ '': '') (stack e))
     @ decode_error_kind_display (description e)"

definition from_decode_error :: "decode_error \<Rightarrow> status" where
  "from_decode_error e = status_internal (decode_error_display e)"

definition prost_decode :: "'m field_merger \<Rightarrow> 'm \<Rightarrow> bytes \<Rightarrow> status + 'm" where
  "prost_decode merge_field d buf = map_err from_decode_error (message_decode merge_field d buf)"

lemma prost_decode_Inr_iff [simp]:
  "prost_decode mf d buf = Inr m \<longleftrightarrow> message_decode mf d buf = Inr m"
  by (cases "message_decode mf d buf") (simp_all add: prost_decode_def map_err_def)

section \<open>Every poll of a stream makes progress\<close>

text \<open>The bytes not yet read; a header that was read without its message counts for one.\<close>

fun event_bytes :: "body_event \<Rightarrow> nat" where
  "event_bytes (BodyData d) = length d"
| "event_bytes (BodyTrailers h) = 0"
| "event_bytes (BodyError st) = 0"

definition unread_bytes :: "streaming \<Rightarrow> nat" where
  "unread_bytes s = length (sm_buf s) + (case sm_state s of ReadBody n \<Rightarrow> 1 | _ \<Rightarrow> 0)"

definition body_size :: "body_event list \<Rightarrow> nat" where
  "body_size body = sum_list (map event_bytes body)"

lemma read_header_le: "read_header s = (r, s') \<Longrightarrow> unread_bytes s' \<le> unread_bytes s"
  by (auto simp: read_header_def unread_bytes_def Let_def HEADER_SIZE_def split: if_splits)

lemma decode_chunk_le: "decode_chunk decode s = (Inr None, s') \<Longrightarrow> unread_bytes s' \<le> unread_bytes s"
  by (auto simp: decode_chunk_def split: prod.splits sum.splits dec_state.splits if_splits dest: read_header_le)

lemma decode_chunk_less:
  assumes "decode_chunk decode s = (Inr (Some m), s')"
  shows "unread_bytes s' < unread_bytes s"
proof -
  obtain u len where "read_header s = (Inr (), u)" "sm_state u = ReadBody len"
    "s' = u\<lparr>sm_buf := drop len (sm_buf u), sm_state := ReadHeader\<rparr>"
    using assms by (auto simp: decode_chunk_def split: prod.splits sum.splits dec_state.splits if_splits)
  then have "unread_bytes s' < unread_bytes u" by (simp add: unread_bytes_def)
  with read_header_le [OF \<open>read_header s = (Inr (), u)\<close>] show ?thesis by simp
qed

lemma poll_next_less:
  "poll_next utf8_error decode s body = (Some (Inr m), s', body') \<Longrightarrow>
   unread_bytes s' + body_size body' < unread_bytes s + body_size body"
proof (induction body arbitrary: s)
  case Nil
  then show ?case
    by (subst (asm) poll_next.simps)
      (auto simp: stream_ended_def split: dec_state.splits prod.splits sum.splits option.splits if_splits
        dest: decode_chunk_less)
next
  case (Cons x body)
  show ?case
  proof (cases x)
    case (BodyData d)
    show ?thesis
    proof (cases "\<exists>t. decode_chunk decode s = (Inr None, t) \<and> (\<nexists>e. sm_state s = ErrorState e)")
      case True
      then obtain t where t: "decode_chunk decode s = (Inr None, t)" "\<nexists>e. sm_state s = ErrorState e" by blast
      then have "poll_next utf8_error decode (t\<lparr>sm_buf := sm_buf t @ d\<rparr>) body = (Some (Inr m), s', body')"
        using Cons.prems BodyData by (subst (asm) poll_next.simps) (auto split: dec_state.splits)
      from Cons.IH [OF this] decode_chunk_le [OF t(1)] show ?thesis
        by (simp add: BodyData body_size_def unread_bytes_def)
    next
      case False
      then show ?thesis
        using Cons.prems BodyData
        by (subst (asm) poll_next.simps)
          (auto split: dec_state.splits prod.splits sum.splits option.splits dest: decode_chunk_less)
    qed
  qed (use Cons.prems in \<open>subst (asm) poll_next.simps,
        auto simp: stream_ended_def body_size_def split: dec_state.splits prod.splits sum.splits option.splits if_splits
        dest: decode_chunk_less\<close>)+
qed

section \<open>The request of a unary call\<close>

text \<open>The loop of \<^verbatim>\<open>trailers\<close>: the rest of the stream is read up to its end or an error.\<close>

function drain ::
  "(bytes \<Rightarrow> string) \<Rightarrow> (bytes \<Rightarrow> status + 'm) \<Rightarrow> streaming \<Rightarrow> body_event list \<Rightarrow> status + unit" where
  "drain utf8_error decode s body =
     (case poll_next utf8_error decode s body of
        (None, _, _) \<Rightarrow> Inr ()
      | (Some (Inl st), _, _) \<Rightarrow> Inl st
      | (Some (Inr _), s, body) \<Rightarrow> drain utf8_error decode s body)"
  by pat_completeness auto
termination
  by (relation "measure (\<lambda>(_, _, s, body). unread_bytes s + body_size body)") (auto dest: poll_next_less [OF sym])

declare drain.simps [simp del]

definition map_request_unary ::
  "(bytes \<Rightarrow> string) \<Rightarrow> (bytes \<Rightarrow> status + 'm) \<Rightarrow> body_event list \<Rightarrow> status + 'm" where
  "map_request_unary utf8_error decode body =
     (case poll_next utf8_error decode (new_streaming DirRequest None) body of
        (None, _, _) \<Rightarrow> Inl (status_internal ''Missing request message.'')
      | (Some (Inl st), _, _) \<Rightarrow> Inl st
      | (Some (Inr m), s, body) \<Rightarrow>
          if sm_trailers s \<noteq> None then Inr m
          else and_then (drain utf8_error decode s body) (\<lambda>_. Inr m))"

text \<open>The generated service: the path decides the method, any other path is unimplemented.\<close>

fun rpc_path :: "rpc \<Rightarrow> string" where
  "rpc_path CreateBackupRpc = ''/backup.Backup/CreateBackup''"
| "rpc_path (ListBackupsRpc r) = ''/backup.Backup/ListBackups''"
| "rpc_path (GetBackupRpc r) = ''/backup.Backup/GetBackup''"
| "rpc_path (DownloadBackupRpc r) = ''/backup.Backup/DownloadBackup''"
| "rpc_path (RestoreRpc r) = ''/backup.Backup/Restore''"
| "rpc_path HealthcheckRpc = ''/backup.Backup/Healthcheck''"

definition route :: "(bytes \<Rightarrow> string) \<Rightarrow> string \<Rightarrow> body_event list \<Rightarrow> status + rpc" where
  "route utf8_error p body =
     (if p = ''/backup.Backup/CreateBackup'' then
        and_then (map_request_unary utf8_error (prost_decode empty_merge_field ()) body) (\<lambda>_. Inr CreateBackupRpc)
      else if p = ''/backup.Backup/ListBackups'' then
        and_then (map_request_unary utf8_error (prost_decode list_request_merge_field list_request_default) body)
          (\<lambda>r. Inr (ListBackupsRpc r))
      else if p = ''/backup.Backup/GetBackup'' then
        and_then (map_request_unary utf8_error (prost_decode ref_merge_field ref_default) body)
          (\<lambda>r. Inr (GetBackupRpc r))
      else if p = ''/backup.Backup/DownloadBackup'' then
        and_then (map_request_unary utf8_error (prost_decode ref_merge_field ref_default) body)
          (\<lambda>r. Inr (DownloadBackupRpc r))
      else if p = ''/backup.Backup/Restore'' then
        and_then (map_request_unary utf8_error (prost_decode restore_request_merge_field restore_request_default) body)
          (\<lambda>r. Inr (RestoreRpc r))
      else if p = ''/backup.Backup/Healthcheck'' then
        and_then (map_request_unary utf8_error (prost_decode empty_merge_field ()) body) (\<lambda>_. Inr HealthcheckRpc)
      else Inl \<lparr>st_code = Code_Unimplemented, st_message = []\<rparr>)"

definition serve_request ::
  "'a service_deps_scheme \<Rightarrow> (bytes \<Rightarrow> string) \<Rightarrow> string \<Rightarrow> body_event list \<Rightarrow> (status + rpc_reply) prog" where
  "serve_request deps utf8_error p body =
     (case route utf8_error p body of Inl st \<Rightarrow> Ret (Inl st) | Inr req \<Rightarrow> dispatch deps req)"

text \<open>The message of a request as the generated client encodes it.\<close>

fun rpc_encode :: "rpc \<Rightarrow> bytes" where
  "rpc_encode CreateBackupRpc = empty_encode_raw ()"
| "rpc_encode (ListBackupsRpc r) = list_request_encode_raw r"
| "rpc_encode (GetBackupRpc r) = ref_encode_raw r"
| "rpc_encode (DownloadBackupRpc r) = ref_encode_raw r"
| "rpc_encode (RestoreRpc r) = restore_request_encode_raw r"
| "rpc_encode HealthcheckRpc = empty_encode_raw ()"

fun rpc_ok :: "rpc \<Rightarrow> bool" where
  "rpc_ok (ListBackupsRpc r) \<longleftrightarrow> list_request_ok r"
| "rpc_ok (GetBackupRpc r) \<longleftrightarrow> ref_ok r"
| "rpc_ok (DownloadBackupRpc r) \<longleftrightarrow> ref_ok r"
| "rpc_ok (RestoreRpc r) \<longleftrightarrow> restore_request_ok r"
| "rpc_ok _ \<longleftrightarrow> True"

lemma drain_end:
  assumes "concat ds = []" "sm_direction s = DirRequest"
  shows "drain utf8_error decode (s\<lparr>sm_state := ReadHeader, sm_buf := []\<rparr>) (map BodyData ds) = Inr ()"
proof -
  have "poll_next utf8_error decode (s\<lparr>sm_state := ReadHeader, sm_buf := []\<rparr>) (map BodyData ds)
      = (None, s\<lparr>sm_state := ReadHeader, sm_buf := []\<rparr>, [])"
    using assms
    by (induction ds)
      (simp_all add: poll_next.simps decode_chunk_def read_header_def HEADER_SIZE_def stream_ended_def)
  then show ?thesis by (simp add: drain.simps)
qed

lemma map_request_unary_framed:
  assumes "length e \<le> DEFAULT_MAX_RECV_MESSAGE_SIZE" "decode e = Inr m" "concat ds = framed e"
  shows "map_request_unary utf8_error decode (map BodyData ds) = Inr m"
proof -
  let ?s = "new_streaming DirRequest None"
  have "awaits ?s ds e []" using assms(3) by (simp add: awaits_def new_streaming_def)
  moreover have "recv_limit ?s = DEFAULT_MAX_RECV_MESSAGE_SIZE" by (simp add: recv_limit_def new_streaming_def)
  moreover have "DEFAULT_MAX_RECV_MESSAGE_SIZE < 2 ^ 32" by (simp add: DEFAULT_MAX_RECV_MESSAGE_SIZE_def)
  ultimately obtain buf ds' where
    poll: "poll_next utf8_error decode ?s (map BodyData ds)
      = (Some (Inr m), ?s\<lparr>sm_state := ReadHeader, sm_buf := buf\<rparr>, map BodyData ds')"
    and "buf @ concat ds' = []"
    using poll_next_message [of ?s ds e "[]" decode m utf8_error "[]"] assms(1,2) by auto
  then show ?thesis
    using drain_end [of ds' ?s utf8_error decode] by (simp add: map_request_unary_def new_streaming_def)
qed

lemma map_request_unary_decodes:
  assumes "map_request_unary utf8_error decode body = Inr m"
  shows "\<exists>e. decode e = Inr m"
proof -
  have poll: "poll_next utf8_error decode s body = (Some (Inr m), s', body') \<Longrightarrow> \<exists>e. decode e = Inr m" for s s' body'
  proof (induction body arbitrary: s)
    case Nil
    then show ?case
      by (subst (asm) poll_next.simps)
        (auto simp: decode_chunk_def stream_ended_def split: dec_state.splits prod.splits sum.splits option.splits if_splits)
  next
    case (Cons x body)
    then show ?case
      by (subst (asm) (2) poll_next.simps)
        (auto simp: decode_chunk_def stream_ended_def split: dec_state.splits prod.splits sum.splits option.splits if_splits
          body_event.splits)
  qed
  then show ?thesis
    using assms by (auto simp: map_request_unary_def and_then_Inr_iff split: prod.splits sum.splits option.splits if_splits)
qed

lemma rpc_decode_encode:
  "rpc_ok req \<Longrightarrow>
   (case req of
      CreateBackupRpc \<Rightarrow> prost_decode empty_merge_field () (rpc_encode req) = Inr ()
    | ListBackupsRpc r \<Rightarrow> prost_decode list_request_merge_field list_request_default (rpc_encode req) = Inr r
    | GetBackupRpc r \<Rightarrow> prost_decode ref_merge_field ref_default (rpc_encode req) = Inr r
    | DownloadBackupRpc r \<Rightarrow> prost_decode ref_merge_field ref_default (rpc_encode req) = Inr r
    | RestoreRpc r \<Rightarrow> prost_decode restore_request_merge_field restore_request_default (rpc_encode req) = Inr r
    | HealthcheckRpc \<Rightarrow> prost_decode empty_merge_field () (rpc_encode req) = Inr ())"
  by (cases req)
    (simp_all add: RECURSION_LIMIT_def empty_msg.decode_encode list_request_msg.decode_encode
      ref_msg.decode_encode restore_request_msg.decode_encode)

lemma route_framed:
  assumes "rpc_ok req" "length (rpc_encode req) \<le> DEFAULT_MAX_RECV_MESSAGE_SIZE" "concat ds = framed (rpc_encode req)"
  shows "route utf8_error (rpc_path req) (map BodyData ds) = Inr req"
proof -
  note read = map_request_unary_framed [OF assms(2) _ assms(3)]
  show ?thesis
    using rpc_decode_encode [OF assms(1)] by (cases req) (simp_all add: route_def read and_then_def)
qed

section \<open>The stream of a download\<close>

text \<open>The items of the channel as the encoder finds them, with any number of polls that find none.\<close>

fun answer_of :: "stream_item \<Rightarrow> download_chunk answer" where
  "answer_of (Inl st) = Failed st"
| "answer_of (Inr c) = Item c"

definition polled_items :: "download_chunk answer list \<Rightarrow> stream_item list \<Rightarrow> bool" where
  "polled_items source log \<longleftrightarrow> filter (\<lambda>a. a \<noteq> NotReady) source = map answer_of log"

definition header_chunk :: "proto_info \<Rightarrow> download_chunk" where
  "header_chunk info = \<lparr>chunk_payload = Some (Info info)\<rparr>"

definition data_chunk :: "bytes \<Rightarrow> download_chunk" where
  "data_chunk d = \<lparr>chunk_payload = Some (Data d)\<rparr>"

lemma messages_of_ready: "messages_of source = messages_of (filter (\<lambda>a. a \<noteq> NotReady) source)"
  by (induction source rule: messages_of.induct) simp_all

lemma final_status_ready: "final_status source = final_status (filter (\<lambda>a. a \<noteq> NotReady) source)"
  by (induction source rule: final_status.induct) simp_all

lemma messages_of_items: "messages_of (map Item ms @ source) = ms @ messages_of source"
  by (induction ms) simp_all

lemma final_status_items: "final_status (map Item ms @ source) = final_status source"
  by (induction ms) simp_all

lemma answers_of_transfer: "map answer_of (transfer info cs) = map Item (header_chunk info # map data_chunk cs)"
  by (simp add: transfer_def header_item_def data_item_def header_chunk_def data_chunk_def)

lemma messages_of_transfer:
  assumes "polled_items source (transfer info cs @ fin)" "fin = [] \<or> fin = [Inl st]"
  shows "messages_of source = header_chunk info # map data_chunk cs"
    and "final_status source = (if fin = [] then status_ok else st)"
proof -
  have "filter (\<lambda>a. a \<noteq> NotReady) source
      = map Item (header_chunk info # map data_chunk cs) @ (if fin = [] then [] else [Failed st])"
    using assms unfolding polled_items_def map_append answers_of_transfer by (elim disjE) simp_all
  then show "messages_of source = header_chunk info # map data_chunk cs"
    and "final_status source = (if fin = [] then status_ok else st)"
    by (simp_all only: messages_of_ready [of source] final_status_ready [of source] messages_of_items final_status_items)
      simp_all
qed

lemma length_message_encode_le:
  "length (message_encode len encode tag m) \<le> 20 + length (encode m)"
  using length_encode_key_le [of tag LengthDelimited] length_encode_varint_le [of "of_nat (len m)"]
  by (simp add: message_encode_def)

lemma chunk_encode_small:
  assumes "m \<in> set (header_chunk info # map data_chunk cs)" "info_ok info" "list_all chunk_ok cs"
    and "length (pi_id info) + length (pi_name info) \<le> CHUNK_SIZE"
  shows "length (chunk_encode_raw m) \<le> DEFAULT_MAX_RECV_MESSAGE_SIZE
    \<and> prost_decode chunk_merge_field chunk_default (chunk_encode_raw m) = Inr m"
proof -
  have info: "length (info_encode_raw info) \<le> CHUNK_SIZE + 160"
    using length_info_le [of info] assms(4) by simp
  then have fits: "fits (length (info_encode_raw info))" by (simp add: CHUNK_SIZE_def fits_def)
  consider "m = header_chunk info" | x where "m = data_chunk x" "length x \<le> CHUNK_SIZE"
    using assms(1,3) by (auto simp: list_all_iff chunk_ok_def)
  then have "chunk_msg_ok m \<and> length (chunk_encode_raw m) \<le> CHUNK_SIZE + 200"
  proof cases
    case 1
    then show ?thesis
      using assms(2) info fits length_message_encode_le [of info_encoded_len info_encode_raw 1 info]
      by (simp add: header_chunk_def chunk_msg_ok_def info_fits_def chunk_encode_raw_def optional_def)
  next
    case 2
    then show ?thesis
      using length_bytes_encode_le [of 2 x]
      by (simp add: data_chunk_def chunk_msg_ok_def chunk_encode_raw_def optional_def CHUNK_SIZE_def fits_def)
  qed
  then show ?thesis
    by (simp add: chunk_msg.decode_encode RECURSION_LIMIT_def CHUNK_SIZE_def DEFAULT_MAX_RECV_MESSAGE_SIZE_def)
qed

section \<open>The connection\<close>

text \<open>
  What HTTP/2 promises of the frames of a body: the data arrive in order and whole, cut into frames
  in any way, and the trailers arrive last.
\<close>

inductive delivered :: "(status + http_frame) list \<Rightarrow> body_event list \<Rightarrow> bool" where
  no_body: "delivered [] []"
| body: "concat ds' = concat ds \<Longrightarrow>
    delivered (map (\<lambda>d. Inr (DataFrame d)) ds @ [Inr (TrailersFrame h)]) (map BodyData ds' @ [BodyTrailers h])"

inductive_cases delivered_NilE [elim!]: "delivered [] events"

lemma delivered_body_iff:
  "delivered (map (\<lambda>d. Inr (DataFrame d)) ds @ [Inr (TrailersFrame h)]) events \<longleftrightarrow>
     (\<exists>ds'. concat ds' = concat ds \<and> events = map BodyData ds' @ [BodyTrailers h])" (is "?d \<longleftrightarrow> ?e")
proof
  have inj: "inj (\<lambda>d. Inr (DataFrame d) :: status + http_frame)" by (simp add: inj_def)
  assume ?d
  then show ?e by (cases rule: delivered.cases) (auto dest!: map_injective [OF _ inj])
qed (auto intro: delivered.body)

section \<open>The answer of a unary call\<close>

text \<open>
  \<^verbatim>\<open>map_response\<close>: an error of the handler becomes a response without a body whose headers carry the
  status, a reply becomes a stream of one message. The two parts of a response are its headers and its body.
\<close>

definition CONTENT_TYPE :: string where "CONTENT_TYPE = ''content-type''"
definition GRPC_CONTENT_TYPE :: string where "GRPC_CONTENT_TYPE = ''application/grpc''"

definition into_http :: "status \<Rightarrow> status + headers" where
  "into_http st = and_then (to_header_map st) (\<lambda>h. Inr (h(CONTENT_TYPE \<mapsto> GRPC_CONTENT_TYPE)))"

definition map_response ::
  "('m \<Rightarrow> bytes) \<Rightarrow> status + 'm answer list \<Rightarrow> (status + headers) \<times> (status + http_frame) list option" where
  "map_response encode r =
     (case r of
        Inl st \<Rightarrow> (into_http st, Some [])
      | Inr source \<Rightarrow> (Inr [CONTENT_TYPE \<mapsto> GRPC_CONTENT_TYPE], body_frames encode source))"

definition unary_response ::
  "('m \<Rightarrow> bytes) \<Rightarrow> status + 'm \<Rightarrow> (status + headers) \<times> (status + http_frame) list option" where
  "unary_response encode r = map_response encode (map_sum id (\<lambda>m. [Item m]) r)"

text \<open>\<^verbatim>\<open>create_response\<close> of the client and the one message that a unary call reads.\<close>

definition create_response :: "(bytes \<Rightarrow> string) \<Rightarrow> headers \<Rightarrow> status + streaming" where
  "create_response utf8_error h =
     (case from_header_map utf8_error h of
        Some st \<Rightarrow> if st_code st \<noteq> Code_Ok then Inl st else Inr (new_streaming DirEmptyResponse None)
      | None \<Rightarrow> Inr (new_streaming DirResponse None))"

definition client_unary ::
  "(bytes \<Rightarrow> string) \<Rightarrow> (bytes \<Rightarrow> status + 'm) \<Rightarrow> headers \<Rightarrow> body_event list \<Rightarrow> status + 'm" where
  "client_unary utf8_error decode h body =
     and_then (create_response utf8_error h) (\<lambda>s.
       case poll_next utf8_error decode s body of
         (None, _, _) \<Rightarrow> Inl (status_internal ''Missing response message.'')
       | (Some (Inl st), _, _) \<Rightarrow> Inl st
       | (Some (Inr m), s, body) \<Rightarrow>
           if sm_trailers s \<noteq> None then Inr m
           else and_then (drain utf8_error decode s body) (\<lambda>_. Inr m))"

lemma from_header_map_content_type [simp]:
  "from_header_map utf8_error (h(CONTENT_TYPE \<mapsto> v)) = from_header_map utf8_error h"
proof -
  have "GRPC_STATUS \<noteq> CONTENT_TYPE" "GRPC_MESSAGE \<noteq> CONTENT_TYPE"
    by (simp_all add: CONTENT_TYPE_def GRPC_STATUS_def GRPC_MESSAGE_def)
  then show ?thesis by (simp add: from_header_map_def split: option.split)
qed

lemma create_response_body:
  "create_response utf8_error [CONTENT_TYPE \<mapsto> GRPC_CONTENT_TYPE] = Inr (new_streaming DirResponse None)"
  by (simp add: create_response_def from_header_map_def CONTENT_TYPE_def GRPC_STATUS_def)

lemma drain_collect:
  "collect n utf8_error decode s body = Some (ms, e) \<Longrightarrow>
   drain utf8_error decode s body = (case e of None \<Rightarrow> Inr () | Some st \<Rightarrow> Inl st)"
proof (induction n arbitrary: s body ms)
  case (Suc n)
  then show ?case
    by (subst drain.simps) (auto split: prod.splits option.splits sum.splits)
qed simp

lemma client_unary_collect:
  assumes "collect (Suc n) utf8_error decode s body = Some ([m], None)" "create_response utf8_error h = Inr s"
  shows "client_unary utf8_error decode h body = Inr m"
proof -
  obtain s' body' where "poll_next utf8_error decode s body = (Some (Inr m), s', body')"
    "collect n utf8_error decode s' body' = Some ([], None)"
    using assms(1) by (auto split: prod.splits option.splits sum.splits)
  then show ?thesis
    using drain_collect [of n utf8_error decode s' body' "[]" None] assms(2)
    by (simp add: client_unary_def and_then_def)
qed

lemma unary_error_reaches_client:
  assumes "utf8_valid (st_message st)" "st_code st \<noteq> Code_Ok"
  shows "\<exists>h. unary_response encode (Inl st) = (Inr h, Some []) \<and> client_unary utf8_error decode h events = Inl st"
proof -
  obtain h where h: "to_header_map st = Inr h" using to_header_map_Inr by blast
  show ?thesis
    using header_map_round_trip [OF assms(1) h] assms(2) h
    by (simp add: unary_response_def map_response_def into_http_def client_unary_def create_response_def and_then_def)
qed

lemma unary_reply_reaches_client:
  assumes "length (encode m) \<le> DEFAULT_MAX_RECV_MESSAGE_SIZE" "decode (encode m) = Inr m"
  shows "\<exists>h fs. unary_response encode (Inr m) = (Inr h, Some fs)
    \<and> (\<forall>events. delivered fs events \<longrightarrow> client_unary utf8_error decode h events = Inr m)"
proof -
  obtain ds tr where frames: "body_frames encode [Item m]
      = Some (map (\<lambda>d. Inr (DataFrame d)) ds @ [Inr (TrailersFrame tr)])"
    and read: "\<forall>ds'. concat ds' = concat ds \<longrightarrow>
       collect (Suc (Suc 0)) utf8_error decode (new_streaming DirResponse None) (map BodyData ds' @ [BodyTrailers tr])
         = Some ([m], None)"
    using stream_over_wire [of "[Item m]" encode decode utf8_error] assms by (auto simp: status_ok_def)
  have "client_unary utf8_error decode [CONTENT_TYPE \<mapsto> GRPC_CONTENT_TYPE] (map BodyData ds' @ [BodyTrailers tr]) = Inr m"
    if "concat ds' = concat ds" for ds'
    by (rule client_unary_collect [OF read [rule_format, OF that] create_response_body])
  then show ?thesis using frames by (auto simp: unary_response_def map_response_def delivered_body_iff)
qed

text \<open>
  The replies, as the generated service encodes them and the generated client of a unary call decodes
  them. Of a stream it is the first message; a client reads it with the others.
\<close>

fun reply_encode :: "rpc_reply \<Rightarrow> bytes" where
  "reply_encode (InfoReply m) = info_encode_raw m"
| "reply_encode (ListReply m) = list_reply_encode_raw m"
| "reply_encode (RestoreReply m) = restore_reply_encode_raw m"
| "reply_encode (HealthReply ok) = health_encode_raw \<lparr>hr_is_ok = ok\<rparr>"
| "reply_encode (StreamReply info f) = chunk_encode_raw (header_chunk info)"

fun reply_decode :: "rpc \<Rightarrow> (bytes \<Rightarrow> status + rpc_reply) option" where
  "reply_decode CreateBackupRpc = Some (\<lambda>buf. map_sum id InfoReply (prost_decode info_merge_field info_default buf))"
| "reply_decode (ListBackupsRpc r) =
     Some (\<lambda>buf. map_sum id ListReply (prost_decode list_reply_merge_field list_reply_default buf))"
| "reply_decode (GetBackupRpc r) = Some (\<lambda>buf. map_sum id InfoReply (prost_decode info_merge_field info_default buf))"
| "reply_decode (DownloadBackupRpc r) = None"
| "reply_decode (RestoreRpc r) =
     Some (\<lambda>buf. map_sum id RestoreReply (prost_decode restore_reply_merge_field restore_reply_default buf))"
| "reply_decode HealthcheckRpc =
     Some (\<lambda>buf. map_sum id (\<lambda>m. HealthReply (hr_is_ok m)) (prost_decode health_merge_field health_default buf))"

text \<open>Replies that Rust can hold and that a client with the default limit accepts.\<close>

fun reply_ok :: "rpc_reply \<Rightarrow> bool" where
  "reply_ok (InfoReply m) \<longleftrightarrow> info_ok m"
| "reply_ok (ListReply m) \<longleftrightarrow> list_reply_ok m"
| "reply_ok (RestoreReply m) \<longleftrightarrow> restore_reply_ok m"
| "reply_ok _ \<longleftrightarrow> True"

fun answer_ok :: "status + rpc_reply \<Rightarrow> bool" where
  "answer_ok (Inl st) \<longleftrightarrow> utf8_valid (st_message st)"
| "answer_ok (Inr y) \<longleftrightarrow> reply_ok y \<and> length (reply_encode y) \<le> DEFAULT_MAX_RECV_MESSAGE_SIZE"

fun reply_matches :: "rpc \<Rightarrow> rpc_reply \<Rightarrow> bool" where
  "reply_matches CreateBackupRpc y \<longleftrightarrow> (\<exists>m. y = InfoReply m)"
| "reply_matches (ListBackupsRpc r) y \<longleftrightarrow> (\<exists>m. y = ListReply m)"
| "reply_matches (GetBackupRpc r) y \<longleftrightarrow> (\<exists>m. y = InfoReply m)"
| "reply_matches (DownloadBackupRpc r) y \<longleftrightarrow> (\<exists>h f. y = StreamReply h f)"
| "reply_matches (RestoreRpc r) y \<longleftrightarrow> (\<exists>m. y = RestoreReply m)"
| "reply_matches HealthcheckRpc y \<longleftrightarrow> (\<exists>b. y = HealthReply b)"

lemma dispatch_matches:
  "run D (dispatch deps req) s = (Inr y, s') \<Longrightarrow> reply_matches req y"
  by (cases req) (auto simp: run_bind map_sum_def split: prod.splits sum.splits)

lemma to_status_not_ok: "st_code (snd (to_status ctxt e)) \<noteq> Code_Ok"
  by (cases e) (simp_all add: to_status_def Let_def)

lemma respond_not_ok: "respond ctxt f r = Inl st \<Longrightarrow> st_code st \<noteq> Code_Ok"
  by (auto simp: respond_def to_status_not_ok split: sum.splits)

lemma dispatch_not_ok:
  "run D (dispatch deps req) s = (Inl st, s') \<Longrightarrow> st_code st \<noteq> Code_Ok"
  by (cases req)
    (auto simp: run_bind map_sum_def grpc_create_backup_def grpc_list_backups_def grpc_get_backup_def
      grpc_download_backup_def grpc_restore_def grpc_healthcheck_def Let_def
      split: prod.splits sum.splits dest!: respond_not_ok to_backup_target_error)

lemma reply_decode_encode:
  assumes "reply_ok y" "reply_matches req y" "reply_decode req = Some decode"
  shows "decode (reply_encode y) = Inr y"
proof -
  have codec: "info_ok m \<Longrightarrow> prost_decode info_merge_field info_default (info_encode_raw m) = Inr m"
    "list_reply_ok l \<Longrightarrow> prost_decode list_reply_merge_field list_reply_default (list_reply_encode_raw l) = Inr l"
    "restore_reply_ok r \<Longrightarrow>
       prost_decode restore_reply_merge_field restore_reply_default (restore_reply_encode_raw r) = Inr r"
    "prost_decode health_merge_field health_default (health_encode_raw k) = Inr k" for m l r k
    by (simp_all add: RECURSION_LIMIT_def info_msg.decode_encode list_reply_msg.decode_encode
        restore_reply_msg.decode_encode health_msg.decode_encode)
  show ?thesis using assms by (cases req) (auto simp: codec)
qed

lemma answer_reaches_client:
  assumes "run D (dispatch deps req) s = (r, s')" "reply_decode req = Some decode" "answer_ok r"
  shows "\<exists>h fs. unary_response reply_encode r = (Inr h, Some fs)
    \<and> (\<forall>events. delivered fs events \<longrightarrow> client_unary utf8_error decode h events = r)"
proof (cases r)
  case (Inl st)
  then have "st_code st \<noteq> Code_Ok" "utf8_valid (st_message st)"
    using assms dispatch_not_ok [OF assms(1) [unfolded Inl]] by auto
  with unary_error_reaches_client [of st reply_encode utf8_error decode "[]"] show ?thesis
    unfolding Inl by auto
next
  case (Inr y)
  then have "decode (reply_encode y) = Inr y" "length (reply_encode y) \<le> DEFAULT_MAX_RECV_MESSAGE_SIZE"
    using assms reply_decode_encode [OF _ dispatch_matches] by auto
  from unary_reply_reaches_client [of reply_encode y decode, OF this(2,1)] show ?thesis unfolding Inr by blast
qed

section \<open>Strings of the requests that reach a handler\<close>

fun rpc_utf8 :: "rpc \<Rightarrow> bool" where
  "rpc_utf8 (ListBackupsRpc r) \<longleftrightarrow> utf8_valid (lr_page_token r)"
| "rpc_utf8 (GetBackupRpc r) \<longleftrightarrow> target_utf8 r"
| "rpc_utf8 (DownloadBackupRpc r) \<longleftrightarrow> target_utf8 r"
| "rpc_utf8 (RestoreRpc r) \<longleftrightarrow> restore_request_utf8 r"
| "rpc_utf8 _ \<longleftrightarrow> True"

section \<open>Properties\<close>

text \<open>
  Claim C5 (call_over_wire). A unary call over the network is the call of the handler: whatever way the connection cuts
  the request and the answer into frames, the server runs the handler of the requested method on the
  request that the client sent, and the client ends with exactly the reply or the error of the handler.
  Requests and replies are values of Rust within the default size limit of four megabytes.
\<close>

theorem call_over_wire:
  assumes "rpc_ok req" "length (rpc_encode req) \<le> DEFAULT_MAX_RECV_MESSAGE_SIZE"
    and "concat ds = snd (encode_item rpc_encode None [] req)"
    and "reply_decode req = Some decode"
    and "run D (dispatch deps req) s = (r, s')" "answer_ok r"
  shows "run D (serve_request deps utf8_error (rpc_path req) (map BodyData ds)) s = (r, s')
    \<and> (\<exists>h fs. unary_response reply_encode r = (Inr h, Some fs)
        \<and> (\<forall>events. delivered fs events \<longrightarrow> client_unary utf8_error decode h events = r))"
proof -
  have "sendable (rpc_encode req)"
    using assms(2) by (simp add: sendable_def DEFAULT_MAX_RECV_MESSAGE_SIZE_def)
  then have "concat ds = framed (rpc_encode req)" using assms(3) by (simp add: encode_item_framed)
  from route_framed [OF assms(1,2) this] show ?thesis
    using answer_reaches_client [OF assms(5,4,6)] assms(5) by (simp add: serve_request_def)
qed

text \<open>
  Claim C6 (download_over_wire). A client that reads a download over the network to its end holds the description of the
  backup and pieces of the file in order. When the stream of the server ended without an error, the
  client sees no error and the pieces are the whole file; otherwise it sees an internal error after
  them. A truncated file never looks complete.
\<close>

theorem download_over_wire:
  assumes "stream_run header content ls start_stream = Some t"
    and "rx_open t" "stage t = Ended" "buffer t = []"
    and "polled_items source (received t)"
    and "info_ok header" "length (pi_id header) + length (pi_name header) \<le> CHUNK_SIZE"
    and "\<forall>e. Inl e \<in> set (received t) \<longrightarrow> utf8_valid (st_message e)"
  shows "\<exists>fs cs rest e. body_frames chunk_encode_raw source = Some fs
    \<and> (\<forall>events. delivered fs events \<longrightarrow>
         collect (length cs + 2) utf8_error (prost_decode chunk_merge_field chunk_default)
           (new_streaming DirResponse None) events = Some (header_chunk header # map data_chunk cs, e))
    \<and> concat cs @ rest = content
    \<and> (case e of None \<Rightarrow> rest = [] | Some st \<Rightarrow> st_code st = Code_Internal \<and> Inl st \<in> set (received t))"
proof -
  have "carried header content (received t) [] \<or> broken header content (received t)"
    using stream_run_inv [OF assms(1)] assms(2-4) by (simp add: stream_inv_def)
  then obtain cs rest fin st where log: "received t = transfer header cs @ fin" "fin = [] \<and> rest = [] \<or> fin = [Inl st] \<and> st_code st = Code_Internal"
    and cs: "list_all chunk_ok cs" "concat cs @ rest = content"
    unfolding carried_def broken_def by fastforce
  have fin: "fin = [] \<or> fin = [Inl st]" using log(2) by blast
  note source = messages_of_transfer [OF assms(5) [unfolded log(1)] fin]
  have codec: "length (chunk_encode_raw m) \<le> DEFAULT_MAX_RECV_MESSAGE_SIZE"
    "prost_decode chunk_merge_field chunk_default (chunk_encode_raw m) = Inr m"
    if "m \<in> set (messages_of source)" for m
    using chunk_encode_small [OF that [unfolded source(1)] assms(6) cs(1) assms(7)] by simp_all
  have "utf8_valid (st_message (final_status source))"
    using source(2) assms(8) log fin by (auto simp: status_ok_def)
  from stream_over_wire [OF codec this, of utf8_error] show ?thesis
    using log cs(2) source
    by (intro exI [of _ "the (body_frames chunk_encode_raw source)"] exI [of _ cs] exI [of _ rest]
        exI [of _ "if fin = [] then None else Some st"])
      (auto simp: delivered_body_iff status_ok_def)
qed

text \<open>
  Claim C25 (served_requests_are_utf8). Whatever bytes a client sends, a request that reaches a handler is the one of its
  path and its strings are well-formed UTF-8, also after fields that appear several times: the unsafe
  writes of the decoder into a string never leave other bytes in it.
\<close>

theorem served_requests_are_utf8:
  assumes "route utf8_error p events = Inr req"
  shows "p = rpc_path req \<and> rpc_utf8 req"
proof -
  note decoded = ref_decode_utf8 list_request_decode_utf8 restore_request_decode_utf8
  show ?thesis
    using assms
    by (auto simp: route_def and_then_Inr_iff split: if_splits dest!: map_request_unary_decodes dest: decoded)
qed

section \<open>The properties at concrete calls\<close>

lemma demo_request:
  "rpc_ok (GetBackupRpc demo_ref)"
  "length (rpc_encode (GetBackupRpc demo_ref)) \<le> DEFAULT_MAX_RECV_MESSAGE_SIZE"
  using length_bytes_encode_le [of 1 "''mid''"]
  by (simp_all add: demo_ref_def ref_ok_def string_ok_def utf8_valid_ascii is_ascii_def byte_def fits_def
      ref_encode_raw_def optional_def string_encode_bytes DEFAULT_MAX_RECV_MESSAGE_SIZE_def)

lemma demo_get:
  "run (harness_with stored_decode ''/tmp/t'' None) (dispatch deps (GetBackupRpc demo_ref)) demo_state
     = (Inr (InfoReply (proto_backup_info (fake_info ''mid'' 3 PgCustom Regular))), demo_state)"
proof -
  let ?D = "harness_with stored_decode ''/tmp/t'' None" and ?b = "fake_info ''mid'' 3 PgCustom Regular"
  have "run ?D (resolve (Id ''mid'')) demo_state = (Inr ?b, demo_state)"
    by (simp add: call_info_def on_machine_def harness_with_def fake_get_def fake_infos_def demo_state_def
        fake_info_def less_eq_reverse_def less_eq_datetime_def dt_key_def)
  moreover have "to_backup_target (Some demo_ref) = Inr (Id ''mid'')"
    by (simp add: to_backup_target_def demo_ref_def Let_def)
  ultimately show ?thesis by (simp add: grpc_get_backup_def run_bind respond_def del: resolve.simps)
qed

lemma demo_info_ok:
  "info_ok (proto_backup_info (fake_info ''mid'' 3 PgCustom Regular))"
  "length (info_encode_raw (proto_backup_info (fake_info ''mid'' 3 PgCustom Regular))) \<le> DEFAULT_MAX_RECV_MESSAGE_SIZE"
  using length_info_le [of "proto_backup_info (fake_info ''mid'' 3 PgCustom Regular)"]
  by (simp_all add: fake_info_def proto_backup_info_def Let_def info_ok_def string_ok_def utf8_valid_ascii
      is_ascii_def byte_def fits_def DEFAULT_MAX_RECV_MESSAGE_SIZE_def)

text \<open>A backup fetched from the fakes, the request sent byte by byte.\<close>

theorem call_over_wire_witness:
  "\<exists>h fs. run (harness_with stored_decode ''/tmp/t'' None)
       (serve_request (harness_with stored_decode ''/tmp/t'' None) id ''/backup.Backup/GetBackup''
         (map BodyData (map (\<lambda>c. [c]) (framed (ref_encode_raw demo_ref))))) demo_state
     = (Inr (InfoReply (proto_backup_info (fake_info ''mid'' 3 PgCustom Regular))), demo_state)
   \<and> unary_response reply_encode (Inr (InfoReply (proto_backup_info (fake_info ''mid'' 3 PgCustom Regular)))) = (Inr h, Some fs)
   \<and> (\<forall>events. delivered fs events \<longrightarrow>
        client_unary id (the (reply_decode (GetBackupRpc demo_ref))) h events
          = Inr (InfoReply (proto_backup_info (fake_info ''mid'' 3 PgCustom Regular))))"
proof -
  let ?ds = "map (\<lambda>c. [c]) (framed (ref_encode_raw demo_ref))"
  have "concat ?ds = snd (encode_item rpc_encode None [] (GetBackupRpc demo_ref))"
    using demo_request(2)
    by (simp add: encode_item_framed sendable_def DEFAULT_MAX_RECV_MESSAGE_SIZE_def concat_map_singleton)
  moreover have "answer_ok (Inr (InfoReply (proto_backup_info (fake_info ''mid'' 3 PgCustom Regular))))"
    using demo_info_ok by simp
  moreover have "reply_decode (GetBackupRpc demo_ref) = Some (the (reply_decode (GetBackupRpc demo_ref)))" by simp
  ultimately show ?thesis
    using call_over_wire [OF demo_request, of ?ds, OF _ _ demo_get, where utf8_error = id] by auto
qed

lemma demo_polled: "polled_items (NotReady # map answer_of log) log"
proof -
  have "filter (\<lambda>a. a \<noteq> NotReady) (map answer_of log) = map answer_of log"
  proof (induction log)
    case (Cons x log)
    then show ?case by (cases x) simp_all
  qed simp
  then show ?thesis by (simp add: polled_items_def)
qed

theorem download_over_wire_witness:
  "\<exists>fs cs. body_frames chunk_encode_raw (NotReady # map answer_of (received demo_end)) = Some fs
    \<and> (\<forall>events. delivered fs events \<longrightarrow>
         collect (length cs + 2) id (prost_decode chunk_merge_field chunk_default)
           (new_streaming DirResponse None) events = Some (header_chunk demo_header # map data_chunk cs, None))
    \<and> concat cs = ''abc''"
proof -
  have ok: "info_ok demo_header" "length (pi_id demo_header) + length (pi_name demo_header) \<le> CHUNK_SIZE"
    by (simp_all add: demo_header_def demo_backup_def proto_backup_info_def Let_def info_ok_def string_ok_def fits_def
        CHUNK_SIZE_def utf8_valid_ascii is_ascii_def byte_def)
  have no_error: "\<forall>e. Inl e \<notin> set (received demo_end)" and ended: "rx_open demo_end" "stage demo_end = Ended" "buffer demo_end = []"
    by (simp_all add: demo_end_def header_item_def data_item_def)
  then have "\<forall>e. Inl e \<in> set (received demo_end) \<longrightarrow> utf8_valid (st_message e)" by blast
  then obtain fs cs rest e where r:
    "body_frames chunk_encode_raw (NotReady # map answer_of (received demo_end)) = Some fs"
    "\<forall>events. delivered fs events \<longrightarrow>
       collect (length cs + 2) id (prost_decode chunk_merge_field chunk_default)
         (new_streaming DirResponse None) events = Some (header_chunk demo_header # map data_chunk cs, e)"
    "concat cs @ rest = ''abc''"
    "case e of None \<Rightarrow> rest = [] | Some st \<Rightarrow> st_code st = Code_Internal \<and> Inl st \<in> set (received demo_end)"
    using download_over_wire [OF demo_stream ended demo_polled ok, of id] by blast
  moreover have "e = None" using r(4) no_error by (cases e) auto
  ultimately show ?thesis by auto
qed

theorem served_requests_are_utf8_witness:
  "route id ''/backup.Backup/GetBackup'' [BodyData (framed (ref_encode_raw \<lparr>ref_target = Some (ProtoId ''f1'')\<rparr>))]
     = Inr (GetBackupRpc \<lparr>ref_target = Some (ProtoId ''f1'')\<rparr>)
   \<and> rpc_utf8 (GetBackupRpc \<lparr>ref_target = Some (ProtoId ''f1'')\<rparr>)"
proof -
  let ?req = "GetBackupRpc \<lparr>ref_target = Some (ProtoId ''f1'')\<rparr>"
  have "length (rpc_encode ?req) \<le> DEFAULT_MAX_RECV_MESSAGE_SIZE"
    using length_bytes_encode_le [of 1 "''f1''"]
    by (simp add: ref_encode_raw_def optional_def string_encode_bytes DEFAULT_MAX_RECV_MESSAGE_SIZE_def)
  moreover have "rpc_ok ?req" by (simp add: ref_ok_def string_ok_demo)
  ultimately have "route id ''/backup.Backup/GetBackup'' (map BodyData [framed (rpc_encode ?req)]) = Inr ?req"
    using route_framed [of ?req "[framed (rpc_encode ?req)]" id] by simp
  then have r: "route id ''/backup.Backup/GetBackup'' [BodyData (framed (ref_encode_raw \<lparr>ref_target = Some (ProtoId ''f1'')\<rparr>))] = Inr ?req"
    by simp
  with served_requests_are_utf8 [OF r] show ?thesis by blast
qed

end
