(* ===== verification/Core_Tests.thy ===== *)
theory Core_Tests
  imports Pg
begin

text \<open>
  The unit tests of \<^verbatim>\<open>backup-core\<close> and \<^verbatim>\<open>backup-pg\<close>, replayed on the model: each test of a \<^verbatim>\<open>mod tests\<close>
  becomes a closed statement with the inputs and assertions of the source, and is evaluated. A
  test that expects an error matches on the constructor as the source does. These statements tie the
  definitions to the behaviour that the authors pinned down; the general properties are in the
  theories of the components.
\<close>

section \<open>Assertions\<close>

text \<open>\<^verbatim>\<open>str::contains\<close>, \<^verbatim>\<open>str::starts_with\<close> and \<^verbatim>\<open>Result::is_err\<close>.\<close>

fun contains :: "string \<Rightarrow> string \<Rightarrow> bool" where
  "contains [] t \<longleftrightarrow> t = []"
| "contains (c # s) t \<longleftrightarrow> take (length t) (c # s) = t \<or> contains s t"

definition starts_with :: "string \<Rightarrow> string \<Rightarrow> bool" where
  "starts_with s t \<longleftrightarrow> take (length t) s = t"

abbreviation is_err :: "'e + 'a \<Rightarrow> bool" where
  "is_err r \<equiv> \<not> is_ok r"

section \<open>backup.rs\<close>

definition test_backup :: "string \<Rightarrow> nat \<Rightarrow> backup_format \<Rightarrow> backup_kind \<Rightarrow> backup_info" where
  "test_backup i d f k =
     \<lparr>b_id = i, b_name = i @ ''.pgdump'', b_created_at = the (from_ymd_hms 2026 1 d 0 0 0),
      b_size_bytes = None, b_md5 = None, b_format = f, b_kind = k\<rparr>"

definition test_kind_parse_defaults_to_regular :: bool where
  "test_kind_parse_defaults_to_regular \<longleftrightarrow>
     kind_parse None = Inr Regular
     \<and> list_all (\<lambda>kind. kind_parse (Some (kind_as_str kind)) = Inr kind) [Regular, PreRestore]"

definition test_kind_parse_rejects_unknown_value :: bool where
  "test_kind_parse_rejects_unknown_value \<longleftrightarrow>
     (case kind_parse (Some ''manual'') of Inl (FailedPrecondition _) \<Rightarrow> True | _ \<Rightarrow> False)"

definition test_upload_request_derives_name_and_format :: bool where
  "test_upload_request_derives_name_and_format \<longleftrightarrow>
     (let now = the (from_ymd_hms 2026 1 2 3 4 5);
          req = pg_dump ''/tmp/x'' ''tracker'' PreRestore now
      in ur_name req = ''pre_restore_backup_tracker_2026-01-02_03:04:05.pgdump''
         \<and> ur_format req = PgCustom \<and> ur_kind req = PreRestore \<and> ur_db_name req = ''tracker'')"

definition test_retention_keeps_newest_regular_backups :: bool where
  "test_retention_keeps_newest_regular_backups \<longleftrightarrow>
     (let backups = [test_backup ''d1'' 1 PgCustom Regular, test_backup ''d3'' 3 PgCustom Regular,
                     test_backup ''d2'' 2 PgCustom Regular, test_backup ''d4'' 4 PgCustom Regular]
      in map b_id (retention_candidates backups 2) = [''d2'', ''d1''])"

definition test_retention_skips_legacy_and_pre_restore :: bool where
  "test_retention_skips_legacy_and_pre_restore \<longleftrightarrow>
     (let backups = [test_backup ''legacy'' 1 LegacyJsonZstd Regular, test_backup ''safety'' 2 PgCustom PreRestore,
                     test_backup ''new'' 3 PgCustom Regular]
      in retention_candidates backups 0 = [backups ! 2])"

definition test_retention_with_fewer_backups_than_keep :: bool where
  "test_retention_with_fewer_backups_than_keep \<longleftrightarrow>
     retention_candidates [test_backup ''d1'' 1 PgCustom Regular] 5 = []"

section \<open>format.rs\<close>

definition test_backup_file_name_uses_clock_time_and_pgdump_extension :: bool where
  "test_backup_file_name_uses_clock_time_and_pgdump_extension \<longleftrightarrow>
     backup_file_name ''tracker'' Regular (the (from_ymd_hms 2026 11 6 12 30 5))
       = ''backup_tracker_2026-11-06_12:30:05.pgdump''"

definition test_pre_restore_file_name_is_prefixed :: bool where
  "test_pre_restore_file_name_is_prefixed \<longleftrightarrow>
     backup_file_name ''tracker'' PreRestore (the (from_ymd_hms 2026 11 6 12 30 5))
       = ''pre_restore_backup_tracker_2026-11-06_12:30:05.pgdump''"

definition test_format_roundtrips_through_str :: bool where
  "test_format_roundtrips_through_str \<longleftrightarrow>
     list_all (\<lambda>format. format_parse (format_as_str format) = Some format) [PgCustom, LegacyJsonZstd]"

definition test_detect_format_prefers_property_over_extension :: bool where
  "test_detect_format_prefers_property_over_extension \<longleftrightarrow>
     detect_format ''backup_x.dump'' (Some ''pg_custom'') = Inr PgCustom"

definition test_detect_format_by_extension :: bool where
  "test_detect_format_by_extension \<longleftrightarrow>
     detect_format ''backup_tracker_2024-01-01_00:00:00.dump'' None = Inr LegacyJsonZstd
     \<and> detect_format ''backup_tracker_2026-01-01_00:00:00.pgdump'' None = Inr PgCustom"

definition test_detect_format_rejects_unknown :: bool where
  "test_detect_format_rejects_unknown \<longleftrightarrow>
     is_err (detect_format ''notes.txt'' None) \<and> is_err (detect_format ''backup.pgdump'' (Some ''tar''))"

section \<open>target.rs\<close>

definition test_debug_does_not_leak_password :: bool where
  "test_debug_does_not_leak_password \<longleftrightarrow>
     (let printed = debug_db_target \<lparr>host = ''db'', port = 5432, user = ''u'', password = Secret ''hunter2'',
                                     db_name = ''tracker''\<rparr>
      in \<not> contains printed ''hunter2'' \<and> contains printed ''Secret(***)'')"

section \<open>compression.rs\<close>

text \<open>
  A directory with the file \<^verbatim>\<open>in.zst\<close>. The zstd library is an argument: its encoder, and the decoder that
  writes to the output file.
\<close>

definition zst_dir :: "bytes \<Rightarrow> unit world" where
  "zst_dir content = \<lparr>files = [''/tmp/in.zst'' \<mapsto> content], faults = [], rand_names = [], outside = ()\<rparr>"

definition test_decompress_file_restores_encoded_input ::
  "(bytes \<Rightarrow> path \<Rightarrow> (unit world, io_error + unit) io) \<Rightarrow> (bytes \<Rightarrow> bytes) \<Rightarrow> bool" where
  "test_decompress_file_restores_encoded_input copy_decode encode_all \<longleftrightarrow>
     (let input = concat (replicate 100 (''{'' @ [CHR 0x22] @ ''materials'' @ [CHR 0x22] @ '': []}''));
          (r, w) = decompress_file copy_decode ''/tmp/in.zst'' ''/tmp/out.json'' (zst_dir (encode_all input))
      in is_ok r \<and> files w ''/tmp/out.json'' = Some input)"

definition test_decompress_file_rejects_garbage ::
  "(bytes \<Rightarrow> path \<Rightarrow> (unit world, io_error + unit) io) \<Rightarrow> bool" where
  "test_decompress_file_rejects_garbage copy_decode \<longleftrightarrow>
     is_err (fst (decompress_file copy_decode ''/tmp/in.zst'' ''/tmp/out.json'' (zst_dir ''not zstd'')))"

section \<open>level.rs\<close>

definition test_accepts_bounds :: bool where
  "test_accepts_bounds \<longleftrightarrow> is_ok (zstd_new 1) \<and> is_ok (zstd_new 22)"

definition test_rejects_out_of_range :: bool where
  "test_rejects_out_of_range \<longleftrightarrow> list_all (\<lambda>n. is_err (zstd_new n)) [- 1, 0, 23, 300]"

section \<open>args.rs\<close>

definition test_target :: db_target where
  "test_target =
     \<lparr>host = ''tracker-db'', port = 5433, user = ''tracker'', password = Secret ''hunter2'', db_name = ''tracker''\<rparr>"

definition test_dump_command :: bool where
  "test_dump_command \<longleftrightarrow>
     (case zstd_new 5 of
        Inl _ \<Rightarrow> False
      | Inr lvl \<Rightarrow>
          (let cmd = dump_command test_target lvl ''/data/x.pgdump''
           in program cmd = ''pg_dump''
              \<and> args cmd =
                  [''--format=custom'', ''--compress=zstd:5'', ''--no-owner'', ''--no-privileges'', ''--host'',
                   ''tracker-db'', ''--port'', ''5433'', ''--username'', ''tracker'', ''--dbname'', ''tracker'',
                   ''--no-password'', ''--file'', ''/data/x.pgdump'']))"

definition test_restore_command_is_atomic_and_clean :: bool where
  "test_restore_command_is_atomic_and_clean \<longleftrightarrow>
     (let cmd = restore_command test_target ''/data/x.pgdump''
      in program cmd = ''pg_restore''
         \<and> list_all (\<lambda>flag. list_ex (\<lambda>a. a = flag) (args cmd))
              [''--clean'', ''--if-exists'', ''--single-transaction'', ''--exit-on-error'']
         \<and> args cmd \<noteq> [] \<and> last (args cmd) = ''/data/x.pgdump'')"

definition test_query_command_stops_on_error :: bool where
  "test_query_command_stops_on_error \<longleftrightarrow>
     (let cmd = query_command test_target ''SELECT 1''
      in program cmd = ''psql'' \<and> list_ex (\<lambda>a. a = ''--set=ON_ERROR_STOP=1'') (args cmd)
         \<and> drop (length (args cmd) - 2) (args cmd) = [''--command'', ''SELECT 1''])"

definition test_password_goes_to_env_not_args :: bool where
  "test_password_goes_to_env_not_args \<longleftrightarrow>
     list_all (\<lambda>cmd. \<not> list_ex (\<lambda>a. contains a ''hunter2'') (args cmd) \<and> (''PGPASSWORD'', ''hunter2'') \<in> set (env cmd))
       [dump_command test_target zstd_default ''/x'', restore_command test_target ''/x'',
        query_command test_target ''SELECT 1'']"

section \<open>tools.rs\<close>

definition TIMEOUT :: duration where "TIMEOUT = from_secs 60"

text \<open>The runner of the tests: it records every command; a hanging one never answers.\<close>

record fake_runner =
  fr_output :: command_output
  fr_hangs :: bool

definition new_runner :: "bool \<Rightarrow> string \<Rightarrow> string \<Rightarrow> fake_runner" where
  "new_runner ok out err =
     \<lparr>fr_output = \<lparr>success = ok, status = (if ok then ''exit status: 0'' else ''exit status: 1''),
                   stdout = out, stderr = err\<rparr>,
      fr_hangs = False\<rparr>"

definition hanging :: fake_runner where
  "hanging = (new_runner True [] [])\<lparr>fr_hangs := True\<rparr>"

definition fake_run :: "fake_runner \<Rightarrow> pg_command list runner" where
  "fake_run self limit cmd calls = (if fr_hangs self then None else Some (Inr (fr_output self)), calls @ [cmd])"

definition test_tools :: "fake_runner \<Rightarrow> pg_command list pg_tools" where
  "test_tools r =
     \<lparr>target = \<lparr>host = ''db'', port = 5432, user = ''u'', password = Secret ''p'', db_name = ''tracker''\<rparr>,
      level = zstd_default, command_timeout = TIMEOUT, runner = fake_run r\<rparr>"

definition test_dump_runs_pg_dump :: bool where
  "test_dump_runs_pg_dump \<longleftrightarrow>
     (let (r, calls) = pg_dump_to (test_tools (new_runner True [] [])) ''/tmp/x'' []
      in is_ok r \<and> map program calls = [''pg_dump''])"

definition test_restore_runs_pg_restore :: bool where
  "test_restore_runs_pg_restore \<longleftrightarrow>
     (let (r, calls) = pg_restore_from (test_tools (new_runner True [] [])) ''/tmp/x'' []
      in is_ok r \<and> map program calls = [''pg_restore''])"

definition test_failed_process_returns_stderr :: bool where
  "test_failed_process_returns_stderr \<longleftrightarrow>
     (case pg_dump_to (test_tools (new_runner False [] (''pg_dump: error: connection refused'' @ [CHR 0x0A]))) ''/tmp/x'' [] of
        (Inl (Process prog _ err), _) \<Rightarrow> prog = ''pg_dump'' \<and> err = ''pg_dump: error: connection refused''
      | _ \<Rightarrow> False)"

definition test_ping_ok :: bool where
  "test_ping_ok \<longleftrightarrow> is_ok (fst (pg_ping (test_tools (new_runner True (''1'' @ [CHR 0x0A]) [])) []))"

definition test_ping_rejects_unexpected_output :: bool where
  "test_ping_rejects_unexpected_output \<longleftrightarrow>
     is_err (fst (pg_ping (test_tools (new_runner True (''2'' @ [CHR 0x0A]) [])) []))"

definition test_hung_dump_times_out :: bool where
  "test_hung_dump_times_out \<longleftrightarrow>
     (case pg_dump_to (test_tools hanging) ''/tmp/x'' [] of
        (Inl (Timeout operation limit), _) \<Rightarrow> operation = ''pg_dump'' \<and> limit = TIMEOUT
      | _ \<Rightarrow> False)"

definition test_hung_ping_uses_short_limit :: bool where
  "test_hung_ping_uses_short_limit \<longleftrightarrow>
     (case pg_ping (test_tools hanging) [] of (Inl (Timeout _ limit), _) \<Rightarrow> limit = PING_TIMEOUT | _ \<Rightarrow> False)"

text \<open>The Cyrillic letter of the test in UTF-8.\<close>

definition test_tail_keeps_end_on_char_boundary :: bool where
  "test_tail_keeps_end_on_char_boundary \<longleftrightarrow>
     (let letter = [CHR 0xD1, CHR 0x8B]
      in tail (''abcdef'' @ [CHR 0x0A]) 3 = ''def'' \<and> tail ''ab'' 10 = ''ab''
         \<and> tail (letter @ letter @ letter) 3 = letter)"

section \<open>Evaluation\<close>

lemma contains_iff: "contains s t \<longleftrightarrow> (\<exists>u v. s = u @ t @ v)"
proof (induction s)
  case (Cons c s)
  have "take (length t) (c # s) = t \<longleftrightarrow> (\<exists>v. c # s = t @ v)"
    by (metis append_eq_conv_conj append_take_drop_id)
  then show ?case unfolding contains.simps Cons.IH
    by (metis append_Cons append_Nil list.exhaust list.inject)
qed simp

lemma contains_infix: "contains (u @ t @ v) t"
  unfolding contains_iff by blast

lemmas chrono_eval = from_ymd_hms_def common_flag_def leap_year_def MIN_YEAR_def MAX_YEAR_def MDL_TO_OL_def
  nth_append nth_alt format_name_time_def write_year_def month_def day_def hour_def minute_def second_def
  mdl_def OL_TO_MDL_def write_two_def

lemma test_kind_parse_defaults_to_regular: test_kind_parse_defaults_to_regular
  by code_simp

lemma test_kind_parse_rejects_unknown_value: test_kind_parse_rejects_unknown_value
  by code_simp

lemma test_upload_request_derives_name_and_format: test_upload_request_derives_name_and_format
  by (simp add: test_upload_request_derives_name_and_format_def pg_dump_def backup_file_name_def chrono_eval fb_const)

lemma test_backup_eval:
  "d \<in> {1, 2, 3, 4} \<Longrightarrow> b_created_at (test_backup i d f k) = DateTime 2026 d 1 0 0"
  "prunable (test_backup i d f k) \<longleftrightarrow> k = Regular \<and> f = PgCustom"
  "b_id (test_backup i d f k) = i"
  by (auto simp: test_backup_def prunable_def chrono_eval)

lemmas retention_eval = retention_candidates_def test_backup_eval less_eq_reverse_def less_eq_datetime_def dt_key_def

lemma test_retention_keeps_newest_regular_backups: test_retention_keeps_newest_regular_backups
  by (simp add: test_retention_keeps_newest_regular_backups_def retention_eval)

lemma test_retention_skips_legacy_and_pre_restore: test_retention_skips_legacy_and_pre_restore
  by (simp add: test_retention_skips_legacy_and_pre_restore_def retention_eval)

lemma test_retention_with_fewer_backups_than_keep: test_retention_with_fewer_backups_than_keep
  by (simp add: test_retention_with_fewer_backups_than_keep_def retention_eval)

lemma test_backup_file_name_uses_clock_time_and_pgdump_extension:
  test_backup_file_name_uses_clock_time_and_pgdump_extension
  by (simp add: test_backup_file_name_uses_clock_time_and_pgdump_extension_def backup_file_name_def chrono_eval fb_const)

lemma test_pre_restore_file_name_is_prefixed: test_pre_restore_file_name_is_prefixed
  by (simp add: test_pre_restore_file_name_is_prefixed_def backup_file_name_def chrono_eval fb_const)

lemma test_format_roundtrips_through_str: test_format_roundtrips_through_str
  by code_simp

lemma test_detect_format_prefers_property_over_extension: test_detect_format_prefers_property_over_extension
  by code_simp

lemma test_detect_format_by_extension: test_detect_format_by_extension
  by code_simp

lemma test_detect_format_rejects_unknown: test_detect_format_rejects_unknown
  by code_simp

lemma digit_chars:
  "digit_char 0 = CHR ''0''" "digit_char (Suc 0) = CHR ''1''" "digit_char 2 = CHR ''2''" "digit_char 3 = CHR ''3''"
  "digit_char 4 = CHR ''4''" "digit_char 5 = CHR ''5''" "digit_char 6 = CHR ''6''" "digit_char 7 = CHR ''7''"
  "digit_char 8 = CHR ''8''" "digit_char 9 = CHR ''9''"
  by code_simp+

lemma show_ports: "show_nat 5432 = ''5432''" "show_nat 5433 = ''5433''"
  by (simp_all add: show_nat.simps digit_chars)

lemma test_debug_does_not_leak_password: test_debug_does_not_leak_password
proof -
  have "str_debug ''db'' = ''\"db\"''" "str_debug ''u'' = ''\"u\"''" "str_debug ''tracker'' = ''\"tracker\"''"
    by code_simp+
  then have printed: "debug_db_target \<lparr>host = ''db'', port = 5432, user = ''u'', password = Secret ''hunter2'', db_name = ''tracker''\<rparr>
    = ''DbTarget { host: \"db\", port: 5432, user: \"u\", password: Secret(***), name: \"tracker\" }''"
    by (simp add: debug_db_target_def show_ports debug_secret_def)
  show ?thesis unfolding test_debug_does_not_leak_password_def Let_def printed by code_simp
qed

lemma test_accepts_bounds: test_accepts_bounds
  by code_simp

lemma test_rejects_out_of_range: test_rejects_out_of_range
  by code_simp

lemma connection_args_test:
  "connection_args test_target =
     [''--host'', ''tracker-db'', ''--port'', ''5433'', ''--username'', ''tracker'', ''--dbname'', ''tracker'', ''--no-password'']"
  by (simp add: connection_args_def test_target_def show_ports)

lemmas args_eval = dump_command_def restore_command_def query_command_def pg_command_of_def connection_args_test
  connection_env_def

lemma test_dump_command: test_dump_command
proof -
  have "zstd_new 5 = Inr (ZstdLevel 5)" "display_level (ZstdLevel 5) = ''5''" by code_simp+
  then show ?thesis by (simp add: test_dump_command_def args_eval fb_const)
qed

lemma test_restore_command_is_atomic_and_clean: test_restore_command_is_atomic_and_clean
  by (simp add: test_restore_command_is_atomic_and_clean_def args_eval fb_const)

lemma test_query_command_stops_on_error: test_query_command_stops_on_error
  by (simp add: test_query_command_stops_on_error_def args_eval fb_const)

lemma test_password_goes_to_env_not_args: test_password_goes_to_env_not_args
proof -
  have "display_level zstd_default = ''3''" by code_simp
  then show ?thesis
    by (simp add: test_password_goes_to_env_not_args_def args_eval fb_const) (simp add: test_target_def)
qed

lemmas tools_eval = test_tools_def execute_def fake_run_def new_runner_def hanging_def map_io_def try_io_def
  return_io_def is_ok_def

lemma test_dump_runs_pg_dump: test_dump_runs_pg_dump
  by (simp add: test_dump_runs_pg_dump_def pg_dump_to_def dump_command_def pg_command_of_def fb_const tools_eval)

lemma test_restore_runs_pg_restore: test_restore_runs_pg_restore
  by (simp add: test_restore_runs_pg_restore_def pg_restore_from_def restore_command_def pg_command_of_def fb_const tools_eval)

lemma test_failed_process_returns_stderr: test_failed_process_returns_stderr
proof -
  have "trim_end (''pg_dump: error: connection refused'' @ [CHR 0x0A]) = ''pg_dump: error: connection refused''"
    by code_simp
  then have "tail (''pg_dump: error: connection refused'' @ [CHR 0x0A]) STDERR_LIMIT = ''pg_dump: error: connection refused''"
    by (simp add: tail_def STDERR_LIMIT_def next_boundary.simps [of _ 0] is_char_boundary_def)
  then show ?thesis
    by (simp add: test_failed_process_returns_stderr_def pg_dump_to_def dump_command_def pg_command_of_def fb_const tools_eval)
qed

lemma test_ping_ok: test_ping_ok
proof -
  have "trim (''1'' @ [CHR 0x0A]) = ''1''" by code_simp
  then show ?thesis by (simp add: test_ping_ok_def pg_ping_def tools_eval)
qed

lemma test_ping_rejects_unexpected_output: test_ping_rejects_unexpected_output
proof -
  have "trim (''2'' @ [CHR 0x0A]) = ''2''" by code_simp
  then show ?thesis by (simp add: test_ping_rejects_unexpected_output_def pg_ping_def tools_eval)
qed

lemma test_hung_dump_times_out: test_hung_dump_times_out
  by (simp add: test_hung_dump_times_out_def pg_dump_to_def dump_command_def pg_command_of_def fb_const tools_eval)

lemma test_hung_ping_uses_short_limit: test_hung_ping_uses_short_limit
  by (simp add: test_hung_ping_uses_short_limit_def pg_ping_def tools_eval)

lemma test_tail_keeps_end_on_char_boundary: test_tail_keeps_end_on_char_boundary
  by code_simp

text \<open>With a decoder that undoes the encoder and rejects what no encoder wrote.\<close>

lemmas decompress_eval = decompress_file_def zst_dir_def try_io_def map_io_def std_open_def std_create_def std_write_def
  std_flush_def

lemma test_decompress_file_restores_encoded_input:
  assumes "\<And>c dst. copy_decode (encode_all c) dst = std_write dst c"
  shows "test_decompress_file_restores_encoded_input copy_decode encode_all"
  unfolding test_decompress_file_restores_encoded_input_def Let_def
  by (simp add: decompress_eval assms)

lemma test_decompress_file_rejects_garbage:
  assumes "\<And>dst w. is_err (fst (copy_decode ''not zstd'' dst w))"
  shows "test_decompress_file_rejects_garbage copy_decode"
proof -
  obtain e w' where "copy_decode ''not zstd'' ''/tmp/out.json'' (snd (std_create ''/tmp/out.json'' (zst_dir ''not zstd''))) = (Inl e, w')"
    using assms [of "''/tmp/out.json''" "snd (std_create ''/tmp/out.json'' (zst_dir ''not zstd''))"]
    by (metis is_ok_simps(2) obj_sumE prod.collapse)
  then show ?thesis
    unfolding test_decompress_file_rejects_garbage_def by (simp add: decompress_eval)
qed

end
