(* ===== verification/Server_Tests.thy ===== *)
theory Server_Tests
  imports Core_Tests Settings Wire Fakes
begin

text \<open>
  The unit tests of \<^verbatim>\<open>convert.rs\<close>, \<^verbatim>\<open>status.rs\<close> and \<^verbatim>\<open>settings.rs\<close> of \<^verbatim>\<open>backup-server\<close>, replayed on the model.
\<close>

section \<open>convert.rs\<close>

definition test_backup_info :: bool where
  "test_backup_info \<longleftrightarrow>
     (let converted = proto_backup_info (fake_info ''id1'' 2 LegacyJsonZstd PreRestore)
      in pi_id converted = ''id1''
         \<and> pi_format converted = proto_format_number FORMAT_LEGACY_JSON_ZSTD
         \<and> pi_kind converted = proto_kind_number KIND_PRE_RESTORE
         \<and> map_option seconds (pi_created_at converted) = Some 1767312000)"

definition test_backup_target :: bool where
  "test_backup_target \<longleftrightarrow>
     (let to = (\<lambda>t. to_backup_target (Some \<lparr>ref_target = t\<rparr>));
          code_of = (\<lambda>r. case r of Inl st \<Rightarrow> Some (st_code st) | Inr _ \<Rightarrow> None)
      in to (Some (ProtoId ''x'')) = Inr (Id ''x'')
         \<and> to (Some (ProtoLatest True)) = Inr Latest
         \<and> list_all (\<lambda>bad. code_of (to bad) = Some Code_InvalidArgument)
             [None, Some (ProtoId []), Some (ProtoLatest False)]
         \<and> code_of (to_backup_target None) = Some Code_InvalidArgument)"

section \<open>status.rs\<close>

definition test_codes :: bool where
  "test_codes \<longleftrightarrow>
     list_all (\<lambda>(err, c). st_code (snd (to_status ''ctx'' err)) = c)
       [(NotFound ''x'', Code_NotFound), (FailedPrecondition ''x'', Code_FailedPrecondition),
        (Busy ''x'', Code_Aborted), (InvalidArgument ''x'', Code_InvalidArgument),
        (Unavailable ''x'', Code_Unavailable), (Storage ''x'', Code_Internal), (Config ''x'', Code_Internal),
        (Io ''x'' ''y'', Code_Internal), (Timeout ''x'' (from_secs 1), Code_Unavailable),
        (Process ''pg_dump'' ''1'' ''boom'', Code_Internal)]"

definition test_message_has_context :: bool where
  "test_message_has_context \<longleftrightarrow>
     st_message (snd (to_status ''Dump failed'' (NotFound ''db''))) = ''Dump failed: not found: db''"

definition test_internal_details_are_not_sent_to_client :: bool where
  "test_internal_details_are_not_sent_to_client \<longleftrightarrow>
     list_all (\<lambda>err.
         let status = snd (to_status ''Backup failed'' err)
         in list_all (\<lambda>secret. \<not> contains (st_message status) secret) [''db-host'', ''/app/data'', ''sa@project'', ''10.0.0.1'']
            \<and> starts_with (st_message status) ''Backup failed: '')
       [Process ''pg_dump'' ''1'' (''connection to server at '' @ [CHR 0x22] @ ''db-host'' @ [CHR 0x22] @ '' failed''),
        Io ''Could not create /app/data/backup_x'' ''disk full'',
        Storage ''HTTP 401: token for sa@project expired'',
        Unavailable ''HTTP 503: backend at 10.0.0.1'']"

section \<open>settings.rs\<close>

definition REQUIRED_PAIRS :: "(string \<times> string) list" where
  "REQUIRED_PAIRS =
     [(''DB_HOST'', ''tracker-db''), (''DB_USERNAME'', ''tracker''), (''DB_PASSWORD'', ''secret''),
      (''DB_NAME'', ''tracker''), (''DRIVE_CREDS'', ''{}''), (''DRIVE_FOLDER_ID'', ''folder'')]"

text \<open>The pairs are collected into a hash map, so the last value of a key wins.\<close>

definition parse_env :: "(string \<times> string) list \<Rightarrow> string \<Rightarrow> settings result" where
  "parse_env extra without =
     from_source (map_of (rev (filter (\<lambda>(k, _). k \<noteq> without) (REQUIRED_PAIRS @ extra))))"

definition test_defaults :: bool where
  "test_defaults \<longleftrightarrow>
     (case parse_env [] [] of
        Inl _ \<Rightarrow> False
      | Inr s \<Rightarrow>
          port (cfg_db s) = 5432 \<and> db_name (cfg_db s) = ''tracker'' \<and> expose (password (cfg_db s)) = ''secret''
          \<and> cfg_comp_level s = zstd_default \<and> cfg_data_folder s = ''data'' \<and> cfg_retention s = None
          \<and> (case cfg_listen_addr s of V4 [a, b, c, d] p \<Rightarrow> show_v4 a b c d p = ''0.0.0.0:50051'' | _ \<Rightarrow> False)
          \<and> cfg_pg_timeout s = from_secs 3600)"

definition socket_port :: "socket_addr \<Rightarrow> nat" where
  "socket_port a = (case a of V4 _ p \<Rightarrow> p | V6 _ _ p \<Rightarrow> p)"

definition test_overrides :: bool where
  "test_overrides \<longleftrightarrow>
     (case parse_env [(''DB_PORT'', ''5433''), (''COMPRESSION_LEVEL'', ''9''), (''DRIVE_RETENTION_COUNT'', ''30''),
                      (''LISTEN_ADDR'', ''127.0.0.1:6000''), (''PG_TIMEOUT_SECS'', ''600'')] [] of
        Inl _ \<Rightarrow> False
      | Inr s \<Rightarrow>
          port (cfg_db s) = 5433 \<and> Inr (cfg_comp_level s) = zstd_new 9 \<and> cfg_retention s = Some 30
          \<and> socket_port (cfg_listen_addr s) = 6000 \<and> cfg_pg_timeout s = from_secs 600)"

definition test_every_required_key_is_checked :: bool where
  "test_every_required_key_is_checked \<longleftrightarrow>
     list_all (\<lambda>(key, _). case parse_env [] key of Inl err \<Rightarrow> contains (display_error err) key | Inr _ \<Rightarrow> False)
       REQUIRED_PAIRS"

definition test_invalid_values :: bool where
  "test_invalid_values \<longleftrightarrow>
     list_all (\<lambda>(key, v). is_err (parse_env [(key, v)] []))
       [(''DB_PORT'', ''-1''), (''DB_PORT'', ''70000''), (''COMPRESSION_LEVEL'', ''3.14''), (''COMPRESSION_LEVEL'', ''42''),
        (''DRIVE_RETENTION_COUNT'', ''0''), (''DRIVE_RETENTION_COUNT'', ''x''), (''LISTEN_ADDR'', ''nowhere''),
        (''PG_TIMEOUT_SECS'', ''0''), (''PG_TIMEOUT_SECS'', ''1h'')]"

section \<open>Evaluation\<close>

lemma test_backup_info: test_backup_info
  by (simp add: test_backup_info_def proto_backup_info_def fake_info_def timestamp_def num_days_from_ce_def UNIX_EPOCH_DAY_def)

lemma test_backup_target: test_backup_target
  by (simp add: test_backup_target_def to_backup_target_def)

lemma test_codes: test_codes
  by (simp add: test_codes_def to_status_def Let_def)

lemma test_message_has_context: test_message_has_context
  by (simp add: test_message_has_context_def to_status_def Let_def)

lemma test_internal_details_are_not_sent_to_client: test_internal_details_are_not_sent_to_client
  by (simp add: test_internal_details_are_not_sent_to_client_def to_status_def starts_with_def Let_def)

lemmas parse_env_ok = from_source_ok read_db_ok read_comp_level_ok read_retention_ok read_pg_timeout_ok

lemmas parse_env_eval = parse_env_def REQUIRED_PAIRS_def number_between_def decimal_def digit_val_def

lemmas parse_env_values =
  from_source_Inr_iff read_db_Inr_iff read_comp_level_def read_retention_Inr_iff read_pg_timeout_Inr_iff settings_iffs

lemma overridden_listen_addr: "parse_socket_addr ''127.0.0.1:6000'' = Inr (V4 [127, 0, 0, 1] 6000)"
proof -
  have "show_v4 127 0 0 1 6000 = ''127.0.0.1:6000''" by (simp add: show_v4_def show_nat.simps digit_chars)
  then show ?thesis using parse_show_v4 [of 127 0 0 1 6000] by simp
qed

lemma test_defaults: test_defaults
proof -
  have "is_ok (parse_env [] [])"
    by (simp add: parse_env_ok parse_env_eval default_listen_addr fb_const)
  then obtain s where s: "parse_env [] [] = Inr s" by (auto simp: is_ok_iff)
  then have "port (cfg_db s) = 5432 \<and> db_name (cfg_db s) = ''tracker'' \<and> expose (password (cfg_db s)) = ''secret''
      \<and> cfg_comp_level s = zstd_default \<and> cfg_data_folder s = ''data'' \<and> cfg_retention s = None
      \<and> cfg_listen_addr s = V4 [0, 0, 0, 0] 50051 \<and> cfg_pg_timeout s = from_secs 3600"
    by (auto simp: parse_env_def REQUIRED_PAIRS_def parse_env_values default_listen_addr fb_const)
  with s show ?thesis
    by (simp add: test_defaults_def show_v4_def show_nat.simps digit_chars)
qed

lemma test_overrides: test_overrides
proof -
  let ?extra = "[(''DB_PORT'', ''5433''), (''COMPRESSION_LEVEL'', ''9''), (''DRIVE_RETENTION_COUNT'', ''30''),
    (''LISTEN_ADDR'', ''127.0.0.1:6000''), (''PG_TIMEOUT_SECS'', ''600'')]"
  have "is_ok (parse_env ?extra [])"
    by (simp add: parse_env_ok parse_env_eval overridden_listen_addr)
  then obtain s where s: "parse_env ?extra [] = Inr s" by (auto simp: is_ok_iff)
  have "parse_i64 ''9'' = Inr 9"
    using parse_i64_decimal [of "''9''" 9] by (simp add: decimal_def digit_val_def)
  with s have "port (cfg_db s) = 5433 \<and> Inr (cfg_comp_level s) = zstd_new 9 \<and> cfg_retention s = Some 30
      \<and> cfg_listen_addr s = V4 [127, 0, 0, 1] 6000 \<and> cfg_pg_timeout s = from_secs 600"
    by (simp add: parse_env_eval parse_env_values parse_u16_Inr_iff overridden_listen_addr)
  with s show ?thesis
    by (simp add: test_overrides_def socket_port_def)
qed

lemma unlisted_address: "\<not> is_ok (parse_socket_addr ''nowhere'')"
  by (simp add: parse_socket_addr_def read_socket_addr_v4_def read_socket_addr_v6_def read_then_def read_ipv4_addr_def
      read_octet_def read_separator_def read_number_def radix_digit_def read_given_char_def)

lemma invalid_ports: "list_all (\<lambda>v. \<not> is_ok (parse_env [(''DB_PORT'', v)] [])) [''-1'', ''70000'']"
  by (simp add: parse_env_ok parse_env_eval)

lemma invalid_levels: "list_all (\<lambda>v. \<not> is_ok (parse_env [(''COMPRESSION_LEVEL'', v)] [])) [''3.14'', ''42'']"
  by (simp add: parse_env_ok parse_env_eval)

lemma invalid_retention: "list_all (\<lambda>v. \<not> is_ok (parse_env [(''DRIVE_RETENTION_COUNT'', v)] [])) [''0'', ''x'']"
  by (simp add: parse_env_ok parse_env_eval)

lemma invalid_timeouts: "list_all (\<lambda>v. \<not> is_ok (parse_env [(''PG_TIMEOUT_SECS'', v)] [])) [''0'', ''1h'']"
  by (simp add: parse_env_ok parse_env_eval)

lemma invalid_addresses: "\<not> is_ok (parse_env [(''LISTEN_ADDR'', ''nowhere'')] [])"
  by (simp add: parse_env_ok parse_env_eval unlisted_address)

lemma test_invalid_values: test_invalid_values
  using invalid_ports invalid_levels invalid_retention invalid_timeouts invalid_addresses
  by (simp add: test_invalid_values_def)

lemma first_missing_key:
  assumes "list_all (\<lambda>k. get k = None)
    [''DB_PORT'', ''COMPRESSION_LEVEL'', ''DRIVE_RETENTION_COUNT'', ''PG_TIMEOUT_SECS'', ''LISTEN_ADDR'']"
    and "list_all (\<lambda>k. k = key \<or> get k \<noteq> None) REQUIRED" "get key = None" "key \<in> set REQUIRED"
  shows "from_source get = Inl (Config (key @ '' is required''))"
proof -
  have "read_comp_level get = Inr zstd_default" "read_retention get = Inr None" "is_ok (read_pg_timeout get)"
    using assms(1) by (simp_all add: read_comp_level_def read_retention_def read_pg_timeout_ok number_between_def)
  then show ?thesis using assms
    by (auto simp: from_source_def read_db_def required_key_def REQUIRED_def default_listen_addr fb_const parse_value_def is_ok_iff)
qed

lemma lookup_without:
  "map_of (rev (filter (\<lambda>(k, _). k \<noteq> without) xs)) k = None \<longleftrightarrow> k = without \<or> k \<notin> fst ` set xs"
  by (force simp: map_of_eq_None_iff)

lemma required_names: "fst ` set (REQUIRED_PAIRS @ []) = set REQUIRED"
  by (simp add: REQUIRED_PAIRS_def REQUIRED_def)

lemma missing_key: "parse_env [] key = Inl (Config (key @ '' is required''))" if "key \<in> set REQUIRED"
  unfolding parse_env_def
proof (rule first_missing_key)
  show "list_all (\<lambda>k. map_of (rev (filter (\<lambda>(k, _). k \<noteq> key) (REQUIRED_PAIRS @ []))) k = None)
    [''DB_PORT'', ''COMPRESSION_LEVEL'', ''DRIVE_RETENTION_COUNT'', ''PG_TIMEOUT_SECS'', ''LISTEN_ADDR'']"
    unfolding lookup_without required_names by (simp add: REQUIRED_def)
  show "list_all (\<lambda>k. k = key \<or> map_of (rev (filter (\<lambda>(k, _). k \<noteq> key) (REQUIRED_PAIRS @ []))) k \<noteq> None) REQUIRED"
    unfolding lookup_without required_names by (simp add: list_all_iff)
  show "map_of (rev (filter (\<lambda>(k, _). k \<noteq> key) (REQUIRED_PAIRS @ []))) key = None"
    unfolding lookup_without by simp
qed (rule that)

lemma test_every_required_key_is_checked: test_every_required_key_is_checked
  unfolding test_every_required_key_is_checked_def list_all_iff
proof
  fix p assume "p \<in> set REQUIRED_PAIRS"
  then have "fst p \<in> set REQUIRED" unfolding required_names [symmetric] by simp
  moreover have "contains (display_error (Config (fst p @ '' is required''))) (fst p)"
    unfolding display_error.simps by (rule contains_infix)
  ultimately show "case p of (key, _) \<Rightarrow>
      case parse_env [] key of Inl err \<Rightarrow> contains (display_error err) key | Inr _ \<Rightarrow> False"
    by (simp only: split_beta missing_key sum.case)
qed

end
