(* ===== verification/Service_Tests.thy ===== *)
theory Service_Tests
  imports Core_Tests Grpc
begin

text \<open>
  The tests of \<^verbatim>\<open>service.rs\<close>, replayed on the model: the use cases run on the in-memory storage and
  database of the theory \<^verbatim>\<open>Fakes\<close>, with the inputs and assertions of the source.
\<close>

section \<open>Harness\<close>

text \<open>The temporary directory, empty at first, and the random parts of the names created in it.\<close>

definition test_dir :: path where "test_dir = ''/tmp/data''"

definition harness_state :: "fakes \<Rightarrow> fakes service_state" where
  "harness_state f =
     \<lparr>write_lock = False,
      machine = \<lparr>files = Map.empty, faults = [], rand_names = [''aaaaaa'', ''bbbbbb'', ''cccccc''], outside = f\<rparr>\<rparr>"

text \<open>The service of \<^verbatim>\<open>harness\<close> runs a use case; the legacy decoder matters in one test only.\<close>

definition test_ports :: "nat option \<Rightarrow> fakes ports" where
  "test_ports keep = harness_with stored_decode test_dir keep"

definition call_service :: "nat option \<Rightarrow> (fakes ports \<Rightarrow> 'r prog) \<Rightarrow> (fakes service_state, 'r) io" where
  "call_service keep p = run (test_ports keep) (p (test_ports keep))"

definition temp_files_left :: "fakes service_state \<Rightarrow> nat" where
  "temp_files_left s = card {p \<in> dom (files (machine s)). starts_with p (test_dir @ ''/'')}"

definition events :: "fakes service_state \<Rightarrow> string list" where
  "events s = fake_events (outside (machine s))"

definition put_good_backup :: "fakes \<Rightarrow> fakes" where
  "put_good_backup f = fake_put (fake_info ''good'' 1 PgCustom Regular) ''backup-content'' f"

section \<open>Backups\<close>

definition test_create_backup_uploads_dump :: bool where
  "test_create_backup_uploads_dump \<longleftrightarrow>
     (case call_service None create_backup (harness_state new_fakes) of
        (Inl _, _) \<Rightarrow> False
      | (Inr created, s) \<Rightarrow>
          b_name created = ''backup_tracker_2026-11-06_12:00:00.pgdump'' \<and> b_kind created = Regular
          \<and> b_format created = PgCustom \<and> map snd (fs_files (outside (machine s))) = [''current-db'']
          \<and> temp_files_left s = 0)"

definition test_create_backup_prunes_only_regular_pg_backups :: bool where
  "test_create_backup_prunes_only_regular_pg_backups \<longleftrightarrow>
     (let f = fold (\<lambda>(i, d). fake_put (fake_info i d PgCustom Regular) ''x'') [(''old1'', 1), (''old2'', 2), (''old3'', 3)] new_fakes;
          f = fake_put (fake_info ''legacy'' 1 LegacyJsonZstd Regular) ''x'' f;
          f = fake_put (fake_info ''safety'' 1 PgCustom PreRestore) ''x'' f
      in case call_service (Some 2) create_backup (harness_state f) of
           (Inl _, _) \<Rightarrow> False
         | (Inr _, s) \<Rightarrow> mset (fs_deleted (outside (machine s))) = mset [''old1'', ''old2''])"

text \<open>
  \<^verbatim>\<open>tokio::spawn\<close> of a use case followed by \<^verbatim>\<open>wait_until_locked\<close>, on a database whose gate blocks a dump: the
  task runs until it waits at the gate and holds the lock. What is left of it runs when the
  gate opens.
\<close>

primrec run_to_gate :: "'e ports \<Rightarrow> 'r prog \<Rightarrow> 'e service_state \<Rightarrow> 'r prog \<times> 'e service_state" where
  "run_to_gate D (Ret x) = (\<lambda>s. (Ret x, s))"
| "run_to_gate D (TryLock k) =
     (\<lambda>s. if write_lock s then run_to_gate D (k False) s else run_to_gate D (k True) (s\<lparr>write_lock := True\<rparr>))"
| "run_to_gate D (TempFile suf k) =
     (\<lambda>s. case on_machine (tempfile_in (data_folder D) ''backup_'' suf) s of (r, s') \<Rightarrow> run_to_gate D (k r) s')"
| "run_to_gate D (Release x p) = (\<lambda>s. run_to_gate D p (release x s))"
| "run_to_gate D (DoUnit c k) =
     (\<lambda>s. case c of
            Dump f \<Rightarrow> (DoUnit c k, s)
          | _ \<Rightarrow> (case on_machine (unit_op D c) s of (r, s') \<Rightarrow> run_to_gate D (k r) s'))"
| "run_to_gate D (DoInfo c k) = (\<lambda>s. case on_machine (info_op D c) s of (r, s') \<Rightarrow> run_to_gate D (k r) s')"
| "run_to_gate D (DoList n t k) = (\<lambda>s. case on_machine (list_op D n t) s of (r, s') \<Rightarrow> run_to_gate D (k r) s')"
| "run_to_gate D (DoLatest k) = (\<lambda>s. case on_machine (latest_op D) s of (r, s') \<Rightarrow> run_to_gate D (k r) s')"
| "run_to_gate D (DoNow k) = (\<lambda>s. case on_machine (now_op D) s of (r, s') \<Rightarrow> run_to_gate D (k r) s')"
| "run_to_gate D (DoBlocking a b k) = (\<lambda>s. case on_machine (blocking D a b) s of (r, s') \<Rightarrow> run_to_gate D (k r) s')"

fun busy :: "'a result \<Rightarrow> bool" where
  "busy (Inl (Busy _)) = True"
| "busy _ = False"

definition test_concurrent_backup_is_rejected :: bool where
  "test_concurrent_backup_is_rejected \<longleftrightarrow>
     (let D = test_ports None;
          (first, s1) = run_to_gate D (create_backup D) (harness_state new_fakes);
          (second, s2) = run D (create_backup D) s1;
          (r, s3) = run D first s2
      in busy second \<and> is_ok r)"

definition test_writes_are_rejected_while_restore_runs :: bool where
  "test_writes_are_rejected_while_restore_runs \<longleftrightarrow>
     (let D = test_ports None;
          (first, s1) = run_to_gate D (restore D (Id ''good'') ''tracker'') (harness_state (put_good_backup new_fakes));
          (backup, s2) = run D (create_backup D) s1;
          (second_restore, s3) = run D (restore D Latest ''tracker'') s2;
          (r, s4) = run D first s3
      in busy backup \<and> busy second_restore \<and> is_ok r)"

definition test_backup_survives_failed_retention_list :: bool where
  "test_backup_survives_failed_retention_list \<longleftrightarrow>
     (let (r, s) = call_service (Some 1) create_backup (harness_state (new_fakes\<lparr>fail_list := True\<rparr>))
      in is_ok r \<and> fs_delete_calls (outside (machine s)) = 0)"

definition test_backup_survives_failed_retention_deletes :: bool where
  "test_backup_survives_failed_retention_deletes \<longleftrightarrow>
     (let f = fold (\<lambda>(i, d). fake_put (fake_info i d PgCustom Regular) ''x'') [(''old1'', 1), (''old2'', 2)] new_fakes;
          (r, s) = call_service (Some 1) create_backup (harness_state (f\<lparr>fail_delete := True\<rparr>))
      in is_ok r \<and> fs_delete_calls (outside (machine s)) = 2)"

text \<open>250 backups, one per minute from midnight on.\<close>

definition by_the_minute :: "nat \<Rightarrow> backup_info" where
  "by_the_minute i = (fake_info (''b'' @ show_nat i) 1 PgCustom Regular)\<lparr>b_created_at := DateTime 2026 1 1 (60 * i) 0\<rparr>"

definition test_retention_reads_every_page :: bool where
  "test_retention_reads_every_page \<longleftrightarrow>
     (case call_service (Some 2) create_backup
             (harness_state (fold (\<lambda>i. fake_put (by_the_minute i) ''x'') [0..<250] new_fakes)) of
        (Inl _, _) \<Rightarrow> False
      | (Inr _, s) \<Rightarrow> length (fs_deleted (outside (machine s))) = 249
                     \<and> map b_id (fake_infos (outside (machine s))) = [''up250'', ''b249''])"

section \<open>Listing and download\<close>

definition twenty_five :: fakes where
  "twenty_five = fold (\<lambda>d. fake_put (fake_info (''b'' @ show_nat d) d PgCustom Regular) ''x'') [1..<26] new_fakes"

definition test_list_clamps_page_size :: bool where
  "test_list_clamps_page_size \<longleftrightarrow>
     (let s = harness_state twenty_five
      in case (fst (call_service None (\<lambda>_. list_backups 0 None) s), fst (call_service None (\<lambda>_. list_backups 1000 None) s)) of
           (Inr default_page, Inr capped) \<Rightarrow>
             length (items default_page) = 20 \<and> b_id (items default_page ! 0) = ''b25'' \<and> length (items capped) = 25
         | _ \<Rightarrow> False)"

text \<open>\<open>encoded\<close> stands for \<^verbatim>\<open>zstd::encode_all\<close> of the content and \<open>decode\<close> for the decoder of the zstd library.\<close>

definition test_download_decompresses_legacy_backup ::
  "(bytes \<Rightarrow> path \<Rightarrow> (fakes world, io_error + unit) io) \<Rightarrow> (bytes \<Rightarrow> bytes) \<Rightarrow> bool" where
  "test_download_decompresses_legacy_backup decode encode_all \<longleftrightarrow>
     (let json = ''{'' @ [CHR 0x22] @ ''materials'' @ [CHR 0x22] @ '': []}'';
          f = fake_put (fake_info ''legacy'' 1 LegacyJsonZstd Regular) (encode_all json) new_fakes
      in case run (harness_with decode test_dir None) (download Latest) (harness_state f) of
           (Inl _, _) \<Rightarrow> False
         | (Inr (got, p), s) \<Rightarrow> b_id got = ''legacy'' \<and> files (machine s) p = Some json)"

definition test_download_unknown_id :: bool where
  "test_download_unknown_id \<longleftrightarrow>
     (case fst (call_service None (\<lambda>_. download (Id ''nope'')) (harness_state new_fakes)) of
        Inl (NotFound _) \<Rightarrow> True
      | _ \<Rightarrow> False)"

section \<open>Restore\<close>

definition test_restore_takes_pre_restore_copy_then_restores :: bool where
  "test_restore_takes_pre_restore_copy_then_restores \<longleftrightarrow>
     (let f = fake_put (fake_info ''good'' 1 PgCustom Regular) ''backup-content'' new_fakes
      in case call_service None (\<lambda>D. restore D (Id ''good'') ''tracker'') (harness_state f) of
           (Inl _, _) \<Rightarrow> False
         | (Inr outcome, s) \<Rightarrow>
             b_id (restored outcome) = ''good'' \<and> b_kind (pre_restore outcome) = PreRestore
             \<and> starts_with (b_name (pre_restore outcome)) ''pre_restore_backup_tracker_''
             \<and> events s = [''dump'', ''upload pre_restore'', ''restore'']
             \<and> db_restored (outside (machine s)) ! 0 = ''backup-content'' \<and> temp_files_left s = 0)"

definition test_restore_requires_matching_db_name :: bool where
  "test_restore_requires_matching_db_name \<longleftrightarrow>
     (let f = fake_put (fake_info ''good'' 1 PgCustom Regular) ''x'' new_fakes
      in case call_service None (\<lambda>D. restore D Latest ''other'') (harness_state f) of
           (Inl (FailedPrecondition _), s) \<Rightarrow> events s = []
         | _ \<Rightarrow> False)"

definition test_restore_rejects_legacy_backup :: bool where
  "test_restore_rejects_legacy_backup \<longleftrightarrow>
     (let f = fake_put (fake_info ''legacy'' 1 LegacyJsonZstd Regular) ''x'' new_fakes
      in case call_service None (\<lambda>D. restore D Latest ''tracker'') (harness_state f) of
           (Inl (FailedPrecondition _), s) \<Rightarrow> events s = []
         | _ \<Rightarrow> False)"

definition test_restore_aborts_when_pre_restore_dump_fails :: bool where
  "test_restore_aborts_when_pre_restore_dump_fails \<longleftrightarrow>
     (case call_service None (\<lambda>D. restore D (Id ''good'') ''tracker'')
             (harness_state (put_good_backup (new_fakes\<lparr>fail_dump := True\<rparr>))) of
        (Inl (Process _ _ _), s) \<Rightarrow>
          \<not> list_ex (\<lambda>e. e = ''restore'') (events s) \<and> db_restored (outside (machine s)) = [] \<and> temp_files_left s = 0
      | _ \<Rightarrow> False)"

definition test_restore_aborts_when_pre_restore_upload_fails :: bool where
  "test_restore_aborts_when_pre_restore_upload_fails \<longleftrightarrow>
     (case call_service None (\<lambda>D. restore D (Id ''good'') ''tracker'')
             (harness_state ((put_good_backup new_fakes)\<lparr>fail_upload := True\<rparr>)) of
        (Inl (Unavailable _), s) \<Rightarrow> events s = [''dump''] \<and> db_restored (outside (machine s)) = [] \<and> temp_files_left s = 0
      | _ \<Rightarrow> False)"

definition test_restore_aborts_when_download_fails :: bool where
  "test_restore_aborts_when_download_fails \<longleftrightarrow>
     (case call_service None (\<lambda>D. restore D (Id ''good'') ''tracker'')
             (harness_state ((put_good_backup new_fakes)\<lparr>fail_download := True\<rparr>)) of
        (Inl (Unavailable _), s) \<Rightarrow> events s = [] \<and> temp_files_left s = 0
      | _ \<Rightarrow> False)"

definition test_failed_restore_keeps_pre_restore_copy_and_releases_lock :: bool where
  "test_failed_restore_keeps_pre_restore_copy_and_releases_lock \<longleftrightarrow>
     (case call_service None (\<lambda>D. restore D (Id ''good'') ''tracker'')
             (harness_state (put_good_backup (new_fakes\<lparr>fail_restore := True\<rparr>))) of
        (Inl (Process _ _ _), s) \<Rightarrow>
          list_ex (\<lambda>i. b_kind i = PreRestore) (fake_infos (outside (machine s))) \<and> temp_files_left s = 0
          \<and> is_ok (fst (call_service None create_backup s))
      | _ \<Rightarrow> False)"

definition test_restore_latest_without_regular_backups :: bool where
  "test_restore_latest_without_regular_backups \<longleftrightarrow>
     (let only_safety = fake_put (fake_info ''safety'' 1 PgCustom PreRestore) ''x'' new_fakes
      in list_all (\<lambda>f. case call_service None (\<lambda>D. restore D Latest ''tracker'') (harness_state f) of
                         (Inl (NotFound _), s) \<Rightarrow> events s = []
                       | _ \<Rightarrow> False) [new_fakes, only_safety])"

section \<open>Health\<close>

definition test_healthcheck :: bool where
  "test_healthcheck \<longleftrightarrow>
     fst (call_service None (\<lambda>_. healthcheck) (harness_state new_fakes))
     \<and> \<not> fst (call_service None (\<lambda>_. healthcheck) (harness_state (new_fakes\<lparr>db_healthy := False\<rparr>)))"

section \<open>Evaluation\<close>

lemmas service_eval = call_service_def test_ports_def run_try run_bind scoped_def service_calls on_machine_def
  harness_with_def fake_defs fake_check_def fake_put_def upd_def harness_state_def test_dir_def new_fakes_def
  tempfile_in_def NUM_RETRIES_def path_join_def tmpname_def std_remove_def with_lock_def pg_dump_def
  put_good_backup_def fake_infos_def fake_info_def temp_files_left_def events_def starts_with_def
  create_backup_def dump_and_upload_def prune_old_backups_def download_def restore_def healthcheck_def
  svc_db_name_def process_error_def

lemma dump_name: "backup_file_name ''tracker'' Regular (DateTime 2026 310 1 43200 0) = ''backup_tracker_2026-11-06_12:00:00.pgdump''"
  by (simp add: backup_file_name_def chrono_eval fb_const)

lemma safety_name: "starts_with (backup_file_name ''tracker'' PreRestore t) ''pre_restore_backup_tracker_''"
  by (simp add: backup_file_name_def fb_const starts_with_def)

text \<open>The scan of retention, when the first page is the last one.\<close>

lemma list_all_first_page:
  "list_all_backups = try_prog (call_list MAX_PAGE_SIZE None) (\<lambda>page.
     case continue_token page of Some next \<Rightarrow> list_all_loop 99 (Some next) (items page) | None \<Rightarrow> Ret (Inr (items page)))"
proof -
  have "list_all_backups = list_all_loop (Suc 99) None []" by (simp add: list_all_backups_def MAX_RETENTION_PAGES_def)
  then show ?thesis by (simp only: list_all_loop.simps Let_def append_Nil)
qed

text \<open>Files that were stored in the order of their time are listed in reverse.\<close>

lemma insort_last: "\<forall>y\<in>set ys. f y < f x \<Longrightarrow> insort_key f x ys = ys @ [x]" for f :: "'a \<Rightarrow> 'b::linorder"
  by (induction ys) auto

lemma sort_newest_first:
  "sorted_wrt (\<lambda>a b. b_created_at a < b_created_at b) xs \<Longrightarrow> sort_key (\<lambda>i. Reverse (b_created_at i)) xs = rev xs"
  by (induction xs) (auto simp: insort_last less_reverse_def)

lemma fold_put: "fold (\<lambda>x. fake_put (g x) (h x)) xs f = f\<lparr>fs_files := fs_files f @ map (\<lambda>x. (g x, h x)) xs\<rparr>"
  by (induction xs arbitrary: f) (auto simp: fake_put_def)

lemma infos_twenty_five: "fake_infos twenty_five = rev (map (\<lambda>d. fake_info (''b'' @ show_nat d) d PgCustom Regular) [1..<26])"
proof -
  have "sorted_wrt (\<lambda>a b. b_created_at a < b_created_at b) (map (\<lambda>d. fake_info (''b'' @ show_nat d) d PgCustom Regular) [1..<26])"
    by (auto simp: sorted_wrt_map fake_info_def less_datetime_def dt_key_def intro: sorted_wrt_mono_rel [OF _ strict_sorted_list_of_set])
  then show ?thesis
    by (simp add: sort_newest_first fake_infos_def twenty_five_def fold_put new_fakes_def o_def del: upt_rec_numeral)
qed

text \<open>A task that is resumed at the gate behaves as if it had not stopped there.\<close>

lemma run_resumed: "(case run_to_gate D p s of (p', s') \<Rightarrow> run D p' s') = run D p s"
proof (induction p arbitrary: s)
  case (DoUnit c k)
  then show ?case by (cases c) (simp_all split: prod.split)
qed (auto split: prod.split)

lemma test_create_backup_uploads_dump: test_create_backup_uploads_dump
  unfolding test_create_backup_uploads_dump_def
  by (simp add: service_eval dump_name [simplified])

lemma test_create_backup_prunes_only_regular_pg_backups: test_create_backup_prunes_only_regular_pg_backups
  unfolding test_create_backup_prunes_only_regular_pg_backups_def
  by (simp add: service_eval list_all_first_page continue_token_def retention_eval prunable_def fake_time_def MAX_PAGE_SIZE_def)

lemma test_concurrent_backup_is_rejected: test_concurrent_backup_is_rejected
proof -
  define D where "D = test_ports None"
  obtain first s1 where gate: "run_to_gate D (create_backup D) (harness_state new_fakes) = (first, s1)" by fastforce
  have "write_lock (snd (run_to_gate D (create_backup D) (harness_state new_fakes)))"
    by (simp add: service_eval D_def try_prog_def)
  then have "write_lock s1" using gate by simp
  then have "run D (create_backup D) s1 = (Inl (Busy ''another backup or restore is in progress''), s1)"
    by (simp add: create_backup_def with_lock_def)
  moreover have "is_ok (fst (run D first s1))"
    using run_resumed [of D "create_backup D" "harness_state new_fakes"] gate by (simp add: D_def service_eval)
  ultimately show ?thesis
    using gate by (simp add: test_concurrent_backup_is_rejected_def D_def [symmetric] case_prod_beta)
qed

lemma test_writes_are_rejected_while_restore_runs: test_writes_are_rejected_while_restore_runs
proof -
  define D where "D = test_ports None"
  let ?restore = "restore D (Id ''good'') ''tracker''" and ?s = "harness_state (put_good_backup new_fakes)"
  obtain first s1 where gate: "run_to_gate D ?restore ?s = (first, s1)" by fastforce
  have "write_lock (snd (run_to_gate D ?restore ?s))"
    by (simp add: service_eval D_def try_prog_def)
  then have "write_lock s1" using gate by simp
  moreover have "svc_db_name D = ''tracker''" by (simp add: D_def service_eval)
  ultimately have "run D (create_backup D) s1 = (Inl (Busy ''another backup or restore is in progress''), s1)"
    "run D (restore D Latest ''tracker'') s1 = (Inl (Busy ''another backup or restore is in progress''), s1)"
    by (simp_all add: create_backup_def restore_def with_lock_def)
  moreover have "is_ok (fst (run D first s1))"
    using run_resumed [of D ?restore ?s] gate by (simp add: D_def service_eval)
  ultimately show ?thesis
    using gate by (simp add: test_writes_are_rejected_while_restore_runs_def D_def [symmetric] case_prod_beta)
qed

lemma test_backup_survives_failed_retention_list: test_backup_survives_failed_retention_list
  unfolding test_backup_survives_failed_retention_list_def
  by (simp add: service_eval list_all_first_page continue_token_def retention_eval prunable_def fake_time_def MAX_PAGE_SIZE_def)

lemma test_backup_survives_failed_retention_deletes: test_backup_survives_failed_retention_deletes
  unfolding test_backup_survives_failed_retention_deletes_def
  by (simp add: service_eval list_all_first_page continue_token_def retention_eval prunable_def fake_time_def MAX_PAGE_SIZE_def)

lemma test_list_clamps_page_size: test_list_clamps_page_size
proof -
  have "\<not> fail_list twenty_five" by (simp add: twenty_five_def fold_put new_fakes_def)
  moreover have "unat (min 1000 MAX_PAGE_SIZE) = 100" "unat DEFAULT_PAGE_SIZE = 20"
    by (simp_all add: MAX_PAGE_SIZE_def DEFAULT_PAGE_SIZE_def min_def)
  ultimately show ?thesis
    unfolding test_list_clamps_page_size_def call_service_def
    by (simp add: list_backups_def service_calls test_ports_def harness_with_def on_machine_def fake_list_def
        fake_check_def harness_state_def infos_twenty_five rev_nth fake_info_def show_nat.simps digit_chars
        del: upt_rec_numeral)
qed

lemma test_download_unknown_id: test_download_unknown_id
  unfolding test_download_unknown_id_def
  by (simp add: service_eval)

lemma test_restore_takes_pre_restore_copy_then_restores: test_restore_takes_pre_restore_copy_then_restores
  unfolding test_restore_takes_pre_restore_copy_then_restores_def
  using safety_name [unfolded starts_with_def] by (simp add: service_eval)

lemma test_restore_requires_matching_db_name: test_restore_requires_matching_db_name
  unfolding test_restore_requires_matching_db_name_def
  by (simp add: service_eval)

lemma test_restore_rejects_legacy_backup: test_restore_rejects_legacy_backup
  unfolding test_restore_rejects_legacy_backup_def
  by (simp add: service_eval)

lemma test_restore_aborts_when_pre_restore_dump_fails: test_restore_aborts_when_pre_restore_dump_fails
  unfolding test_restore_aborts_when_pre_restore_dump_fails_def
  by (simp add: service_eval)

lemma test_restore_aborts_when_pre_restore_upload_fails: test_restore_aborts_when_pre_restore_upload_fails
  unfolding test_restore_aborts_when_pre_restore_upload_fails_def
  by (simp add: service_eval)

lemma test_restore_aborts_when_download_fails: test_restore_aborts_when_download_fails
  unfolding test_restore_aborts_when_download_fails_def
  by (simp add: service_eval)

lemma test_failed_restore_keeps_pre_restore_copy_and_releases_lock: test_failed_restore_keeps_pre_restore_copy_and_releases_lock
  unfolding test_failed_restore_keeps_pre_restore_copy_and_releases_lock_def
  by (simp add: service_eval)

lemma test_restore_latest_without_regular_backups: test_restore_latest_without_regular_backups
  unfolding test_restore_latest_without_regular_backups_def
  by (simp add: service_eval)

lemma test_healthcheck: test_healthcheck
  unfolding test_healthcheck_def
  by (simp add: service_eval)

lemma test_download_decompresses_legacy_backup:
  assumes "\<And>c dst. decode (encode_all c) dst = std_write dst c"
  shows "test_download_decompresses_legacy_backup decode encode_all"
  unfolding test_download_decompresses_legacy_backup_def
  by (simp add: service_eval assms decompress_file_def try_io_def map_io_def std_open_def std_create_def std_write_def std_flush_def)

text \<open>
  Retention on backups that were stored in the order of their time: all but the newest \<open>keep\<close> go.
\<close>

lemma retention_in_order:
  assumes "sorted_wrt (\<lambda>a b. b_created_at a < b_created_at b) bs" and "list_all prunable bs"
  shows "retention_candidates (rev bs) keep = rev (take (length bs - keep) bs)"
proof -
  have "sorted (map (\<lambda>b. Reverse (b_created_at b)) (rev bs))"
    using assms(1) by (induction bs) (auto simp: sorted_append less_imp_le)
  moreover have "filter prunable (rev bs) = rev bs" using assms(2) by (simp add: filter_id_conv list_all_iff)
  ultimately show ?thesis by (simp add: retention_candidates_def sort_key_id_if_sorted drop_rev)
qed

lemma by_the_minute_simps [simp]:
  "b_id (by_the_minute i) = ''b'' @ show_nat i" "b_created_at (by_the_minute i) = DateTime 2026 1 1 (60 * i) 0"
  "prunable (by_the_minute i)"
  by (simp_all add: by_the_minute_def fake_info_def prunable_def)

lemma test_retention_reads_every_page: test_retention_reads_every_page
proof -
  define f where "f = fold (\<lambda>i. fake_put (by_the_minute i) ''x'') [0..<250] new_fakes"
  define b where "b = new_backup 250 ''current-db''"
  define bs where "bs = map by_the_minute [0..<250] @ [b]"
  have f: "fs_files f = map (\<lambda>i. (by_the_minute i, ''x'')) [0..<250]" "fs_deleted f = []" "db_content f = ''current-db''"
    "calm test_dir (machine (harness_state f))"
    by (simp_all add: f_def fold_put new_fakes_def calm_def harness_state_def tempfile_in_def NUM_RETRIES_def Let_def
        del: upt_rec_numeral)
  have b: "b_id b = ''up250''" "b_created_at b = DateTime 2030 1 1 250 0" "prunable b"
    by (simp_all add: b_def new_backup_def fake_time_def prunable_def show_nat.simps digit_chars)
  have sorted: "sorted_wrt (\<lambda>a b. b_created_at a < b_created_at b) bs"
    by (auto simp: bs_def sorted_wrt_append sorted_wrt_map less_datetime_def dt_key_def b
        intro: sorted_wrt_mono_rel [OF _ strict_sorted_list_of_set])
  have gone: "retention_candidates (rev bs) 2 = rev (map by_the_minute [0..<249])"
    using retention_in_order [OF sorted, of 2] b(3) by (auto simp: bs_def list_all_iff take_map simp del: upt_rec_numeral)
  have stored: "map fst (map (\<lambda>i. (by_the_minute i, ''x'')) [0..<250] @ [(b, ''current-db'')]) = bs"
    by (simp add: bs_def o_def del: upt_rec_numeral)
  have state: "\<not> write_lock (harness_state f)" "outside (machine (harness_state f)) = f"
    by (simp_all add: harness_state_def)
  obtain s where s: "call_service (Some 2) create_backup (harness_state f) = (Inr b, s)"
    "fs_files (outside (machine s)) = filter (\<lambda>x. b_id (fst x) \<notin> b_id ` set (rev (map by_the_minute [0..<249])))
       (map (\<lambda>i. (by_the_minute i, ''x'')) [0..<250] @ [(b, ''current-db'')])"
    "fs_deleted (outside (machine s)) = map b_id (rev (map by_the_minute [0..<249]))"
    using run_create_backup [OF f(4) state(1), of stored_decode 2]
    unfolding state(2) f(1-3) call_service_def test_ports_def
    by (simp add: b_def [symmetric] stored [simplified] sort_newest_first [OF sorted] gone del: upt_rec_numeral) blast
  define ids where "ids = b_id ` set (rev (map by_the_minute [0..<249]))"
  have ids: "CHR ''b'' # show_nat i \<in> ids \<longleftrightarrow> i < 249" "b_id b \<notin> ids" for i
    by (auto simp: ids_def image_image b dest: show_nat_inj)
  have "[0..<250] = [0..<249] @ [249 :: nat]" using upt_Suc [of 0 249] by simp
  then have "fs_files (outside (machine s)) = [(by_the_minute 249, ''x''), (b, ''current-db'')]"
    unfolding s(2) ids_def [symmetric] by (simp add: ids filter_empty_conv del: upt_rec_numeral)
  then have "map b_id (fake_infos (outside (machine s))) = [''up250'', ''b249'']"
    by (simp add: fake_infos_def b less_eq_datetime_def dt_key_def show_nat.simps digit_chars)
  then show ?thesis
    using s(1,3) by (simp add: test_retention_reads_every_page_def f_def [symmetric] del: upt_rec_numeral)
qed

end
