(* ===== verification/Grpc_Tests.thy ===== *)
theory Grpc_Tests
  imports Service_Tests
begin

text \<open>
  The tests of \<^verbatim>\<open>grpc.rs\<close>, replayed on the model: the handlers run on the in-memory storage and database.
\<close>

section \<open>Tests\<close>

definition restore_request :: "proto_ref option \<Rightarrow> restore_request_msg" where
  "restore_request backup = \<lparr>rr_backup = backup, rr_confirm_db_name = ''tracker''\<rparr>"

definition latest_ref :: proto_ref where
  "latest_ref = \<lparr>ref_target = Some (ProtoLatest True)\<rparr>"

text \<open>
  The stream of the test: every read fills the buffer as long as the file lasts, and the client takes
  each item when it is sent.
\<close>

definition full_reads :: "nat list \<Rightarrow> stream_label list" where
  "full_reads sizes =
     [Sent, Receive, Opened (Inr ())] @ concat (map (\<lambda>n. [ReadBytes (Inr n), Sent, Receive]) sizes) @ [ReadBytes (Inr 0)]"

fun chunk_data :: "stream_item \<Rightarrow> bytes option" where
  "chunk_data (Inr c) = (case chunk_payload c of Some (Data d) \<Rightarrow> Some d | _ \<Rightarrow> None)"
| "chunk_data (Inl _) = None"

definition big_content :: bytes where
  "big_content = map (\<lambda>i. char_of (i mod 251)) [0..<CHUNK_SIZE * 2 + 10]"

definition test_download_streams_info_then_chunks :: bool where
  "test_download_streams_info_then_chunks \<longleftrightarrow>
     (let f = fake_put (fake_info ''big'' 1 PgCustom Regular) big_content new_fakes
      in case call_service None (\<lambda>_. grpc_download_backup latest_ref) (harness_state f) of
           (Inl _, _) \<Rightarrow> False
         | (Inr (header, p), s) \<Rightarrow>
             (case stream_run header (the (files (machine s) p)) (full_reads [CHUNK_SIZE, CHUNK_SIZE, 10]) start_stream of
                None \<Rightarrow> False
              | Some t \<Rightarrow>
                  (case received t of
                     [] \<Rightarrow> False
                   | first # rest \<Rightarrow>
                       first = header_item header \<and> pi_id header = ''big''
                       \<and> stage t = Ended \<and> buffer t = [] \<and> list_all (\<lambda>i. chunk_data i \<noteq> None) rest
                       \<and> concat (map (the \<circ> chunk_data) rest) = big_content
                       \<and> map (length \<circ> the \<circ> chunk_data) rest = [CHUNK_SIZE, CHUNK_SIZE, 10])))"

definition test_get_backup_latest_skips_pre_restore :: bool where
  "test_get_backup_latest_skips_pre_restore \<longleftrightarrow>
     (let f = fake_put (fake_info ''legacy'' 1 LegacyJsonZstd Regular) ''x'' new_fakes;
          f = fake_put (fake_info ''safety'' 2 PgCustom PreRestore) ''x'' f
      in case fst (call_service None (\<lambda>_. grpc_get_backup latest_ref) (harness_state f)) of
           Inl _ \<Rightarrow> False
         | Inr got \<Rightarrow> pi_id got = ''legacy'' \<and> pi_format got = proto_format_number FORMAT_LEGACY_JSON_ZSTD)"

definition test_download_missing_backup :: bool where
  "test_download_missing_backup \<longleftrightarrow>
     (case fst (call_service None (\<lambda>_. grpc_download_backup latest_ref) (harness_state new_fakes)) of
        Inl st \<Rightarrow> st_code st = Code_NotFound
      | Inr _ \<Rightarrow> False)"

definition test_restore_wrong_db_name :: bool where
  "test_restore_wrong_db_name \<longleftrightarrow>
     (let f = fake_put (fake_info ''b'' 1 PgCustom Regular) ''x'' new_fakes;
          req = \<lparr>rr_backup = Some latest_ref, rr_confirm_db_name = ''prod''\<rparr>
      in case fst (call_service None (\<lambda>D. grpc_restore D req) (harness_state f)) of
           Inl st \<Rightarrow> st_code st = Code_FailedPrecondition
         | Inr _ \<Rightarrow> False)"

definition test_restore_returns_restored_and_pre_restore_backups :: bool where
  "test_restore_returns_restored_and_pre_restore_backups \<longleftrightarrow>
     (let f = fake_put (fake_info ''good'' 1 PgCustom Regular) ''x'' new_fakes;
          req = restore_request (Some \<lparr>ref_target = Some (ProtoId ''good'')\<rparr>)
      in case fst (call_service None (\<lambda>D. grpc_restore D req) (harness_state f)) of
           Inl _ \<Rightarrow> False
         | Inr reply \<Rightarrow>
             (case (rr_restored reply, rr_pre_restore reply) of
                (Some done, Some safety) \<Rightarrow>
                  pi_id done = ''good'' \<and> pi_kind safety = proto_kind_number KIND_PRE_RESTORE
                  \<and> starts_with (pi_name safety) ''pre_restore_backup_tracker_''
              | _ \<Rightarrow> False))"

definition test_restore_without_backup_ref_is_invalid :: bool where
  "test_restore_without_backup_ref_is_invalid \<longleftrightarrow>
     (case call_service None (\<lambda>D. grpc_restore D (restore_request None)) (harness_state new_fakes) of
        (Inl st, s) \<Rightarrow> st_code st = Code_InvalidArgument \<and> events s = []
      | _ \<Rightarrow> False)"

definition test_list_backups_pages_through_token :: bool where
  "test_list_backups_pages_through_token \<longleftrightarrow>
     (let list_from = (\<lambda>token. fst (call_service None (\<lambda>_. grpc_list_backups \<lparr>lr_page_size = 0, lr_page_token = token\<rparr>)
                                (harness_state twenty_five)))
      in case list_from [] of
           Inl _ \<Rightarrow> False
         | Inr page1 \<Rightarrow>
             (case list_from (lr_next_page_token page1) of
                Inl _ \<Rightarrow> False
              | Inr page2 \<Rightarrow>
                  length (lr_backups page1) = 20 \<and> pi_id (lr_backups page1 ! 0) = ''b25''
                  \<and> lr_next_page_token page1 \<noteq> [] \<and> length (lr_backups page2) = 5
                  \<and> pi_id (lr_backups page2 ! 4) = ''b1'' \<and> lr_next_page_token page2 = []))"

definition test_healthcheck_reports_database_state :: bool where
  "test_healthcheck_reports_database_state \<longleftrightarrow>
     list_all (\<lambda>healthy. fst (call_service None (\<lambda>_. grpc_healthcheck) (harness_state (new_fakes\<lparr>db_healthy := healthy\<rparr>)))
                          = Inr healthy) [True, False]"

definition test_create_backup_returns_info :: bool where
  "test_create_backup_returns_info \<longleftrightarrow>
     (case fst (call_service None grpc_create_backup (harness_state new_fakes)) of
        Inl _ \<Rightarrow> False
      | Inr info \<Rightarrow> pi_format info = proto_format_number FORMAT_PG_CUSTOM \<and> pi_kind info = proto_kind_number KIND_REGULAR)"

section \<open>Evaluation\<close>

lemmas grpc_eval = service_eval grpc_download_backup_def grpc_get_backup_def grpc_restore_def grpc_healthcheck_def
  grpc_create_backup_def restore_request_def latest_ref_def to_backup_target_def to_status_def

text \<open>A file that is read in the pieces \<open>cs\<close>, none of them empty or larger than the buffer.\<close>

definition reading_at :: "bytes \<Rightarrow> stream_item list \<Rightarrow> stream" where
  "reading_at u sent = \<lparr>stage = ReadChunk, unread = u, buffer = [], received = sent, rx_open = True, on_disk = True\<rparr>"

lemma read_round:
  assumes "0 < length c" "length c \<le> CHUNK_SIZE"
  shows "stream_run h content (ReadBytes (Inr (length c)) # Sent # Receive # ls) (reading_at (c @ u) sent) =
    stream_run h content ls (reading_at u (sent @ [data_item c]))"
  using assms by (simp add: reading_at_def stream_defs STREAM_BUFFER_def)

lemma read_rounds:
  "list_all (\<lambda>c. 0 < length c \<and> length c \<le> CHUNK_SIZE) cs \<Longrightarrow>
   stream_run h content (concat (map (\<lambda>n. [ReadBytes (Inr n), Sent, Receive]) (map length cs)) @ ls) (reading_at (concat cs) sent) =
     stream_run h content ls (reading_at [] (sent @ map data_item cs))"
proof (induction cs arbitrary: sent)
  case (Cons c cs)
  then show ?case
    using read_round [of c h content "concat (map (\<lambda>n. [ReadBytes (Inr n), Sent, Receive]) (map length cs)) @ ls" "concat cs" sent]
      Cons.IH [of "sent @ [data_item c]"] by (simp del: stream_run.simps)
qed simp

lemma stream_of_full_reads:
  assumes "list_all (\<lambda>c. 0 < length c \<and> length c \<le> CHUNK_SIZE) cs"
  shows "stream_run h (concat cs) (full_reads (map length cs)) start_stream =
    Some (end_task (reading_at [] (header_item h # map data_item cs)))"
proof -
  let ?rounds = "concat (map (\<lambda>n. [ReadBytes (Inr n), Sent, Receive]) (map length cs))"
  have "stream_run h (concat cs) (full_reads (map length cs)) start_stream =
      stream_run h (concat cs) (?rounds @ [ReadBytes (Inr 0)]) (reading_at (concat cs) [header_item h])"
    by (simp add: full_reads_def start_stream_def stream_defs STREAM_BUFFER_def reading_at_def)
  also have "\<dots> = stream_run h (concat cs) [ReadBytes (Inr 0)] (reading_at [] (header_item h # map data_item cs))"
    using read_rounds [OF assms] by simp
  also have "\<dots> = Some (end_task (reading_at [] (header_item h # map data_item cs)))"
    by (simp add: read_chunk_def reading_at_def)
  finally show ?thesis .
qed

lemma test_download_streams_info_then_chunks: test_download_streams_info_then_chunks
proof -
  define header where "header = proto_backup_info (fake_info ''big'' 1 PgCustom Regular)"
  have len: "length big_content = CHUNK_SIZE * 2 + 10" by (simp add: big_content_def)
  define cs where "cs = [take CHUNK_SIZE big_content, take CHUNK_SIZE (drop CHUNK_SIZE big_content), drop (2 * CHUNK_SIZE) big_content]"
  have whole: "concat cs = big_content"
    unfolding cs_def by simp (metis append_take_drop_id drop_drop mult_2)
  have "pi_id header = ''big''" by (simp add: header_def proto_backup_info_def fake_info_def)
  moreover have "stream_run header big_content (full_reads [CHUNK_SIZE, CHUNK_SIZE, 10]) start_stream =
      Some (end_task (reading_at [] (header_item header # map data_item cs)))"
    using stream_of_full_reads [of cs header] len whole by (cases "big_content = []") (simp_all add: cs_def CHUNK_SIZE_def)
  moreover have "\<exists>p s. call_service None (\<lambda>_. grpc_download_backup latest_ref)
        (harness_state (fake_put (fake_info ''big'' 1 PgCustom Regular) big_content new_fakes))
      = (Inr (header, p), s) \<and> files (machine s) p = Some big_content"
    by (simp add: grpc_eval header_def)
  ultimately show ?thesis
    using whole len
    by (auto simp: test_download_streams_info_then_chunks_def data_item_def end_task_def reading_at_def cs_def)
qed

lemma list_page:
  "call_service None (\<lambda>_. grpc_list_backups \<lparr>lr_page_size = 0, lr_page_token = []\<rparr>) (harness_state twenty_five) =
     (Inr (list_reply_of \<lparr>items = take 20 (fake_infos twenty_five), next_page_token = Some (show_nat 20)\<rparr>), harness_state twenty_five)"
  "call_service None (\<lambda>_. grpc_list_backups \<lparr>lr_page_size = 0, lr_page_token = show_nat 20\<rparr>) (harness_state twenty_five) =
     (Inr (list_reply_of \<lparr>items = drop 20 (fake_infos twenty_five), next_page_token = None\<rparr>), harness_state twenty_five)"
proof -
  have "\<not> fail_list twenty_five" by (simp add: twenty_five_def fold_put new_fakes_def)
  moreover have "length (fake_infos twenty_five) = 25" by (simp add: infos_twenty_five del: upt_rec_numeral)
  moreover have "unat DEFAULT_PAGE_SIZE = 20" by (simp add: DEFAULT_PAGE_SIZE_def)
  moreover have "parse_usize (show_nat 20) = Inr 20" unfolding parse_usize_def parse_unsigned_show by simp
  moreover have "show_nat 20 \<noteq> []" by (simp add: show_nat.simps)
  ultimately show "call_service None (\<lambda>_. grpc_list_backups \<lparr>lr_page_size = 0, lr_page_token = []\<rparr>) (harness_state twenty_five) =
     (Inr (list_reply_of \<lparr>items = take 20 (fake_infos twenty_five), next_page_token = Some (show_nat 20)\<rparr>), harness_state twenty_five)"
    "call_service None (\<lambda>_. grpc_list_backups \<lparr>lr_page_size = 0, lr_page_token = show_nat 20\<rparr>) (harness_state twenty_five) =
     (Inr (list_reply_of \<lparr>items = drop 20 (fake_infos twenty_five), next_page_token = None\<rparr>), harness_state twenty_five)"
    by (simp_all add: call_service_def test_ports_def harness_with_def harness_state_def grpc_list_backups_def run_bind
        list_backups_def service_calls on_machine_def fake_list_def fake_check_def Let_def)
qed

lemma test_list_backups_pages_through_token: test_list_backups_pages_through_token
proof -
  have "show_nat 25 = ''25''" "show_nat (Suc 0) = ''1''" "show_nat 20 \<noteq> []" by (simp_all add: show_nat.simps digit_chars)
  then show ?thesis
    unfolding test_list_backups_pages_through_token_def
    by (simp add: list_page list_reply_of_def infos_twenty_five proto_backup_info_def fake_info_def rev_nth
        del: upt_rec_numeral)
qed

lemma test_restore_returns_restored_and_pre_restore_backups: test_restore_returns_restored_and_pre_restore_backups
  unfolding test_restore_returns_restored_and_pre_restore_backups_def
  using safety_name [unfolded starts_with_def] by (simp add: grpc_eval proto_backup_info_def)

lemma test_get_backup_latest_skips_pre_restore: test_get_backup_latest_skips_pre_restore
  unfolding test_get_backup_latest_skips_pre_restore_def
  by (simp add: grpc_eval proto_backup_info_def)

lemma test_download_missing_backup: test_download_missing_backup
  unfolding test_download_missing_backup_def
  by (simp add: grpc_eval proto_backup_info_def)

lemma test_restore_wrong_db_name: test_restore_wrong_db_name
  unfolding test_restore_wrong_db_name_def
  by (simp add: grpc_eval proto_backup_info_def)

lemma test_restore_without_backup_ref_is_invalid: test_restore_without_backup_ref_is_invalid
  unfolding test_restore_without_backup_ref_is_invalid_def
  by (simp add: grpc_eval proto_backup_info_def)

lemma test_healthcheck_reports_database_state: test_healthcheck_reports_database_state
  unfolding test_healthcheck_reports_database_state_def
  by (simp add: grpc_eval proto_backup_info_def)

lemma test_create_backup_returns_info: test_create_backup_returns_info
  unfolding test_create_backup_returns_info_def
  by (simp add: grpc_eval proto_backup_info_def)

end
