(* ===== verification/Drive_Tests.thy ===== *)
theory Drive_Tests
  imports Core_Tests Drive_Map Drive_Retry
begin

text \<open>
  The unit tests of \<^verbatim>\<open>query.rs\<close>, \<^verbatim>\<open>mapping.rs\<close>, \<^verbatim>\<open>errors.rs\<close> and \<^verbatim>\<open>retry.rs\<close> of \<^verbatim>\<open>backup-gdrive\<close>, replayed on
  the model.
\<close>

section \<open>query.rs\<close>

abbreviation quote_mark :: string where "quote_mark \<equiv> [CHR 0x27]"
abbreviation backslash :: string where "backslash \<equiv> [CHR 0x5C]"

definition test_escape_quotes_and_backslashes :: bool where
  "test_escape_quotes_and_backslashes \<longleftrightarrow>
     escape (''a'' @ quote_mark @ ''b'' @ backslash @ ''c'')
       = ''a'' @ backslash @ quote_mark @ ''b'' @ backslash @ backslash @ ''c''"

definition test_folder_query_escapes_id :: bool where
  "test_folder_query_escapes_id \<longleftrightarrow>
     folder_query (''x'' @ quote_mark @ '' or name contains '' @ quote_mark @ ''y'')
       = quote_mark @ ''x'' @ backslash @ quote_mark @ '' or name contains '' @ backslash @ quote_mark @ ''y'' @ quote_mark
         @ '' in parents and trashed = false and mimeType != '' @ quote_mark @ ''application/vnd.google-apps.folder'' @ quote_mark"

definition test_latest_query_excludes_pre_restore_copies :: bool where
  "test_latest_query_excludes_pre_restore_copies \<longleftrightarrow>
     latest_query ''folder''
       = quote_mark @ ''folder'' @ quote_mark @ '' in parents and trashed = false ''
         @ ''and mimeType != '' @ quote_mark @ ''application/vnd.google-apps.folder'' @ quote_mark @ '' ''
         @ ''and not appProperties has { key='' @ quote_mark @ ''kind'' @ quote_mark @ '' and value='' @ quote_mark
         @ ''pre_restore'' @ quote_mark @ '' }''"

section \<open>mapping.rs\<close>

definition test_file :: "string \<Rightarrow> (string \<rightharpoonup> string) option \<Rightarrow> gfile" where
  "test_file name props =
     default_file
       \<lparr>f_id := Some ''id1'', f_name := Some name, f_created_time := from_ymd_hms 2026 1 1 0 0 0, f_size := Some 42,
        f_md5_checksum := Some ''abc'', f_app_properties := props, f_parents := Some [''folder'']\<rparr>"

definition test_legacy_file_without_properties :: bool where
  "test_legacy_file_without_properties \<longleftrightarrow>
     (case to_backup_info (test_file ''backup_tracker_2024-01-01_00:00:00.dump'' None) of
        Inl _ \<Rightarrow> False
      | Inr info \<Rightarrow> b_format info = LegacyJsonZstd \<and> b_kind info = Regular \<and> b_size_bytes info = Some 42
          \<and> b_md5 info = Some ''abc'')"

definition test_properties_define_format_and_kind :: bool where
  "test_properties_define_format_and_kind \<longleftrightarrow>
     (case to_backup_info (test_file ''anything'' (Some [''format'' \<mapsto> ''pg_custom'', ''kind'' \<mapsto> ''pre_restore''])) of
        Inl _ \<Rightarrow> False
      | Inr info \<Rightarrow> b_format info = PgCustom \<and> b_kind info = PreRestore)"

definition test_unknown_kind_is_an_error :: bool where
  "test_unknown_kind_is_an_error \<longleftrightarrow> is_err (to_backup_info (test_file ''x.pgdump'' (Some [''kind'' \<mapsto> ''manual''])))"

definition test_missing_id_is_an_error :: bool where
  "test_missing_id_is_an_error \<longleftrightarrow> is_err (to_backup_info ((test_file ''x.pgdump'' None)\<lparr>f_id := None\<rparr>))"

definition test_is_in_folder :: bool where
  "test_is_in_folder \<longleftrightarrow>
     (let f = test_file ''x.pgdump'' None; trashed = f\<lparr>f_trashed := Some True\<rparr>
      in is_in_folder f ''folder'' \<and> \<not> is_in_folder f ''other'' \<and> \<not> is_in_folder trashed ''folder'')"

text \<open>The two readings of the clock are arguments.\<close>

definition test_upload_metadata_round_trips_through_mapping :: "datetime \<Rightarrow> datetime \<Rightarrow> bool" where
  "test_upload_metadata_round_trips_through_mapping now created \<longleftrightarrow>
     (let meta = upload_metadata (pg_dump ''/tmp/x'' ''tracker'' PreRestore now) ''folder''
      in f_parents meta = Some [''folder'']
         \<and> (case to_backup_info (meta\<lparr>f_id := Some ''id'', f_created_time := Some created\<rparr>) of
              Inl _ \<Rightarrow> False
            | Inr info \<Rightarrow> b_format info = PgCustom \<and> b_kind info = PreRestore))"

section \<open>errors.rs\<close>

definition bad_request :: "64 word \<Rightarrow> string \<Rightarrow> gd_error" where
  "bad_request c reason =
     GdBadRequest (JObject [(''error'', JObject
       [(''code'', JNumber (PosInt c)), (''message'', JString ''boom''),
        (''errors'', JArray [JObject [(''reason'', JString reason)]])])])"

definition test_not_found_is_permanent :: bool where
  "test_not_found_is_permanent \<longleftrightarrow>
     (case classify ''Get'' (bad_request 404 ''notFound'') of
        Permanent (NotFound msg) \<Rightarrow> contains msg ''404''
      | _ \<Rightarrow> False)"

definition test_server_errors_and_rate_limits_are_transient :: bool where
  "test_server_errors_and_rate_limits_are_transient \<longleftrightarrow>
     list_all (\<lambda>(c, reason). case classify ''List'' (bad_request c reason) of Transient _ \<Rightarrow> True | _ \<Rightarrow> False)
       [(500, ''backendError''), (503, ''x''), (429, ''x''), (403, ''userRateLimitExceeded'')]"

definition test_bad_request_is_a_storage_error_by_default :: bool where
  "test_bad_request_is_a_storage_error_by_default \<longleftrightarrow>
     (let err = classify ''List'' (bad_request 400 ''invalid'')
      in (case err of BadRequest _ \<Rightarrow> True | _ \<Rightarrow> False) \<and> (case into_error err of Storage _ \<Rightarrow> True | _ \<Rightarrow> False))"

definition test_unauthorized_is_permanent :: bool where
  "test_unauthorized_is_permanent \<longleftrightarrow>
     (case classify ''List'' (bad_request 401 ''authError'') of Permanent (Storage _) \<Rightarrow> True | _ \<Rightarrow> False)"

definition test_transport_and_token_errors_are_transient :: bool where
  "test_transport_and_token_errors_are_transient \<longleftrightarrow>
     list_all (\<lambda>err. case classify ''List'' err of Transient _ \<Rightarrow> True | _ \<Rightarrow> False)
       [GdIo ''reset'', GdMissingToken ''oauth endpoint down'']"

definition test_exhausted_transient_error_is_unavailable :: bool where
  "test_exhausted_transient_error_is_unavailable \<longleftrightarrow> into_error (Transient ''down'') = Unavailable ''down''"

definition test_forbidden_is_permanent :: bool where
  "test_forbidden_is_permanent \<longleftrightarrow>
     (case classify ''List'' (bad_request 403 ''insufficientFilePermissions'') of
        Permanent (Storage _) \<Rightarrow> True
      | _ \<Rightarrow> False)"

definition test_unparsable_body_is_permanent :: bool where
  "test_unparsable_body_is_permanent \<longleftrightarrow>
     (case classify ''List'' (GdBadRequest (JObject [(''weird'', JBool True)])) of Permanent _ \<Rightarrow> True | _ \<Rightarrow> False)"

definition test_timed_turns_hang_into_transient_error :: bool where
  "test_timed_turns_hang_into_transient_error \<longleftrightarrow>
     (case timed ''Hanging op'' (from_secs 10) (None :: (gd_error + unit) option) of
        Inl (Transient msg) \<Rightarrow> starts_with msg ''Hanging op timed out''
      | _ \<Rightarrow> False)"

definition test_timed_passes_result_through :: bool where
  "test_timed_passes_result_through \<longleftrightarrow> timed ''Fast op'' (from_secs 1) (Some (Inr (42 :: nat))) = Inr 42"

section \<open>retry.rs\<close>

definition POLICY :: retry_policy where
  "POLICY = \<lparr>attempts = 3, base_delay = from_secs 1, max_delay = from_secs 2\<rparr>"

text \<open>The world counts the calls; time is paused, so sleeping changes nothing that the tests see.\<close>

definition paused :: "duration \<Rightarrow> nat \<Rightarrow> nat" where
  "paused d calls = calls"

definition test_retries_transient_until_success :: bool where
  "test_retries_transient_until_success \<longleftrightarrow>
     retry POLICY paused (\<lambda>calls. (if calls = 0 \<or> calls = 1 then Inl (Transient ''flaky'') else Inr ''done'', calls + 1)) 0
       = (Inr ''done'', 3)"

definition test_gives_up_after_attempts :: bool where
  "test_gives_up_after_attempts \<longleftrightarrow>
     retry POLICY paused (\<lambda>calls. (Inl (Transient ''down'') :: call_error + unit, calls + 1)) 0
       = (Inl (Unavailable ''down''), 3)"

definition test_permanent_error_is_not_retried :: bool where
  "test_permanent_error_is_not_retried \<longleftrightarrow>
     (case retry POLICY paused (\<lambda>calls. (Inl (Permanent (NotFound ''x'')) :: call_error + unit, calls + 1)) 0 of
        (Inl (NotFound _), calls) \<Rightarrow> calls = 1
      | _ \<Rightarrow> False)"

section \<open>Evaluation\<close>

lemma test_escape_quotes_and_backslashes: test_escape_quotes_and_backslashes
  by code_simp

lemma test_folder_query_escapes_id: test_folder_query_escapes_id
  by code_simp

lemma test_latest_query_excludes_pre_restore_copies: test_latest_query_excludes_pre_restore_copies
  by code_simp

lemmas mapping_eval = to_backup_info_def required_def ok_or_def fb_const is_ok_def

lemma test_legacy_file_without_properties: test_legacy_file_without_properties
proof -
  have "detect_format ''backup_tracker_2024-01-01_00:00:00.dump'' None = Inr LegacyJsonZstd" by code_simp
  then show ?thesis
    by (simp add: test_legacy_file_without_properties_def mapping_eval test_file_def default_file_def chrono_eval
        kind_parse_def u64_try_from_def)
qed

lemma test_properties_define_format_and_kind: test_properties_define_format_and_kind
proof -
  have "detect_format ''anything'' (Some ''pg_custom'') = Inr PgCustom" "kind_parse (Some ''pre_restore'') = Inr PreRestore"
    by code_simp+
  then show ?thesis
    by (simp add: test_properties_define_format_and_kind_def mapping_eval test_file_def default_file_def chrono_eval)
qed

lemma test_unknown_kind_is_an_error: test_unknown_kind_is_an_error
proof -
  have "detect_format ''x.pgdump'' None = Inr PgCustom" "\<exists>e. kind_parse (Some ''manual'') = Inl e"
    by (code_simp, simp add: kind_parse_def)
  then show ?thesis
    by (auto simp: test_unknown_kind_is_an_error_def mapping_eval test_file_def default_file_def chrono_eval)
qed

lemma test_missing_id_is_an_error: test_missing_id_is_an_error
  by (simp add: test_missing_id_is_an_error_def mapping_eval)

lemma test_is_in_folder: test_is_in_folder
  by (simp add: test_is_in_folder_def is_in_folder_def test_file_def default_file_def)

lemma test_upload_metadata_round_trips_through_mapping: "test_upload_metadata_round_trips_through_mapping now created"
proof -
  have "kind_parse (Some ''pre_restore'') = Inr PreRestore" "detect_format n (Some ''pg_custom'') = Inr PgCustom" for n
    by (code_simp, simp add: detect_format_def format_parse_def)
  then show ?thesis
    by (simp add: test_upload_metadata_round_trips_through_mapping_def upload_metadata_def default_file_def pg_dump_def
        mapping_eval Let_def)
qed

lemmas classify_eval = bad_request_def classify_json_def json_get_def json_at_def json_as_u64_def json_as_str_def
  u16_try_from_def classify_status_def RATE_LIMIT_REASONS_def

lemma test_not_found_is_permanent: test_not_found_is_permanent
  by (simp add: test_not_found_is_permanent_def classify_eval show_nat.simps digit_chars)

lemma test_server_errors_and_rate_limits_are_transient: test_server_errors_and_rate_limits_are_transient
  by (simp add: test_server_errors_and_rate_limits_are_transient_def classify_eval)

lemma test_bad_request_is_a_storage_error_by_default: test_bad_request_is_a_storage_error_by_default
  by (simp add: test_bad_request_is_a_storage_error_by_default_def classify_eval)

lemma test_unauthorized_is_permanent: test_unauthorized_is_permanent
  by (simp add: test_unauthorized_is_permanent_def classify_eval)

lemma test_transport_and_token_errors_are_transient: test_transport_and_token_errors_are_transient
  by (simp add: test_transport_and_token_errors_are_transient_def)

lemma test_exhausted_transient_error_is_unavailable: test_exhausted_transient_error_is_unavailable
  by (simp add: test_exhausted_transient_error_is_unavailable_def)

lemma test_forbidden_is_permanent: test_forbidden_is_permanent
  by (simp add: test_forbidden_is_permanent_def classify_eval)

lemma test_unparsable_body_is_permanent: test_unparsable_body_is_permanent
  by (simp add: test_unparsable_body_is_permanent_def classify_eval)

lemma test_timed_turns_hang_into_transient_error: test_timed_turns_hang_into_transient_error
  by (simp add: test_timed_turns_hang_into_transient_error_def timed_def starts_with_def)

lemma test_timed_passes_result_through: test_timed_passes_result_through
  by (simp add: test_timed_passes_result_through_def timed_def)

lemmas retry_eval = retry_def retry_loop.simps POLICY_def paused_def

lemma test_retries_transient_until_success: test_retries_transient_until_success
  by (simp add: test_retries_transient_until_success_def retry_eval)

lemma test_gives_up_after_attempts: test_gives_up_after_attempts
  by (simp add: test_gives_up_after_attempts_def retry_eval)

lemma test_permanent_error_is_not_retried: test_permanent_error_is_not_retried
  by (simp add: test_permanent_error_is_not_retried_def retry_eval)

end
