(* ===== verification/Fake_Drive.thy ===== *)
theory Fake_Drive
  imports Std_Parse Drive_Retry
begin

text \<open>
  The HTTP server of the tests of \<^verbatim>\<open>backup-gdrive\<close> (\<^verbatim>\<open>fake.rs\<close>), which answers requests with canned replies
  in order. A connection is the sequence of what its reads give; the server reads requests from
  it however the network cuts them.
\<close>

section \<open>Replies\<close>

record reply =
  rp_status :: "16 word"
  rp_headers :: "(string \<times> string) list"
  rp_body :: bytes

definition reply_json :: "16 word \<Rightarrow> json \<Rightarrow> reply" where
  "reply_json status body =
     \<lparr>rp_status = status, rp_headers = [(''Content-Type'', ''application/json'')], rp_body = show_json body\<rparr>"

definition reply_bytes :: "bytes \<Rightarrow> reply" where
  "reply_bytes body =
     \<lparr>rp_status = 200, rp_headers = [(''Content-Type'', ''application/octet-stream'')], rp_body = body\<rparr>"

section \<open>Reading a request\<close>

abbreviation CRLF :: string where
  "CRLF \<equiv> [CHR 0x0D, CHR 0x0A]"

text \<open>\<^verbatim>\<open>str::lines\<close>, \<^verbatim>\<open>str::split_once\<close>, \<^verbatim>\<open>Iterator::find_map\<close> and \<^verbatim>\<open>windows(4).position\<close> of the standard library.\<close>

definition strip_cr :: "string \<Rightarrow> string" where
  "strip_cr l = (if l \<noteq> [] \<and> last l = CHR 0x0D then butlast l else l)"

definition str_lines :: "string \<Rightarrow> string list" where
  "str_lines s =
     (let ps = split_on (CHR 0x0A) s
      in map strip_cr (butlast ps) @ (if last ps = [] then [] else [last ps]))"

definition split_once :: "char \<Rightarrow> string \<Rightarrow> (string \<times> string) option" where
  "split_once c s =
     (if c \<in> set s then Some (takeWhile (\<lambda>x. x \<noteq> c) s, tl (dropWhile (\<lambda>x. x \<noteq> c) s)) else None)"

fun find_map :: "('a \<Rightarrow> 'b option) \<Rightarrow> 'a list \<Rightarrow> 'b option" where
  "find_map f [] = None"
| "find_map f (x # xs) = (case f x of Some y \<Rightarrow> Some y | None \<Rightarrow> find_map f xs)"

fun head_position :: "bytes \<Rightarrow> nat option" where
  "head_position [] = None"
| "head_position (c # s) =
     (if take 4 (c # s) = CRLF @ CRLF then Some 0 else map_option Suc (head_position s))"

definition header_length :: "string \<Rightarrow> nat option" where
  "header_length l =
     (case split_once (CHR '':'') l of
        None \<Rightarrow> None
      | Some (k, v) \<Rightarrow> if eq_ignore_ascii_case k ''content-length'' then res_ok (parse_usize (trim v)) else None)"

definition content_length :: "string \<Rightarrow> nat" where
  "content_length head = (case find_map header_length (str_lines head) of Some n \<Rightarrow> n | None \<Rightarrow> 0)"

text \<open>
  What the reads of a connection give: an error, some bytes, or none at the end of the
  stream. After the last entry the peer has closed.
\<close>

type_synonym reads = "(io_error + bytes) list"

fun read_head :: "bytes \<Rightarrow> reads \<Rightarrow> (bytes \<times> nat) option \<times> reads" where
  "read_head buf [] = (None, [])"
| "read_head buf (Inl e # rs) = (None, rs)"
| "read_head buf (Inr c # rs) =
     (if c = [] then (None, rs)
      else case head_position (buf @ c) of
             Some pos \<Rightarrow> (Some (buf @ c, pos + 4), rs)
           | None \<Rightarrow> read_head (buf @ c) rs)"

text \<open>The loop over \<^verbatim>\<open>remaining\<close>; \<^const>\<open>False\<close> is the early return on an error.\<close>

fun skip_body :: "nat \<Rightarrow> reads \<Rightarrow> bool \<times> reads" where
  "skip_body remaining [] = (True, [])"
| "skip_body remaining (r # rs) =
     (if remaining = 0 then (True, r # rs)
      else case r of
             Inl e \<Rightarrow> (False, rs)
           | Inr c \<Rightarrow> if c = [] then (True, rs) else skip_body (remaining - length c) rs)"

text \<open>\<^verbatim>\<open>l.rsplitn(2, ' ').last().unwrap_or(l)\<close>: the line without its last word.\<close>

definition without_last_word :: "string \<Rightarrow> string" where
  "without_last_word l =
     (if CHR '' '' \<in> set l then rev (tl (dropWhile (\<lambda>x. x \<noteq> CHR '' '') (rev l))) else l)"

definition first_line :: "string \<Rightarrow> string option" where
  "first_line head = (case str_lines head of [] \<Rightarrow> None | l # _ \<Rightarrow> Some (without_last_word l))"

definition read_request :: "reads \<Rightarrow> string option \<times> reads" where
  "read_request rs =
     (case read_head [] rs of
        (None, rs') \<Rightarrow> (None, rs')
      | (Some (buf, head_end), rs') \<Rightarrow>
          let head = from_utf8_lossy (take head_end buf)
          in case skip_body (content_length head - (length buf - head_end)) rs' of
               (False, rs'') \<Rightarrow> (None, rs'')
             | (True, rs'') \<Rightarrow> (first_line head, rs''))"

section \<open>Serving\<close>

definition reply_head :: "reply \<Rightarrow> string" where
  "reply_head r =
     ''HTTP/1.1 '' @ show_nat (unat (rp_status r)) @ '' X'' @ CRLF @ ''Content-Length: '' @ show_nat (length (rp_body r)) @ CRLF
     @ concat (map (\<lambda>(k, v). k @ '': '' @ v @ CRLF) (rp_headers r)) @ CRLF"

text \<open>
  A connection: what its reads give, and which of its writes fail (none after the end of the list).
\<close>

record connection =
  conn_reads :: reads
  conn_writes :: "bool list"

text \<open>\<^verbatim>\<open>write_all\<close> of the head and then of the body: what is written, and whether both succeed.\<close>

definition write_reply :: "reply \<Rightarrow> bool list \<Rightarrow> bool \<times> bytes \<times> bool list" where
  "write_reply r ws =
     (case ws of
        False # ws' \<Rightarrow> (False, [], ws')
      | True # False # ws' \<Rightarrow> (False, reply_head r, ws')
      | _ \<Rightarrow> (True, reply_head r @ rp_body r, drop 2 ws))"

text \<open>
  The loop over the requests of one connection, by recursion on the replies that are left. The
  result is the rest of the replies, or \<^const>\<open>None\<close> when a request found none and the server
  returned, the requests in order, and the bytes that were written.
\<close>

fun serve_connection :: "reply list \<Rightarrow> connection \<Rightarrow> reply list option \<times> string list \<times> bytes" where
  "serve_connection [] conn =
     (case read_request (conn_reads conn) of
        (None, _) \<Rightarrow> (Some [], [], [])
      | (Some line, _) \<Rightarrow> (None, [line], []))"
| "serve_connection (r # replies) conn =
     (case read_request (conn_reads conn) of
        (None, _) \<Rightarrow> (Some (r # replies), [], [])
      | (Some line, rs) \<Rightarrow>
          (case write_reply r (conn_writes conn) of
             (False, out, _) \<Rightarrow> (Some replies, [line], out)
           | (True, out, ws) \<Rightarrow>
               (case serve_connection replies \<lparr>conn_reads = rs, conn_writes = ws\<rparr> of
                  (rest, log, out') \<Rightarrow> (rest, line # log, out @ out'))))"

text \<open>The accept loop: an error of the listener ends the server.\<close>

fun serve_listener :: "reply list \<Rightarrow> (io_error + connection) list \<Rightarrow> string list \<times> bytes list" where
  "serve_listener replies [] = ([], [])"
| "serve_listener replies (Inl e # conns) = ([], [])"
| "serve_listener replies (Inr conn # conns) =
     (case serve_connection replies conn of
        (None, log, out) \<Rightarrow> (log, [out])
      | (Some rest, log, out) \<Rightarrow>
          (case serve_listener rest conns of (log', outs) \<Rightarrow> (log @ log', out # outs)))"

text \<open>
  \<^verbatim>\<open>FakeDrive\<close>: the address under which it listens, and the requests it has seen. \<open>port\<close> is the port that
  the operating system chose.
\<close>

record fake_drive =
  fd_base :: string
  fd_requests :: "string list"

definition fake_start_with :: "(string \<Rightarrow> reply list) \<Rightarrow> nat \<Rightarrow> (io_error + connection) list \<Rightarrow> fake_drive \<times> bytes list" where
  "fake_start_with replies p conns =
     (let base = ''http://'' @ show_v4 127 0 0 1 p; (log, outs) = serve_listener (replies base) conns
      in (\<lparr>fd_base = base, fd_requests = log\<rparr>, outs))"

definition fake_start :: "reply list \<Rightarrow> nat \<Rightarrow> (io_error + connection) list \<Rightarrow> fake_drive \<times> bytes list" where
  "fake_start replies = fake_start_with (\<lambda>_. replies)"

section \<open>A request in pieces\<close>

lemma ends_head_length: "take 4 s = CRLF @ CRLF \<Longrightarrow> 4 \<le> length s"
  by (drule arg_cong [where f = length]) simp

lemma ends_head_append: "4 \<le> length s \<Longrightarrow> take 4 (s @ t) = CRLF @ CRLF \<longleftrightarrow> take 4 s = CRLF @ CRLF"
  by simp

lemma head_position_bound: "head_position s = Some p \<Longrightarrow> p + 4 \<le> length s"
proof (induction s arbitrary: p)
  case (Cons c s)
  show ?case
  proof (cases "take 4 (c # s) = CRLF @ CRLF")
    case True
    then show ?thesis using ends_head_length [OF True] Cons.prems by simp
  next
    case False
    then obtain q where "head_position s = Some q" "p = Suc q" using Cons.prems by auto
    then show ?thesis using Cons.IH by simp
  qed
qed simp

lemma head_position_append: "head_position s = Some p \<Longrightarrow> head_position (s @ t) = Some p"
proof (induction s arbitrary: p)
  case (Cons c s)
  have "take 4 (c # s @ t) = CRLF @ CRLF \<longleftrightarrow> take 4 (c # s) = CRLF @ CRLF"
    using ends_head_append [of "c # s" t] head_position_bound [OF Cons.prems] by simp
  then show ?case using Cons by auto
qed simp

lemma head_position_prefix: "head_position (s @ t) = Some p \<Longrightarrow> length s < p + 4 \<Longrightarrow> head_position s = None"
  using head_position_append [of s _ t] head_position_bound [of s] by (cases "head_position s") auto

text \<open>A request: a head that ends at the first empty line, and as many bytes as it announces.\<close>

definition request_ok :: "bytes \<Rightarrow> bytes \<Rightarrow> bool" where
  "request_ok head body \<longleftrightarrow>
     head_position head = Some (length head - 4) \<and> length body = content_length (from_utf8_lossy head)"

lemma skip_body_exact:
  assumes "[] \<notin> set cs" and "length (concat cs) = n"
  shows "skip_body n (map Inr cs @ rest) = (True, rest)"
  using assms
proof (induction cs arbitrary: n)
  case Nil
  then show ?case by (cases rest) simp_all
next
  case (Cons c cs)
  then show ?case by auto
qed

lemma read_head_pieces:
  assumes "[] \<notin> set cs" and "buf @ concat cs = head @ body" and "length buf < length head"
    and "head_position head = Some (length head - 4)"
  shows "\<exists>got cs'. read_head buf (map Inr cs @ rest) = (Some (head @ got, length head), map Inr cs' @ rest)
    \<and> [] \<notin> set cs' \<and> got @ concat cs' = body"
  using assms
proof (induction cs arbitrary: buf)
  case (Cons c cs)
  have four: "4 \<le> length head" using head_position_bound [OF Cons.prems(4)] by simp
  have eq: "(buf @ c) @ concat cs = head @ body" using Cons.prems(2) by simp
  show ?case
  proof (cases "length (buf @ c) < length head")
    case True
    obtain more where "head = (buf @ c) @ more" using eq True by (auto simp: append_eq_append_conv2)
    then have "head_position (buf @ c) = None"
      using head_position_prefix [of "buf @ c" more] Cons.prems(4) True four by auto
    then show ?thesis using Cons.IH [OF _ eq True Cons.prems(4)] Cons.prems(1) by auto
  next
    case False
    define got where "got = drop (length head) (buf @ c)"
    have "take (length head) (buf @ c) = head" using False arg_cong [OF eq, of "take (length head)"] by simp
    then have got: "buf @ c = head @ got" unfolding got_def by (metis append_take_drop_id)
    have "head_position (buf @ c) = Some (length head - 4)"
      unfolding got using head_position_append [OF Cons.prems(4)] by simp
    moreover have "got @ concat cs = body" using eq got by simp
    ultimately show ?thesis using Cons.prems(1) got four by (intro exI [of _ got] exI [of _ cs]) auto
  qed
qed simp

text \<open>A request is read in full, and nothing of what follows it, however the network cuts it.\<close>

lemma read_request_pieces:
  assumes "request_ok head body" and "[] \<notin> set cs" and "concat cs = head @ body"
  shows "read_request (map Inr cs @ rest) = (first_line (from_utf8_lossy head), rest)"
proof -
  have head: "head_position head = Some (length head - 4)" "length body = content_length (from_utf8_lossy head)"
    using assms(1) by (simp_all add: request_ok_def)
  then have "length ([] :: bytes) < length head" by auto
  then obtain got cs' where got: "read_head [] (map Inr cs @ rest) = (Some (head @ got, length head), map Inr cs' @ rest)"
    "[] \<notin> set cs'" "got @ concat cs' = body"
    using read_head_pieces [OF assms(2), of "[]" head body rest] assms(3) head(1) by auto
  have "skip_body (content_length (from_utf8_lossy head) - length got) (map Inr cs' @ rest) = (True, rest)"
    by (rule skip_body_exact [OF got(2)]) (simp add: head(2) [symmetric] got(3) [symmetric])
  then show ?thesis using got(1) by (simp add: read_request_def Let_def)
qed

text \<open>
  A client that sends its requests one after the other gets the replies in order, whole and each
  with its length, and the server notes the requests in order.
\<close>

record sent_request =
  sr_head :: bytes
  sr_body :: bytes
  sr_pieces :: "bytes list"
  sr_line :: string

definition sent_ok :: "sent_request \<Rightarrow> bool" where
  "sent_ok q \<longleftrightarrow> request_ok (sr_head q) (sr_body q) \<and> first_line (from_utf8_lossy (sr_head q)) = Some (sr_line q)
     \<and> [] \<notin> set (sr_pieces q) \<and> concat (sr_pieces q) = sr_head q @ sr_body q"

lemma serve_connection_in_order:
  assumes "list_all sent_ok reqs" and "length reqs \<le> length replies"
  shows "serve_connection replies \<lparr>conn_reads = concat (map (\<lambda>q. map Inr (sr_pieces q)) reqs), conn_writes = []\<rparr> =
    (Some (drop (length reqs) replies), map sr_line reqs,
     concat (map (\<lambda>r. reply_head r @ rp_body r) (take (length reqs) replies)))"
  using assms
proof (induction reqs arbitrary: replies)
  case Nil
  then show ?case by (cases replies) (simp_all add: read_request_def)
next
  case (Cons q reqs)
  then obtain r more where r: "replies = r # more" by (cases replies) auto
  have q: "request_ok (sr_head q) (sr_body q)" "first_line (from_utf8_lossy (sr_head q)) = Some (sr_line q)"
    "[] \<notin> set (sr_pieces q)" "concat (sr_pieces q) = sr_head q @ sr_body q"
    using Cons.prems(1) by (simp_all add: sent_ok_def)
  show ?case
    using Cons.IH [of more] Cons.prems r read_request_pieces [OF q(1,3,4), of "concat (map (\<lambda>q. map Inr (sr_pieces q)) reqs)"] q(2)
    by (simp add: write_reply_def)
qed

text \<open>A client finds the length of the body in the head of a reply.\<close>

lemma str_lines_crlf: "CHR 0x0A \<notin> set l \<Longrightarrow> str_lines (l @ CRLF @ s) = l # str_lines s"
  using split_on_append [of "CHR 0x0A" "l @ [CHR 0x0D]" "CHR 0x0A # s"] split_on_none [of "CHR 0x0A" "l @ [CHR 0x0D]"]
  by (simp add: str_lines_def strip_cr_def Let_def)

lemma digit_plain: "is_digit c \<Longrightarrow> \<not> ws1 c \<and> byte c < 128 \<and> c \<noteq> CHR 0x0A \<and> c \<noteq> CHR '':''"
  by (auto simp: is_digit_def digit_val_def ws1_def in_range_def byte_def Let_def split: if_splits)

lemma trim_start_plain: "s \<noteq> [] \<Longrightarrow> \<forall>c\<in>set s. \<not> ws1 c \<and> byte c < 128 \<Longrightarrow> trim_start s = s"
  by (cases s rule: trim_start.cases) (auto simp: ws2_def ws3_def)

lemma trim_end_plain: "\<forall>c\<in>set s. \<not> ws1 c \<and> byte c < 128 \<Longrightarrow> trim_end s = s"
  unfolding trim_end_def by (cases "rev s" rule: trim_end_rev.cases) (auto simp: ws2_def ws3_def rev_eq_Cons_iff)

lemma trim_blank_number: "trim (CHR '' '' # show_nat n) = show_nat n"
proof -
  have plain: "\<forall>c\<in>set (show_nat n). \<not> ws1 c \<and> byte c < 128" using show_nat_digits digit_plain by blast
  have "trim_start (CHR '' '' # s) = trim_start s" for s
    by (cases s rule: trim_start.cases) (auto simp: ws1_def byte_def)
  then show ?thesis using trim_start_plain [OF show_nat_nonempty plain] trim_end_plain [OF plain] by (simp add: trim_def)
qed

lemma reply_framed:
  assumes "length (rp_body r) < 2 ^ 64"
  shows "content_length (reply_head r) = length (rp_body r)"
proof -
  have plain: "c \<notin> set (show_nat n)" if "c = CHR 0x0A \<or> c = CHR '':''" for c n
    using that show_nat_digits [of c n] digit_plain [of c] by auto
  let ?first = "''HTTP/1.1 '' @ show_nat (unat (rp_status r)) @ '' X''"
  let ?second = "''Content-Length: '' @ show_nat (length (rp_body r))"
  let ?rest = "concat (map (\<lambda>(k, v). k @ '': '' @ v @ CRLF) (rp_headers r)) @ CRLF"
  have "reply_head r = ?first @ CRLF @ ?second @ CRLF @ ?rest" by (simp add: reply_head_def)
  moreover have "CHR 0x0A \<notin> set ?first" "CHR 0x0A \<notin> set ?second" "CHR '':'' \<notin> set ?first"
    using plain by auto
  ultimately have "str_lines (reply_head r) = ?first # ?second # str_lines ?rest"
    using str_lines_crlf [of ?first "?second @ CRLF @ ?rest"] str_lines_crlf [of ?second ?rest] by simp
  moreover have "header_length ?first = None"
    using \<open>CHR '':'' \<notin> set ?first\<close> by (simp add: header_length_def split_once_def)
  moreover have "header_length ?second = Some (length (rp_body r))"
  proof -
    have "split_once (CHR '':'') ?second = Some (''Content-Length'', CHR '' '' # show_nat (length (rp_body r)))"
      by (simp add: split_once_def)
    moreover have "eq_ignore_ascii_case ''Content-Length'' ''content-length''" by code_simp
    moreover have "parse_usize (show_nat (length (rp_body r))) = Inr (length (rp_body r))"
      unfolding parse_usize_def parse_unsigned_show using assms by simp
    ultimately show ?thesis by (simp add: header_length_def trim_blank_number)
  qed
  ultimately show ?thesis by (simp add: content_length_def)
qed

end
