(* ===== verification/Drive_Client.thy ===== *)
theory Drive_Client
  imports Drive_Storage Std_Parse Trailers
begin

text \<open>
  The generated Drive client (\<^verbatim>\<open>vendor/google-drive3/src/api.rs\<close> with \<^verbatim>\<open>vendor/google-apis-common\<close>), as far as
  the storage calls it: the request of each method with its URL and query (\<^verbatim>\<open>vendor/url\<close>,
  \<^verbatim>\<open>vendor/form_urlencoded\<close>), the reading of the answer, and the resumable upload. The calls use the default
  delegate, which never retries, so each loop of the source runs once. Sockets, OAuth tokens, the JSON
  reader and the parser of URLs are arguments.
\<close>

section \<open>Queries\<close>

definition byte_serialized_unchanged :: "char \<Rightarrow> bool" where
  "byte_serialized_unchanged c \<longleftrightarrow>
     c \<in> set ''*-._'' \<or> in_range 48 57 c \<or> in_range 65 90 c \<or> in_range 97 122 c"

fun byte_serialize :: "bytes \<Rightarrow> string" where
  "byte_serialize [] = []"
| "byte_serialize (c # s) =
     (if byte_serialized_unchanged c then [c] else if c = CHR '' '' then ''+'' else percent_encode_byte c)
     @ byte_serialize s"

text \<open>\<^verbatim>\<open>append_pair\<close> on the query that is there so far.\<close>

definition append_pair :: "string \<Rightarrow> string \<times> string \<Rightarrow> string" where
  "append_pair q p =
     (if q \<noteq> [] then q @ ''&'' else q) @ byte_serialize (fst p) @ ''='' @ byte_serialize (snd p)"

definition extend_pairs :: "string \<Rightarrow> (string \<times> string) list \<Rightarrow> string" where
  "extend_pairs q ps = foldl append_pair q ps"

text \<open>\<^verbatim>\<open>form_urlencoded::parse\<close>, which a server uses to read a query.\<close>

definition form_decode :: "bytes \<Rightarrow> string" where
  "form_decode s = from_utf8_lossy (percent_decode (map (\<lambda>c. if c = CHR ''+'' then CHR '' '' else c) s))"

definition form_parse :: "bytes \<Rightarrow> (string \<times> string) list" where
  "form_parse s =
     map (\<lambda>sequence. (form_decode (takeWhile (\<lambda>c. c \<noteq> CHR ''='') sequence),
                      form_decode (drop 1 (dropWhile (\<lambda>c. c \<noteq> CHR ''='') sequence))))
       (filter (\<lambda>sequence. sequence \<noteq> []) (split_on (CHR ''&'') s))"

section \<open>URLs\<close>

text \<open>A parsed \<^verbatim>\<open>Url\<close>: everything before the query, the query, and the fragment.\<close>

record url =
  u_before :: string
  u_query :: "string option"
  u_fragment :: "string option"

definition url_as_str :: "url \<Rightarrow> string" where
  "url_as_str u =
     u_before u @ (case u_query u of None \<Rightarrow> [] | Some q \<Rightarrow> ''?'' @ q) @ (case u_fragment u of None \<Rightarrow> [] | Some f \<Rightarrow> ''#'' @ f)"

definition parse_with_params :: "(string \<Rightarrow> url option) \<Rightarrow> string \<Rightarrow> (string \<times> string) list \<Rightarrow> url option" where
  "parse_with_params parse s ps =
     map_option (\<lambda>u. u\<lparr>u_query := Some (extend_pairs (case u_query u of None \<Rightarrow> [] | Some q \<Rightarrow> q) ps)\<rparr>) (parse s)"

section \<open>The client\<close>

record http_request =
  rq_method :: string
  rq_url :: string
  rq_headers :: "(string \<times> string) list"
  rq_body :: bytes

record http_response =
  rs_status :: "16 word"
  rs_headers :: "(string \<times> string) list"
  rs_body :: "frame list"

text \<open>
  \<^verbatim>\<open>DriveHub\<close>. A request or a token that is not there within the time limit of the call is \<^const>\<open>None\<close>.
  \<open>cl_from_str\<close> reads JSON, with the text of its error; \<open>cl_type_error\<close> is the text of the error for JSON of
  another shape; \<open>cl_metadata\<close> is the JSON of a file without its null fields. The limit of an upload
  leaves time for \<open>cl_upload_requests\<close> chunks.
\<close>

record 'e drive_client =
  cl_user_agent :: string
  cl_base_url :: string
  cl_root_url :: string
  cl_get_token :: "duration \<Rightarrow> string list \<Rightarrow> ('e world, (string + string option) option) io"
  cl_request :: "duration \<Rightarrow> http_request \<Rightarrow> ('e world, (string + http_response) option) io"
  cl_parse_url :: "string \<Rightarrow> url option"
  cl_from_str :: "string \<Rightarrow> string + json"
  cl_type_error :: "string \<Rightarrow> string"
  cl_rfc3339 :: "string \<Rightarrow> datetime option"
  cl_metadata :: "gfile \<Rightarrow> bytes"
  cl_upload_requests :: nat
  cl_sleep :: "duration \<Rightarrow> 'e world \<Rightarrow> 'e world"

text \<open>A step of a call: it may not answer in time, or fail.\<close>

type_synonym ('e, 'a) call = "('e world, (gd_error + 'a) option) io"

definition try_call :: "('e, 'a) call \<Rightarrow> ('a \<Rightarrow> ('e, 'b) call) \<Rightarrow> ('e, 'b) call" where
  "try_call m k w =
     (case m w of
        (None, w') \<Rightarrow> (None, w')
      | (Some (Inl e), w') \<Rightarrow> (Some (Inl e), w')
      | (Some (Inr x), w') \<Rightarrow> k x w')"

definition done_call :: "gd_error + 'a \<Rightarrow> ('e, 'a) call" where
  "done_call r w = (Some r, w)"

text \<open>Where the client would panic it answers with an error of its own.\<close>

definition gd_panic :: gd_error where
  "gd_panic = GdOther ''panicked''"

definition FULL_SCOPE :: string where
  "FULL_SCOPE = ''https://www.googleapis.com/auth/drive''"

definition get_token :: "'e drive_client \<Rightarrow> duration \<Rightarrow> ('e, string option) call" where
  "get_token cl limit = map_io (map_option (map_err GdMissingToken)) (cl_get_token cl limit [FULL_SCOPE])"

definition full_url :: "'e drive_client \<Rightarrow> string \<Rightarrow> (string \<times> string) list \<Rightarrow> gd_error + string" where
  "full_url cl s ps =
     (case parse_with_params (cl_parse_url cl) s ps of None \<Rightarrow> Inl gd_panic | Some u \<Rightarrow> Inr (url_as_str u))"

definition is_success :: "16 word \<Rightarrow> bool" where
  "is_success status \<longleftrightarrow> 200 \<le> status \<and> status < 300"

text \<open>\<^verbatim>\<open>to_bytes(body).await.unwrap_or_default()\<close>, within the limit.\<close>

definition collect_body :: "frame list \<Rightarrow> bytes option" where
  "collect_body fs =
     (if Elapsed \<in> set fs then None else if body_whole fs then Some (body_data fs) else Some [])"

definition failure_of :: "'e drive_client \<Rightarrow> 16 word \<Rightarrow> bytes \<Rightarrow> gd_error" where
  "failure_of cl status bytes =
     (case cl_from_str cl (from_utf8_lossy bytes) of Inr v \<Rightarrow> GdBadRequest v | Inl _ \<Rightarrow> GdFailure status)"

text \<open>Send a request; an answer without success is read and becomes the error.\<close>

definition send_request :: "'e drive_client \<Rightarrow> duration \<Rightarrow> http_request \<Rightarrow> ('e, http_response) call" where
  "send_request cl limit rq =
     try_call (map_io (map_option (map_err GdHttpError)) (cl_request cl limit rq)) (\<lambda>res w.
       if is_success (rs_status res) then (Some (Inr res), w)
       else (map_option (\<lambda>bytes. Inl (failure_of cl (rs_status res) bytes)) (collect_body (rs_body res)), w))"

definition decode_response ::
  "'e drive_client \<Rightarrow> (json \<Rightarrow> 'a option) \<Rightarrow> frame list \<Rightarrow> ('e, 'a) call" where
  "decode_response cl dec fs w =
     (map_option (\<lambda>bytes.
        let encoded = from_utf8_lossy bytes
        in case cl_from_str cl encoded of
             Inl e \<Rightarrow> Inl (GdOther (e @ '': '' @ encoded @ [CHR 0x0A]))
           | Inr v \<Rightarrow> ok_or (GdOther (cl_type_error cl encoded @ '': '' @ encoded @ [CHR 0x0A])) (dec v))
        (collect_body fs), w)"

definition bearer :: "string option \<Rightarrow> (string \<times> string) list" where
  "bearer token = (case token of None \<Rightarrow> [] | Some t \<Rightarrow> [(''authorization'', ''Bearer '' @ t)])"

text \<open>A call without a body: token, request, answer.\<close>

definition simple_call ::
  "'e drive_client \<Rightarrow> duration \<Rightarrow> string \<Rightarrow> string \<Rightarrow> (string \<times> string) list \<Rightarrow> ('e, http_response) call" where
  "simple_call cl limit verb s ps =
     try_call (done_call (full_url cl s ps)) (\<lambda>u.
     try_call (get_token cl limit) (\<lambda>token.
     send_request cl limit
       \<lparr>rq_method = verb, rq_url = u,
        rq_headers = [(''user-agent'', cl_user_agent cl)] @ bearer token @ [(''content-length'', ''0'')], rq_body = []\<rparr>))"

section \<open>Files as JSON\<close>

text \<open>
  \<^verbatim>\<open>Deserialize\<close> of \<^verbatim>\<open>File\<close> and \<^verbatim>\<open>FileList\<close> for the fields that are read; a field that is absent or null is
  \<^const>\<open>None\<close>. The size is a number in a string.
\<close>

definition opt_field :: "(json \<Rightarrow> 'a option) \<Rightarrow> json \<Rightarrow> 'a option option" where
  "opt_field dec v = (if v = JNull then Some None else map_option Some (dec v))"

definition json_bool :: "json \<Rightarrow> bool option" where
  "json_bool v = (case v of JBool b \<Rightarrow> Some b | _ \<Rightarrow> None)"

fun all_some :: "'a option list \<Rightarrow> 'a list option" where
  "all_some [] = Some []"
| "all_some (x # xs) = (case (x, all_some xs) of (Some y, Some ys) \<Rightarrow> Some (y # ys) | _ \<Rightarrow> None)"

definition json_list :: "(json \<Rightarrow> 'a option) \<Rightarrow> json \<Rightarrow> 'a list option" where
  "json_list dec v = (case v of JArray xs \<Rightarrow> all_some (map dec xs) | _ \<Rightarrow> None)"

definition json_string_map :: "json \<Rightarrow> (string \<rightharpoonup> string) option" where
  "json_string_map v =
     (case v of
        JObject m \<Rightarrow> map_option (\<lambda>vs. map_of (rev (zip (map fst m) vs))) (all_some (map (json_as_str \<circ> snd) m))
      | _ \<Rightarrow> None)"

definition json_size :: "json \<Rightarrow> 64 word option" where
  "json_size v = Option.bind (json_as_str v) (\<lambda>s. res_ok (parse_i64 s))"

definition file_of_json :: "(string \<Rightarrow> datetime option) \<Rightarrow> json \<Rightarrow> gfile option" where
  "file_of_json rfc3339 v =
     (case v of
        JObject m \<Rightarrow>
          Option.bind (opt_field json_as_str (json_get v ''id'')) (\<lambda>i.
          Option.bind (opt_field json_as_str (json_get v ''name'')) (\<lambda>name.
          Option.bind (opt_field (\<lambda>t. Option.bind (json_as_str t) rfc3339) (json_get v ''createdTime'')) (\<lambda>created.
          Option.bind (opt_field json_size (json_get v ''size'')) (\<lambda>size.
          Option.bind (opt_field json_as_str (json_get v ''md5Checksum'')) (\<lambda>md5.
          Option.bind (opt_field json_string_map (json_get v ''appProperties'')) (\<lambda>props.
          Option.bind (opt_field (json_list json_as_str) (json_get v ''parents'')) (\<lambda>parents.
          Option.bind (opt_field json_bool (json_get v ''trashed'')) (\<lambda>trashed.
          Option.bind (opt_field json_as_str (json_get v ''mimeType'')) (\<lambda>mime.
            Some \<lparr>f_id = i, f_name = name, f_created_time = created, f_size = size, f_md5_checksum = md5,
                  f_app_properties = props, f_parents = parents, f_trashed = trashed, f_mime_type = mime\<rparr>)))))))))
      | _ \<Rightarrow> None)"

definition file_list_of_json :: "(string \<Rightarrow> datetime option) \<Rightarrow> json \<Rightarrow> file_list option" where
  "file_list_of_json rfc3339 v =
     (case v of
        JObject m \<Rightarrow>
          Option.bind (opt_field (json_list (file_of_json rfc3339)) (json_get v ''files'')) (\<lambda>fs.
          Option.bind (opt_field json_as_str (json_get v ''nextPageToken'')) (\<lambda>token.
            Some \<lparr>fl_files = fs, fl_next_page_token = token\<rparr>))
      | _ \<Rightarrow> None)"

section \<open>Methods\<close>

definition list_params :: "list_call \<Rightarrow> (string \<times> string) list" where
  "list_params c =
     [(''q'', lc_q c)] @ (case lc_page_token c of None \<Rightarrow> [] | Some t \<Rightarrow> [(''pageToken'', t)])
     @ [(''pageSize'', show_int (sint (lc_page_size c))), (''orderBy'', lc_order_by c), (''fields'', lc_fields c),
        (''alt'', ''json'')]"

definition client_list :: "'e drive_client \<Rightarrow> duration \<Rightarrow> list_call \<Rightarrow> ('e, file_list) call" where
  "client_list cl limit c =
     try_call (simple_call cl limit ''GET'' (cl_base_url cl @ ''files'') (list_params c)) (\<lambda>res.
     decode_response cl (file_list_of_json (cl_rfc3339 cl)) (rs_body res))"

text \<open>The id of a file goes into the path as it is: \<^verbatim>\<open>uri_replacement\<close> is called without encoding.\<close>

definition file_url :: "'e drive_client \<Rightarrow> string \<Rightarrow> string" where
  "file_url cl i = cl_base_url cl @ ''files/'' @ i"

definition client_get :: "'e drive_client \<Rightarrow> duration \<Rightarrow> string \<Rightarrow> string \<Rightarrow> ('e, gfile) call" where
  "client_get cl limit i wanted =
     try_call (simple_call cl limit ''GET'' (file_url cl i) [(''fields'', wanted), (''alt'', ''json'')]) (\<lambda>res.
     decode_response cl (file_of_json (cl_rfc3339 cl)) (rs_body res))"

definition client_media :: "'e drive_client \<Rightarrow> duration \<Rightarrow> string \<Rightarrow> ('e, frame list) call" where
  "client_media cl limit i =
     try_call (simple_call cl limit ''GET'' (file_url cl i) [(''acknowledgeAbuse'', ''true''), (''alt'', ''media'')]) (\<lambda>res.
     done_call (Inr (rs_body res)))"

definition client_delete :: "'e drive_client \<Rightarrow> duration \<Rightarrow> string \<Rightarrow> ('e, unit) call" where
  "client_delete cl limit i =
     try_call (simple_call cl limit ''DELETE'' (file_url cl i) []) (\<lambda>res. done_call (Inr ()))"

section \<open>Resumable upload\<close>

definition MAX_UPLOAD_SIZE :: nat where "MAX_UPLOAD_SIZE = 5497558138880"
definition UPLOAD_CHUNK_SIZE :: nat where "UPLOAD_CHUNK_SIZE = 2 ^ 23"
definition PERMANENT_REDIRECT :: "16 word" where "PERMANENT_REDIRECT = 308"

text \<open>The header \<^verbatim>\<open>Content-Range\<close>; the end of an empty range wraps.\<close>

definition content_range :: "nat \<Rightarrow> nat \<Rightarrow> nat \<Rightarrow> string" where
  "content_range first len whole =
     ''bytes '' @ show_nat first @ ''-'' @ show_nat (unat (of_nat first + of_nat len - 1 :: 64 word)) @ ''/'' @ show_nat whole"

definition chunk_request :: "'e drive_client \<Rightarrow> string \<Rightarrow> bytes \<Rightarrow> nat \<Rightarrow> http_request" where
  "chunk_request cl session content first =
     (let len = min UPLOAD_CHUNK_SIZE (length content - first)
      in \<lparr>rq_method = ''POST'', rq_url = session,
          rq_headers = [(''content-range'', content_range first len (length content)),
                        (''content-type'', ''application/octet-stream''), (''user-agent'', cl_user_agent cl)],
          rq_body = take len (drop first content)\<rparr>)"

text \<open>\<^verbatim>\<open>ResumableUploadHelper::upload\<close> from \<open>first\<close> on: as long as the server answers 308, the next chunk follows.\<close>

fun upload_loop ::
  "'e drive_client \<Rightarrow> duration \<Rightarrow> string \<Rightarrow> bytes \<Rightarrow> nat \<Rightarrow> nat \<Rightarrow> ('e, http_response) call" where
  "upload_loop cl limit session content 0 first w = (None, w)"
| "upload_loop cl limit session content (Suc n) first w =
     try_call (map_io (map_option (map_err GdHttpError)) (cl_request cl limit (chunk_request cl session content first)))
       (\<lambda>res w'.
         if rs_status res = PERMANENT_REDIRECT
         then upload_loop cl limit session content n (first + min UPLOAD_CHUNK_SIZE (length content - first)) w'
         else (map_option (\<lambda>bytes. Inr (res\<lparr>rs_body := [frame.Data bytes]\<rparr>)) (collect_body (rs_body res)), w')) w"

definition client_create :: "'e drive_client \<Rightarrow> duration \<Rightarrow> gfile \<Rightarrow> string \<Rightarrow> bytes \<Rightarrow> ('e, gfile) call" where
  "client_create cl limit meta wanted content =
     try_call (done_call (full_url cl (cl_root_url cl @ ''resumable/upload/drive/v3/files'')
       [(''fields'', wanted), (''alt'', ''json''), (''uploadType'', ''resumable'')])) (\<lambda>u.
     try_call (get_token cl limit) (\<lambda>token.
     try_call (send_request cl limit
       \<lparr>rq_method = ''POST'', rq_url = u,
        rq_headers = [(''user-agent'', cl_user_agent cl)] @ bearer token
          @ [(''x-upload-content-type'', ''application/octet-stream''), (''content-type'', ''application/json'')],
        rq_body = cl_metadata cl meta\<rparr>) (\<lambda>res.
     if length content > MAX_UPLOAD_SIZE
     then done_call (Inl (GdOther (''The media size '' @ show_nat (length content)
            @ '' exceeds the maximum allowed upload size of '' @ show_nat MAX_UPLOAD_SIZE @ [CHR 0x0A])))
     else case find (\<lambda>(k, v). eq_ignore_ascii_case k ''location'') (rs_headers res) of
            None \<Rightarrow> done_call (Inl gd_panic)
          | Some (k, session) \<Rightarrow>
              if token = None then done_call (Inl (GdMissingToken ''resumable upload requires token''))
              else
                try_call (upload_loop cl limit session content (cl_upload_requests cl) 0) (\<lambda>res.
                if \<not> is_success (rs_status res) then done_call (Inl (GdFailure (rs_status res)))
                else decode_response cl (file_of_json (cl_rfc3339 cl)) (rs_body res)))))"

definition client_hub :: "'e drive_client \<Rightarrow> 'e drive_hub" where
  "client_hub cl =
     \<lparr>hub_list = client_list cl, hub_get = client_get cl, hub_media = client_media cl,
      hub_create = client_create cl, hub_delete = client_delete cl, hub_sleep = cl_sleep cl\<rparr>"

section \<open>Queries arrive as they are meant\<close>

lemma in_range_byte: "in_range lo hi c \<longleftrightarrow> lo \<le> byte c \<and> byte c \<le> hi"
  by (simp add: in_range_def)

lemma unchanged_plain:
  assumes "byte_serialized_unchanged c"
  shows "c \<noteq> CHR ''%''" "c \<noteq> CHR ''+''" "c \<noteq> CHR ''&''" "c \<noteq> CHR ''=''" "c \<noteq> CHR ''#''" "c \<noteq> CHR ''?''" "c \<noteq> CHR '' ''"
  using assms by (auto simp: byte_serialized_unchanged_def in_range_byte byte_def)

lemma hex_upper_plain:
  assumes "d < 16"
  shows "hex_upper d \<noteq> CHR ''+''" "hex_upper d \<noteq> CHR ''&''" "hex_upper d \<noteq> CHR ''=''" "hex_upper d \<noteq> CHR ''#''"
proof -
  have "byte (hex_upper d) \<noteq> byte c" if "byte c < 48 \<or> byte c = 61" for c
    using that assms by (auto simp: byte_hex_upper)
  from this [of "CHR ''+''"] this [of "CHR ''&''"] this [of "CHR ''=''"] this [of "CHR ''#''"]
  show "hex_upper d \<noteq> CHR ''+''" "hex_upper d \<noteq> CHR ''&''" "hex_upper d \<noteq> CHR ''=''" "hex_upper d \<noteq> CHR ''#''"
    by (auto simp: byte_def)
qed

lemma serialized_plain: "c \<in> set (byte_serialize s) \<Longrightarrow> c \<noteq> CHR ''&'' \<and> c \<noteq> CHR ''='' \<and> c \<noteq> CHR ''#''"
proof (induction s)
  case (Cons d s)
  then show ?case
    by (auto simp: unchanged_plain percent_encode_byte_def hex_upper_plain hex_upper_plain [symmetric] dest: unchanged_plain split: if_splits)
qed simp

lemma decode_serialize:
  "percent_decode (map (\<lambda>c. if c = CHR ''+'' then CHR '' '' else c) (byte_serialize s)) = s"
proof (induction s)
  case (Cons c s)
  then show ?case
    by (auto simp: unchanged_plain percent_encode_byte_def hex_upper_plain after_percent_encoded)
qed simp

lemma form_decode_serialize: "form_decode (byte_serialize s) = from_utf8_lossy s"
  by (simp add: form_decode_def decode_serialize)

text \<open>A query as the pairs of its serialisation.\<close>

definition pair_text :: "string \<times> string \<Rightarrow> string" where
  "pair_text p = byte_serialize (fst p) @ ''='' @ byte_serialize (snd p)"

lemma pair_text_plain: "CHR ''&'' \<notin> set (pair_text p)" "pair_text p \<noteq> []"
  using serialized_plain by (auto simp: pair_text_def)

lemma append_pair_text: "append_pair q p = (if q \<noteq> [] then q @ ''&'' else q) @ pair_text p"
  by (simp add: append_pair_def pair_text_def)

lemma split_extend: "q \<noteq> [] \<Longrightarrow> split_on (CHR ''&'') (extend_pairs q ps) = split_on (CHR ''&'') q @ map pair_text ps"
proof (induction ps arbitrary: q)
  case (Cons p ps)
  have "split_on (CHR ''&'') (q @ ''&'' @ pair_text p) = split_on (CHR ''&'') q @ [pair_text p]"
    using split_on_append [of "CHR ''&''" q "CHR ''&'' # pair_text p"] split_on_none [OF pair_text_plain(1)] by simp
  then show ?case
    using Cons.IH [of "q @ ''&'' @ pair_text p"] Cons.prems by (simp add: extend_pairs_def append_pair_text)
qed (simp add: extend_pairs_def)

lemma split_query: "ps \<noteq> [] \<Longrightarrow> split_on (CHR ''&'') (extend_pairs [] ps) = map pair_text ps"
proof (cases ps)
  case (Cons p ps')
  have "extend_pairs [] ps = extend_pairs (pair_text p) ps'" by (simp add: Cons extend_pairs_def append_pair_text)
  then show ?thesis
    using Cons split_extend [OF pair_text_plain(2), of p ps'] split_on_none [OF pair_text_plain(1)] by simp
qed simp

lemma split_pair_text:
  "takeWhile (\<lambda>c. c \<noteq> CHR ''='') (pair_text p) = byte_serialize (fst p)"
  "drop 1 (dropWhile (\<lambda>c. c \<noteq> CHR ''='') (pair_text p)) = byte_serialize (snd p)"
proof -
  have "\<forall>c\<in>set (byte_serialize (fst p)). c \<noteq> CHR ''=''" using serialized_plain by blast
  then show "takeWhile (\<lambda>c. c \<noteq> CHR ''='') (pair_text p) = byte_serialize (fst p)"
    "drop 1 (dropWhile (\<lambda>c. c \<noteq> CHR ''='') (pair_text p)) = byte_serialize (snd p)"
    by (simp_all add: pair_text_def takeWhile_append2 dropWhile_append2)
qed

lemma form_parse_extend:
  "form_parse (extend_pairs [] ps) = map (\<lambda>p. (from_utf8_lossy (fst p), from_utf8_lossy (snd p))) ps"
proof (cases "ps = []")
  case True
  then show ?thesis by (simp add: form_parse_def extend_pairs_def)
next
  case False
  then show ?thesis
    using pair_text_plain(2)
    by (simp add: form_parse_def split_query filter_id_conv split_pair_text form_decode_serialize del: One_nat_def)
qed

lemma query_plain: "CHR ''#'' \<notin> set q \<Longrightarrow> CHR ''#'' \<notin> set (extend_pairs q ps)"
proof (induction ps arbitrary: q)
  case (Cons p ps)
  have "CHR ''#'' \<notin> set (append_pair q p)" using Cons.prems serialized_plain by (auto simp: append_pair_def)
  then show ?case using Cons.IH by (simp add: extend_pairs_def)
qed (simp add: extend_pairs_def)

lemma show_nat_ascii: "is_ascii (show_nat n)"
proof -
  have "byte c < 128" if "is_digit c" for c
    using that by (auto simp: is_digit_def digit_val_def byte_def Let_def split: if_splits)
  then show ?thesis using show_nat_digits by (auto simp: is_ascii_def list_all_iff)
qed

lemma utf8_show_int: "utf8_valid (show_int n)"
  by (rule utf8_valid_ascii) (use show_nat_ascii in \<open>auto simp: show_int_def is_ascii_def byte_def\<close>)

lemma request_Inr_iff:
  "try_call (map_io (map_option (map_err f)) m) k w = (Some (Inr y), w') \<longleftrightarrow>
     (\<exists>x v. m w = (Some (Inr x), v) \<and> k x v = (Some (Inr y), w'))"
proof (cases "m w")
  case (Pair r v)
  then show ?thesis by (cases r; cases "the r") (auto simp: try_call_def map_io_def)
qed

lemma try_call_done [simp]: "try_call (done_call (Inr x)) k = k x"
  by (rule ext) (simp add: try_call_def done_call_def)

lemma try_call_assoc: "try_call (try_call m k) k' = try_call m (\<lambda>x. try_call (k x) k')"
  by (rule ext) (simp add: try_call_def split: prod.split option.split sum.split)

text \<open>
  Claim C33 (list_query_intact). A listing leaves the server as one GET request whose query, read the way a web
  server reads it, consists of exactly the parameters of the call, each with its value: no character of a
  query, a page token or a field list can end its parameter, add another one, or cut off the rest.
\<close>

theorem list_query_intact:
  assumes "cl_parse_url cl (cl_base_url cl @ ''files'') = Some \<lparr>u_before = b, u_query = None, u_fragment = None\<rparr>"
    and "utf8_valid (lc_q c)" and "utf8_valid (lc_order_by c)" and "utf8_valid (lc_fields c)"
    and "\<forall>t. lc_page_token c = Some t \<longrightarrow> utf8_valid t"
  shows "\<exists>q. client_list cl limit c =
      try_call (get_token cl limit) (\<lambda>token.
      try_call (send_request cl limit
        \<lparr>rq_method = ''GET'', rq_url = b @ ''?'' @ q,
         rq_headers = [(''user-agent'', cl_user_agent cl)] @ bearer token @ [(''content-length'', ''0'')], rq_body = []\<rparr>) (\<lambda>res.
      decode_response cl (file_list_of_json (cl_rfc3339 cl)) (rs_body res)))
    \<and> form_parse q = list_params c \<and> CHR ''#'' \<notin> set q"
proof (intro exI conjI)
  let ?q = "extend_pairs [] (list_params c)"
  show "client_list cl limit c =
      try_call (get_token cl limit) (\<lambda>token.
      try_call (send_request cl limit
        \<lparr>rq_method = ''GET'', rq_url = b @ ''?'' @ ?q,
         rq_headers = [(''user-agent'', cl_user_agent cl)] @ bearer token @ [(''content-length'', ''0'')], rq_body = []\<rparr>) (\<lambda>res.
      decode_response cl (file_list_of_json (cl_rfc3339 cl)) (rs_body res)))"
    using assms(1)
    by (simp add: client_list_def simple_call_def full_url_def parse_with_params_def url_as_str_def try_call_assoc)
  have "\<forall>p\<in>set (list_params c). utf8_valid (fst p) \<and> utf8_valid (snd p)"
    using assms(2-5) by (auto simp: list_params_def utf8_valid_ascii utf8_show_int is_ascii_def byte_def split: option.splits)
  then show "form_parse ?q = list_params c"
    unfolding form_parse_extend by (intro map_idI) (simp add: from_utf8_lossy_id)
  show "CHR ''#'' \<notin> set ?q"
    by (rule query_plain) simp
qed

section \<open>Uploads arrive whole\<close>

text \<open>
  What the client relies on of an upload session: a chunk that starts where the stored data end is
  stored when it is answered with 308 or with success, and success is answered only when the data are
  complete. The client sends the next chunk after a 308 without a look at the header \<^verbatim>\<open>Range\<close> of the answer, so
  it relies on the chunk being stored whole. \<open>stored\<close> are the data of the session.
\<close>

definition session_ok :: "'e drive_client \<Rightarrow> duration \<Rightarrow> string \<Rightarrow> bytes \<Rightarrow> ('e world \<Rightarrow> bytes) \<Rightarrow> bool" where
  "session_ok cl limit session content stored \<longleftrightarrow>
     (\<forall>w res w'. length (stored w) \<le> length content
          \<and> cl_request cl limit (chunk_request cl session content (length (stored w))) w = (Some (Inr res), w') \<longrightarrow>
        (rs_status res = PERMANENT_REDIRECT \<or> is_success (rs_status res) \<longrightarrow>
           stored w' = stored w @ rq_body (chunk_request cl session content (length (stored w))))
        \<and> (is_success (rs_status res) \<longrightarrow> length (stored w') = length content))"

lemma redirect_no_success: "\<not> is_success PERMANENT_REDIRECT"
  by (simp add: is_success_def PERMANENT_REDIRECT_def)

lemma chunk_body: "rq_body (chunk_request cl session content first) = take (min UPLOAD_CHUNK_SIZE (length content - first)) (drop first content)"
  by (simp add: chunk_request_def Let_def)

lemma next_prefix:
  "s = take (length s) content \<Longrightarrow> s @ take k (drop (length s) content) = take (length s + k) content"
  by (metis take_add)

lemma upload_loop_stores:
  assumes "session_ok cl limit session content stored"
  shows "upload_loop cl limit session content n (length (stored w)) w = (Some (Inr res), w') \<Longrightarrow>
    is_success (rs_status res) \<Longrightarrow> stored w = take (length (stored w)) content \<Longrightarrow> stored w' = content"
proof (induction n arbitrary: w)
  case (Suc n)
  let ?first = "length (stored w)" and ?k = "min UPLOAD_CHUNK_SIZE (length content - length (stored w))"
  obtain r v where r: "cl_request cl limit (chunk_request cl session content ?first) w = (Some (Inr r), v)"
    "(if rs_status r = PERMANENT_REDIRECT then upload_loop cl limit session content n (?first + ?k) v
      else (map_option (\<lambda>bytes. Inr (r\<lparr>rs_body := [frame.Data bytes]\<rparr>)) (collect_body (rs_body r)), v)) = (Some (Inr res), w')"
    using Suc.prems(1) unfolding upload_loop.simps request_Inr_iff by blast
  have le: "?first \<le> length content" using Suc.prems(3) by (metis length_take min.cobounded1 min.commute)
  note ok = assms [unfolded session_ok_def, rule_format, OF conjI [OF le r(1)], unfolded chunk_body]
  have grow: "stored w @ take ?k (drop ?first content) = take (?first + ?k) content"
    by (rule next_prefix [OF Suc.prems(3)])
  show ?case
  proof (cases "rs_status r = PERMANENT_REDIRECT")
    case True
    then have v: "stored v = take (?first + ?k) content" using ok grow by simp
    then have len: "length (stored v) = ?first + ?k" using le by simp
    show ?thesis
      by (rule Suc.IH [of v]) (use r(2) True len v Suc.prems(2) in auto)
  next
    case False
    then have "w' = v" "rs_status res = rs_status r" using r(2) by auto
    then show ?thesis using ok grow Suc.prems(2) by (metis length_take min.absorb_iff2 nat_le_linear take_all)
  qed
qed simp

text \<open>
  What Drive promises of uploads: the sessions as above, and that a session is empty when it is opened.
  \<open>stored\<close> are the data of the session with a given URL.
\<close>

definition opens_session :: "http_request \<Rightarrow> bool" where
  "opens_session rq \<longleftrightarrow> list_ex (\<lambda>(k, v). k = ''x-upload-content-type'') (rq_headers rq)"

definition location_of :: "http_response \<Rightarrow> (string \<times> string) option" where
  "location_of res = find (\<lambda>(k, v). eq_ignore_ascii_case k ''location'') (rs_headers res)"

definition drive_uploads :: "'e drive_client \<Rightarrow> duration \<Rightarrow> (string \<Rightarrow> 'e world \<Rightarrow> bytes) \<Rightarrow> bool" where
  "drive_uploads cl limit stored \<longleftrightarrow>
     (\<forall>session content. session_ok cl limit session content (stored session))
     \<and> (\<forall>rq w res w' k session. opens_session rq \<and> cl_request cl limit rq w = (Some (Inr res), w') \<and> is_success (rs_status res)
          \<and> location_of res = Some (k, session) \<longrightarrow> stored session w' = [])"

lemma send_request_Inr:
  assumes "send_request cl limit rq w = (Some (Inr res), w')"
  shows "cl_request cl limit rq w = (Some (Inr res), w')" "is_success (rs_status res)"
  using assms unfolding send_request_def request_Inr_iff by (auto split: if_splits)

lemma try_call_Inr_iff:
  "try_call m k w = (Some (Inr y), w') \<longleftrightarrow> (\<exists>x v. m w = (Some (Inr x), v) \<and> k x v = (Some (Inr y), w'))"
proof (cases "m w")
  case (Pair r v)
  then show ?thesis by (cases r; cases "the r") (auto simp: try_call_def)
qed

lemma decode_keeps_world: "decode_response cl dec fs w = (r, w') \<Longrightarrow> w' = w"
  by (simp add: decode_response_def)

lemma create_stores:
  assumes "drive_uploads cl limit stored"
    and "client_create cl limit meta wanted content w = (Some (Inr created), w')"
  shows "\<exists>session. stored session w' = content"
proof -
  obtain rq res w1 w2 k session where *:
    "send_request cl limit rq w1 = (Some (Inr res), w2)" "opens_session rq"
    "location_of res = Some (k, session)"
    "try_call (upload_loop cl limit session content (cl_upload_requests cl) 0) (\<lambda>res.
        if \<not> is_success (rs_status res) then done_call (Inl (GdFailure (rs_status res)))
        else decode_response cl (file_of_json (cl_rfc3339 cl)) (rs_body res)) w2 = (Some (Inr created), w')"
  proof -
    obtain u token v1 v2 v3 res where steps:
      "send_request cl limit
         \<lparr>rq_method = ''POST'', rq_url = u,
          rq_headers = [(''user-agent'', cl_user_agent cl)] @ bearer token
            @ [(''x-upload-content-type'', ''application/octet-stream''), (''content-type'', ''application/json'')],
          rq_body = cl_metadata cl meta\<rparr> v2 = (Some (Inr res), v3)"
      and rest: "(if length content > MAX_UPLOAD_SIZE
         then done_call (Inl (GdOther (''The media size '' @ show_nat (length content)
                @ '' exceeds the maximum allowed upload size of '' @ show_nat MAX_UPLOAD_SIZE @ [CHR 0x0A])))
         else case find (\<lambda>(k, v). eq_ignore_ascii_case k ''location'') (rs_headers res) of
                None \<Rightarrow> done_call (Inl gd_panic)
              | Some (k, session) \<Rightarrow>
                  if token = None then done_call (Inl (GdMissingToken ''resumable upload requires token''))
                  else
                    try_call (upload_loop cl limit session content (cl_upload_requests cl) 0) (\<lambda>res.
                    if \<not> is_success (rs_status res) then done_call (Inl (GdFailure (rs_status res)))
                    else decode_response cl (file_of_json (cl_rfc3339 cl)) (rs_body res))) v3 = (Some (Inr created), w')"
      using assms(2) unfolding client_create_def try_call_Inr_iff by blast
    obtain k session where "location_of res = Some (k, session)"
      "try_call (upload_loop cl limit session content (cl_upload_requests cl) 0) (\<lambda>res.
          if \<not> is_success (rs_status res) then done_call (Inl (GdFailure (rs_status res)))
          else decode_response cl (file_of_json (cl_rfc3339 cl)) (rs_body res)) v3 = (Some (Inr created), w')"
      using rest by (auto simp: location_of_def done_call_def split: if_splits option.splits)
    with that [OF steps] show ?thesis by (simp add: opens_session_def)
  qed
  have fresh: "stored session w2 = []"
    using assms(1) send_request_Inr [OF *(1)] *(2,3) by (auto simp: drive_uploads_def)
  obtain r v where r: "upload_loop cl limit session content (cl_upload_requests cl) 0 w2 = (Some (Inr r), v)"
    "is_success (rs_status r)" "w' = v"
    using *(4) unfolding try_call_Inr_iff by (auto simp: done_call_def dest: decode_keeps_world split: if_splits)
  have "session_ok cl limit session content (stored session)" using assms(1) by (simp add: drive_uploads_def)
  from upload_loop_stores [OF this, of _ w2] have "stored session v = content" using r(1,2) fresh by simp
  then show ?thesis using r(3) by blast
qed


section \<open>Witnesses\<close>

text \<open>
  A client whose server keeps one upload session: it stores every chunk, and a chunk that is not full is
  the last one.
\<close>

definition demo_answer :: json where
  "demo_answer = JObject [(''id'', JString ''b''), (''name'', JString ''backup_x.pgdump''), (''createdTime'', JString ''t''),
     (''parents'', JArray [JString ''folder1''])]"

definition demo_client :: "bytes drive_client" where
  "demo_client =
     \<lparr>cl_user_agent = ''ua'', cl_base_url = ''http://d/drive/v3/'', cl_root_url = ''http://d/'',
      cl_get_token = (\<lambda>limit scopes w. (Some (Inr (Some ''t'')), w)),
      cl_request = (\<lambda>limit rq w.
        if opens_session rq
        then (Some (Inr \<lparr>rs_status = 200, rs_headers = [(''location'', ''http://d/s'')], rs_body = []\<rparr>), w\<lparr>outside := []\<rparr>)
        else (Some (Inr \<lparr>rs_status = (if length (rq_body rq) < UPLOAD_CHUNK_SIZE then 200 else 308), rs_headers = [],
                         rs_body = [frame.Data ''{}'']\<rparr>), w\<lparr>outside := outside w @ rq_body rq\<rparr>)),
      cl_parse_url = (\<lambda>s. Some \<lparr>u_before = s, u_query = None, u_fragment = None\<rparr>),
      cl_from_str = (\<lambda>s. Inr demo_answer), cl_type_error = (\<lambda>s. []), cl_rfc3339 = (\<lambda>s. Some demo_time),
      cl_metadata = (\<lambda>f. ''{}''), cl_upload_requests = 1, cl_sleep = (\<lambda>d w. w)\<rparr>"

definition demo_upload_world :: "bytes world" where
  "demo_upload_world = \<lparr>files = [''/f'' \<mapsto> ''dump!''], faults = [], rand_names = [], outside = []\<rparr>"

definition demo_upload :: upload_request where
  "demo_upload = pg_dump ''/f'' ''db'' Regular demo_time"

theorem list_query_intact_witness:
  "\<exists>q. form_parse q = list_params (list_request (folder_query ''f'') 10 (Some ''a&b=c#d'')) \<and> CHR ''#'' \<notin> set q"
proof -
  let ?c = "list_request (folder_query ''f'') 10 (Some ''a&b=c#d'')"
  have "cl_parse_url demo_client (cl_base_url demo_client @ ''files'') =
      Some \<lparr>u_before = ''http://d/drive/v3/files'', u_query = None, u_fragment = None\<rparr>"
    by (simp add: demo_client_def)
  moreover have "utf8_valid (lc_q ?c)" "utf8_valid (lc_order_by ?c)" "utf8_valid (lc_fields ?c)"
    "\<forall>t. lc_page_token ?c = Some t \<longrightarrow> utf8_valid t"
    by (simp_all add: list_request_def folder_query_def) (rule utf8_valid_ascii, code_simp)+
  ultimately show ?thesis using list_query_intact [of demo_client _ ?c] by blast
qed

lemma demo_drive_uploads: "drive_uploads demo_client limit (\<lambda>session w. outside w)"
proof -
  have no: "\<not> opens_session (chunk_request demo_client session content first)" for session content first
    by (simp add: opens_session_def chunk_request_def Let_def)
  show ?thesis
    by (auto simp: drive_uploads_def session_ok_def no demo_client_def is_success_def PERMANENT_REDIRECT_def
        chunk_request_def Let_def opens_session_def)
qed

lemma demo_answer_read: "file_of_json (\<lambda>s. Some demo_time) demo_answer = Some (demo_file ''b'' ''backup_x.pgdump'')"
  by (simp add: file_of_json_def demo_answer_def demo_file_def default_file_def opt_field_def json_list_def json_get_def json_as_str_def)

lemma demo_create:
  "client_create demo_client limit meta wanted ''dump!'' w = (Some (Inr (demo_file ''b'' ''backup_x.pgdump'')), w\<lparr>outside := ''dump!''\<rparr>)"
  by (simp add: client_create_def demo_client_def full_url_def parse_with_params_def get_token_def try_call_def map_io_def
      done_call_def send_request_def opens_session_def bearer_def is_success_def MAX_UPLOAD_SIZE_def
      eq_ignore_ascii_case_def chunk_request_def UPLOAD_CHUNK_SIZE_def PERMANENT_REDIRECT_def collect_body_def
      decode_response_def demo_answer_read)


end
