(* ===== verification/Storage_Tests.thy ===== *)
theory Storage_Tests
  imports Drive_Tests Fake_Drive Drive_Client
begin

text \<open>
  The unit tests of \<^verbatim>\<open>storage.rs\<close> of \<^verbatim>\<open>backup-gdrive\<close>, replayed on the model: the storage runs on the
  generated Drive client, which talks to the canned server of \<^verbatim>\<open>fake.rs\<close>. Between the two stands an HTTP
  exchange that is shown to be what the server does with the text of the request.
\<close>

section \<open>The client of the tests\<close>

text \<open>
  What the tests take from libraries: the address of the server, the parser of URLs, the JSON
  reader, the parser of times, MD5 in hexadecimal, the JSON of a file, the text of a decoding error, and how
  the network cuts a body.
\<close>

record test_env =
  te_base :: string
  te_parse_url :: "string \<Rightarrow> url option"
  te_from_str :: "string \<Rightarrow> string + json"
  te_rfc3339 :: "string \<Rightarrow> datetime option"
  te_md5 :: "bytes \<Rightarrow> string"
  te_metadata :: "gfile \<Rightarrow> bytes"
  te_type_error :: "string \<Rightarrow> string"
  te_cut :: "bytes \<Rightarrow> bytes list"

text \<open>The state of the server: the replies that are left, and the requests it has seen.\<close>

record fake_net =
  fn_replies :: "reply list"
  fn_requests :: "string list"

definition request_line :: "string \<Rightarrow> http_request \<Rightarrow> string" where
  "request_line base rq = rq_method rq @ '' '' @ drop (length base) (rq_url rq)"

definition response_of :: "test_env \<Rightarrow> reply \<Rightarrow> http_response" where
  "response_of e r =
     \<lparr>rs_status = rp_status r,
      rs_headers = (''Content-Length'', show_nat (length (rp_body r))) # rp_headers r,
      rs_body = map frame.Data (te_cut e (rp_body r))\<rparr>"

definition fake_request ::
  "test_env \<Rightarrow> duration \<Rightarrow> http_request \<Rightarrow> (fake_net world, (string + http_response) option) io" where
  "fake_request e limit rq w =
     (let log = fn_requests (outside w) @ [request_line (te_base e) rq]
      in case fn_replies (outside w) of
           [] \<Rightarrow> (Some (Inl ''connection closed''), w\<lparr>outside := \<lparr>fn_replies = [], fn_requests = log\<rparr>\<rparr>)
         | r # rs \<Rightarrow> (Some (Inr (response_of e r)), w\<lparr>outside := \<lparr>fn_replies = rs, fn_requests = log\<rparr>\<rparr>))"

definition static_token :: "duration \<Rightarrow> string list \<Rightarrow> (fake_net world, (string + string option) option) io" where
  "static_token limit scopes w = (Some (Inr (Some ''test-token'')), w)"

definition test_hub :: "test_env \<Rightarrow> fake_net drive_client" where
  "test_hub e =
     \<lparr>cl_user_agent = ''google-api-rust-client/7.0.0'',
      cl_base_url = te_base e @ ''/drive/v3/'', cl_root_url = te_base e @ ''/'',
      cl_get_token = static_token, cl_request = fake_request e, cl_parse_url = te_parse_url e,
      cl_from_str = te_from_str e, cl_type_error = te_type_error e, cl_rfc3339 = te_rfc3339 e,
      cl_metadata = te_metadata e, cl_upload_requests = 1, cl_sleep = (\<lambda>d w. w)\<rparr>"

section \<open>Helpers of the tests\<close>

definition FOLDER :: string where "FOLDER = ''folder1''"

definition test_opts :: "nat \<Rightarrow> drive_options" where
  "test_opts n =
     \<lparr>request_timeout = from_secs 5, upload_timeout = from_secs 5, read_idle_timeout = from_secs 5,
      opt_retry = \<lparr>attempts = n, base_delay = from_millis 1, max_delay = from_millis 2\<rparr>\<rparr>"

definition test_storage :: "test_env \<Rightarrow> nat \<Rightarrow> fake_net gdrive" where
  "test_storage e n = \<lparr>hub = client_hub (test_hub e), folder_id = FOLDER, opts = test_opts n\<rparr>"

text \<open>JSON objects have their keys in order, as the map of \<^verbatim>\<open>serde_json\<close> keeps them.\<close>

definition file_json :: "string \<Rightarrow> string \<Rightarrow> string \<Rightarrow> json" where
  "file_json i parent md5 =
     JObject [(''appProperties'', JObject [(''format'', JString ''pg_custom''), (''kind'', JString ''regular'')]),
       (''createdTime'', JString ''2026-01-01T00:00:00Z''), (''id'', JString i), (''md5Checksum'', JString md5),
       (''name'', JString (''backup_tracker_'' @ i @ ''.pgdump'')), (''parents'', JArray [JString parent]),
       (''size'', JString ''5'')]"

definition foreign_file_json :: "string \<Rightarrow> json" where
  "foreign_file_json i =
     JObject [(''createdTime'', JString ''2026-02-01T00:00:00Z''), (''id'', JString i), (''name'', JString ''notes.txt''),
       (''parents'', JArray [JString FOLDER])]"

text \<open>\<^verbatim>\<open>value[key] = new\<close> for a key that is there.\<close>

fun json_replace :: "string \<Rightarrow> json \<Rightarrow> json \<Rightarrow> json" where
  "json_replace k new (JObject m) = JObject (map (\<lambda>(k', v). (k', if k' = k then new else v)) m)"
| "json_replace k new v = v"

definition error_json :: "64 word \<Rightarrow> string \<Rightarrow> string \<Rightarrow> json" where
  "error_json code message reason =
     JObject [(''error'', JObject [(''code'', JNumber (PosInt code)),
       (''errors'', JArray [JObject [(''reason'', JString reason)]]), (''message'', JString message)])]"

definition drive_error :: "16 word \<Rightarrow> reply" where
  "drive_error code = reply_json code (error_json (ucast code) ''boom'' ''x'')"

definition files_json :: "json list \<Rightarrow> json" where
  "files_json fs = JObject [(''files'', JArray fs)]"

definition files_page_json :: "json list \<Rightarrow> string \<Rightarrow> json" where
  "files_page_json fs token = JObject [(''files'', JArray fs), (''nextPageToken'', JString token)]"

text \<open>The world in which the server is about to give these replies.\<close>

definition fake_world :: "(path \<rightharpoonup> bytes) \<Rightarrow> reply list \<Rightarrow> fake_net world" where
  "fake_world fs replies =
     \<lparr>files = fs, faults = [], rand_names = [], outside = \<lparr>fn_replies = replies, fn_requests = []\<rparr>\<rparr>"

definition requests :: "fake_net world \<Rightarrow> string list" where
  "requests w = fn_requests (outside w)"

section \<open>Listing\<close>

definition test_list_retries_transient_error :: "test_env \<Rightarrow> bool" where
  "test_list_retries_transient_error e \<longleftrightarrow>
     (case gd_list (test_storage e 3) 10 (Some ''t1'')
         (fake_world Map.empty [drive_error 503, reply_json 200 (files_page_json [file_json ''f1'' FOLDER ''m''] ''t2'')]) of
        (Inr page, w) \<Rightarrow>
          length (items page) = 1 \<and> b_format (items page ! 0) = PgCustom \<and> next_page_token page = Some ''t2''
          \<and> length (requests w) = 2 \<and> contains (requests w ! 1) ''orderBy=createdTime''
          \<and> contains (requests w ! 1) ''pageToken=t1'' \<and> contains (requests w ! 1) ''folder1''
      | _ \<Rightarrow> False)"

definition test_list_skips_files_that_are_not_backups :: "test_env \<Rightarrow> bool" where
  "test_list_skips_files_that_are_not_backups e \<longleftrightarrow>
     (let foreign = json_replace ''appProperties'' JNull
            (json_replace ''name'' (JString ''notes.txt'') (file_json ''x'' FOLDER ''m''))
      in case gd_list (test_storage e 1) 10 None
           (fake_world Map.empty [reply_json 200 (files_json [foreign, file_json ''f1'' FOLDER ''m''])]) of
          (Inr page, w) \<Rightarrow> length (items page) = 1 \<and> b_id (items page ! 0) = ''f1''
        | _ \<Rightarrow> False)"

definition test_plain_text_forbidden_is_not_retried :: "test_env \<Rightarrow> bool" where
  "test_plain_text_forbidden_is_not_retried e \<longleftrightarrow>
     (case gd_list (test_storage e 3) 10 None
         (fake_world Map.empty
           [\<lparr>rp_status = 403, rp_headers = [(''Content-Type'', ''text/plain'')], rp_body = ''forbidden''\<rparr>]) of
        (Inl (Storage _), w) \<Rightarrow> length (requests w) = 1
      | _ \<Rightarrow> False)"

definition test_rate_limited_forbidden_is_retried :: "test_env \<Rightarrow> bool" where
  "test_rate_limited_forbidden_is_retried e \<longleftrightarrow>
     (case gd_list (test_storage e 3) 10 None
         (fake_world Map.empty
           [reply_json 403 (error_json 403 ''slow down'' ''rateLimitExceeded''), reply_json 200 (files_json [])]) of
        (Inr page, w) \<Rightarrow> length (requests w) = 2
      | _ \<Rightarrow> False)"

definition test_bad_page_token_is_invalid_argument :: "test_env \<Rightarrow> bool" where
  "test_bad_page_token_is_invalid_argument e \<longleftrightarrow>
     (case gd_list (test_storage e 3) 10 (Some ''junk'') (fake_world Map.empty [drive_error 400]) of
        (Inl (InvalidArgument _), w) \<Rightarrow> length (requests w) = 1
      | _ \<Rightarrow> False)"

definition test_exhausted_retries_are_unavailable :: "test_env \<Rightarrow> bool" where
  "test_exhausted_retries_are_unavailable e \<longleftrightarrow>
     (case gd_list (test_storage e 2) 10 None (fake_world Map.empty [drive_error 503, drive_error 503]) of
        (Inl (Unavailable _), w) \<Rightarrow> True
      | _ \<Rightarrow> False)"

section \<open>The newest backup, and single files\<close>

definition test_latest_skips_newer_foreign_files :: "test_env \<Rightarrow> bool" where
  "test_latest_skips_newer_foreign_files e \<longleftrightarrow>
     (case gd_latest (test_storage e 1)
         (fake_world Map.empty
           [reply_json 200 (files_page_json [foreign_file_json ''n1''] ''t2''),
            reply_json 200 (files_json [foreign_file_json ''n2'', file_json ''f1'' FOLDER ''m''])]) of
        (Inr (Some newest), w) \<Rightarrow>
          b_id newest = ''f1'' \<and> length (requests w) = 2 \<and> contains (requests w ! 1) ''pageToken=t2''
      | _ \<Rightarrow> False)"

definition test_latest_with_only_foreign_files :: "test_env \<Rightarrow> bool" where
  "test_latest_with_only_foreign_files e \<longleftrightarrow>
     fst (gd_latest (test_storage e 1)
       (fake_world Map.empty [reply_json 200 (files_json [foreign_file_json ''n1''])])) = Inr None"

definition test_latest_on_empty_folder :: "test_env \<Rightarrow> bool" where
  "test_latest_on_empty_folder e \<longleftrightarrow>
     (case gd_latest (test_storage e 1) (fake_world Map.empty [reply_json 200 (files_json [])]) of
        (r, w) \<Rightarrow> r = Inr None \<and> contains (requests w ! 0) ''pre_restore'')"

definition test_get_rejects_file_outside_folder :: "test_env \<Rightarrow> bool" where
  "test_get_rejects_file_outside_folder e \<longleftrightarrow>
     (case gd_get (test_storage e 1) ''f1'' (fake_world Map.empty [reply_json 200 (file_json ''f1'' ''foreign'' ''m'')]) of
        (Inl (NotFound _), w) \<Rightarrow> True
      | _ \<Rightarrow> False)"

definition test_get_maps_404_without_retry :: "test_env \<Rightarrow> bool" where
  "test_get_maps_404_without_retry e \<longleftrightarrow>
     (case gd_get (test_storage e 3) ''missing'' (fake_world Map.empty [drive_error 404, drive_error 404]) of
        (Inl (NotFound _), w) \<Rightarrow> length (requests w) = 1
      | _ \<Rightarrow> False)"

section \<open>Downloads\<close>

definition test_download_writes_content_and_checks_md5 :: "test_env \<Rightarrow> path \<Rightarrow> bool" where
  "test_download_writes_content_and_checks_md5 e dir \<longleftrightarrow>
     (let content = concat (replicate 10000 ''pgdump-bytes''); dst = path_join dir ''x.pgdump'';
          drive = test_storage e 1
      in case try_io (gd_get drive ''f1'') (\<lambda>info. gd_download (te_md5 e) drive info dst)
           (fake_world Map.empty
             [reply_json 200 (file_json ''f1'' FOLDER (te_md5 e content)), reply_bytes content]) of
          (Inr _, w) \<Rightarrow> files w dst = Some content \<and> contains (requests w ! 1) ''alt=media''
        | _ \<Rightarrow> False)"

definition test_download_retries_on_checksum_mismatch :: "test_env \<Rightarrow> path \<Rightarrow> bool" where
  "test_download_retries_on_checksum_mismatch e dir \<longleftrightarrow>
     (let dst = path_join dir ''x.pgdump''; drive = test_storage e 2
      in case try_io (gd_get drive ''f1'') (\<lambda>info. gd_download (te_md5 e) drive info dst)
           (fake_world Map.empty
             [reply_json 200 (file_json ''f1'' FOLDER (te_md5 e ''good'')), reply_bytes ''corrupted'', reply_bytes ''good'']) of
          (Inr _, w) \<Rightarrow> files w dst = Some ''good''
        | _ \<Rightarrow> False)"

definition test_download_fails_on_persistent_checksum_mismatch :: "test_env \<Rightarrow> path \<Rightarrow> bool" where
  "test_download_fails_on_persistent_checksum_mismatch e dir \<longleftrightarrow>
     (let drive = test_storage e 2
      in case gd_get drive ''f1''
           (fake_world Map.empty
             [reply_json 200 (file_json ''f1'' FOLDER (te_md5 e ''good'')), reply_bytes ''bad'', reply_bytes ''bad'']) of
          (Inr info, w) \<Rightarrow>
            (case gd_download (te_md5 e) drive info (path_join dir ''x'') w of
               (Inl err, _) \<Rightarrow> contains (display_error err) ''Checksum mismatch''
             | _ \<Rightarrow> False)
        | _ \<Rightarrow> False)"

section \<open>Uploads\<close>

definition test_upload_resumable :: "test_env \<Rightarrow> path \<Rightarrow> datetime \<Rightarrow> bool" where
  "test_upload_resumable e dir now \<longleftrightarrow>
     (let src = path_join dir ''x.pgdump''; session = te_base e @ ''/upload/session-1''
      in case gd_upload (test_storage e 1) (pg_dump src ''tracker'' Regular now)
           (fake_world [src \<mapsto> ''dump!'']
             [\<lparr>rp_status = 200, rp_headers = [(''Location'', session)], rp_body = []\<rparr>,
              reply_json 200 (file_json ''new1'' FOLDER (te_md5 e ''dump!''))]) of
          (Inr info, w) \<Rightarrow>
            b_id info = ''new1'' \<and> starts_with (requests w ! 0) ''POST /resumable/upload/drive/v3/files''
            \<and> contains (requests w ! 0) ''uploadType=resumable'' \<and> contains (requests w ! 0) ''md5Checksum''
            \<and> requests w ! 1 = ''POST /upload/session-1''
        | _ \<Rightarrow> False)"

definition test_failed_upload_is_not_retried :: "test_env \<Rightarrow> path \<Rightarrow> datetime \<Rightarrow> bool" where
  "test_failed_upload_is_not_retried e dir now \<longleftrightarrow>
     (let src = path_join dir ''x.pgdump''
      in case gd_upload (test_storage e 3) (pg_dump src ''tracker'' Regular now)
           (fake_world [src \<mapsto> ''dump!''] [drive_error 503]) of
          (Inl (Unavailable _), w) \<Rightarrow> length (requests w) = 1
        | _ \<Rightarrow> False)"

section \<open>Deletion\<close>

definition test_bad_request_without_client_token_is_internal :: "test_env \<Rightarrow> bool" where
  "test_bad_request_without_client_token_is_internal e \<longleftrightarrow>
     (case gd_delete (test_storage e 3) ''x'' (fake_world Map.empty [drive_error 400]) of
        (Inl (Storage _), w) \<Rightarrow> length (requests w) = 1
      | _ \<Rightarrow> False)"

definition test_delete_retries_transient_error :: "test_env \<Rightarrow> bool" where
  "test_delete_retries_transient_error e \<longleftrightarrow>
     (case gd_delete (test_storage e 3) ''old''
         (fake_world Map.empty [drive_error 503, \<lparr>rp_status = 204, rp_headers = [], rp_body = []\<rparr>]) of
        (Inr _, w) \<Rightarrow> length (requests w) = 2
      | _ \<Rightarrow> False)"

definition test_delete_forbidden_fails :: "test_env \<Rightarrow> bool" where
  "test_delete_forbidden_fails e \<longleftrightarrow>
     (case gd_delete (test_storage e 3) ''old'' (fake_world Map.empty [drive_error 403]) of
        (Inl (Storage _), w) \<Rightarrow> length (requests w) = 1
      | _ \<Rightarrow> False)"

definition test_delete_treats_missing_file_as_deleted :: "test_env \<Rightarrow> bool" where
  "test_delete_treats_missing_file_as_deleted e \<longleftrightarrow>
     fst (gd_delete (test_storage e 1) ''gone'' (fake_world Map.empty [drive_error 404])) = Inr ()"

section \<open>The exchange is what the server does\<close>

lemma without_last_word_append: "CHR '' '' \<notin> set v \<Longrightarrow> without_last_word (l @ CHR '' '' # v) = l"
proof -
  assume v: "CHR '' '' \<notin> set v"
  have "dropWhile (\<lambda>x. x \<noteq> CHR '' '') (rev (l @ CHR '' '' # v)) = CHR '' '' # rev l"
    using v by (simp add: dropWhile_append2 dropWhile_append)
  then show ?thesis by (simp add: without_last_word_def)
qed

text \<open>
  The text of a request begins with its line. However the network cuts a request whose head is well
  formed, the server notes the line of \<^const>\<open>request_line\<close>, takes the next reply, and sends its head
  and its body, as \<^const>\<open>fake_request\<close> has it.
\<close>

lemma exchange_served:
  assumes "head = request_line base rq @ '' HTTP/1.1'' @ CRLF @ headers" and "request_ok head (rq_body rq)"
    and "utf8_valid head" and "CHR 0x0A \<notin> set (request_line base rq)"
    and "[] \<notin> set cs" and "concat cs = head @ rq_body rq"
  shows "serve_connection (r # replies) \<lparr>conn_reads = map Inr cs @ rest, conn_writes = []\<rparr> =
    (case serve_connection replies \<lparr>conn_reads = rest, conn_writes = []\<rparr> of
       (left, log, out) \<Rightarrow> (left, request_line base rq # log, (reply_head r @ rp_body r) @ out))"
proof -
  have "str_lines head = (request_line base rq @ '' HTTP/1.1'') # str_lines headers"
    using str_lines_crlf [of "request_line base rq @ '' HTTP/1.1''" headers] assms(1,4) by simp
  moreover have "without_last_word (request_line base rq @ '' HTTP/1.1'') = request_line base rq"
    using without_last_word_append [of "''HTTP/1.1''"] by simp
  ultimately have "first_line (from_utf8_lossy head) = Some (request_line base rq)"
    using assms(3) by (simp add: first_line_def from_utf8_lossy_id)
  then show ?thesis
    using read_request_pieces [OF assms(2,5,6), of rest] by (simp add: write_reply_def)
qed

section \<open>What the tests rely on\<close>

text \<open>
  A path of letters, digits, slashes and hyphens is parsed as it is; the network delivers bodies in
  full; the two times are times.
\<close>

definition plain_path :: "string \<Rightarrow> bool" where
  "plain_path p \<longleftrightarrow> starts_with p ''/'' \<and>
     list_all (\<lambda>c. c \<in> set ''/-'' \<or> in_range 48 57 c \<or> in_range 65 90 c \<or> in_range 97 122 c) p"

definition env_ok :: "test_env \<Rightarrow> bool" where
  "env_ok e \<longleftrightarrow>
     (\<forall>p. plain_path p \<longrightarrow>
        te_parse_url e (te_base e @ p) = Some \<lparr>u_before = te_base e @ p, u_query = None, u_fragment = None\<rparr>)
     \<and> (\<forall>b. concat (te_cut e b) = b)
     \<and> te_rfc3339 e ''2026-01-01T00:00:00Z'' \<noteq> None \<and> te_rfc3339 e ''2026-02-01T00:00:00Z'' \<noteq> None"

text \<open>The JSON reader reads back what was printed.\<close>

definition reads_json :: "test_env \<Rightarrow> json \<Rightarrow> bool" where
  "reads_json e j \<longleftrightarrow> te_from_str e (from_utf8_lossy (show_json j)) = Inr j"

section \<open>Calls\<close>

text \<open>A world in the middle of a test, and what a call makes of a reply.\<close>

abbreviation net :: "(path \<rightharpoonup> bytes) \<Rightarrow> reply list \<Rightarrow> string list \<Rightarrow> fake_net world" where
  "net fs rs log \<equiv>
     \<lparr>files = fs, faults = [], rand_names = [], outside = \<lparr>fn_replies = rs, fn_requests = log\<rparr>\<rparr>"

definition canned_answer :: "test_env \<Rightarrow> (json \<Rightarrow> 'a option) \<Rightarrow> reply \<Rightarrow> gd_error + 'a" where
  "canned_answer e dec r =
     (if is_success (rp_status r)
      then let encoded = from_utf8_lossy (rp_body r)
           in case te_from_str e encoded of
                Inl err \<Rightarrow> Inl (GdOther (err @ '': '' @ encoded @ [CHR 0x0A]))
              | Inr v \<Rightarrow> ok_or (GdOther (te_type_error e encoded @ '': '' @ encoded @ [CHR 0x0A])) (dec v)
      else Inl (failure_of (test_hub e) (rp_status r) (rp_body r)))"

lemma collect_pieces: "env_ok e \<Longrightarrow> collect_body (map frame.Data (te_cut e b)) = Some b"
  by (auto simp: collect_body_def body_whole_def body_data_def list_all_iff comp_def env_ok_def)

definition call_line :: "string \<Rightarrow> string \<Rightarrow> (string \<times> string) list \<Rightarrow> string" where
  "call_line verb p ps = verb @ '' '' @ p @ ''?'' @ extend_pairs [] ps"

lemma fake_call:
  assumes "env_ok e" and "plain_path p"
  shows "simple_call (test_hub e) limit verb (te_base e @ p) ps (net fs (r # rs) log) =
    (Some (if is_success (rp_status r) then Inr (response_of e r)
           else Inl (failure_of (test_hub e) (rp_status r) (rp_body r))), net fs rs (log @ [call_line verb p ps]))"
proof -
  have "te_parse_url e (te_base e @ p) = Some \<lparr>u_before = te_base e @ p, u_query = None, u_fragment = None\<rparr>"
    using assms by (simp add: env_ok_def)
  then show ?thesis
    using collect_pieces [OF assms(1)]
    by (simp add: simple_call_def full_url_def parse_with_params_def url_as_str_def get_token_def try_call_def map_io_def
        done_call_def send_request_def test_hub_def static_token_def fake_request_def Let_def request_line_def
        call_line_def response_of_def)
qed

lemma test_hub_fields [simp]:
  "cl_base_url (test_hub e) = te_base e @ ''/drive/v3/''" "cl_root_url (test_hub e) = te_base e @ ''/''"
  "cl_get_token (test_hub e) = static_token" "cl_request (test_hub e) = fake_request e"
  "cl_parse_url (test_hub e) = te_parse_url e" "cl_from_str (test_hub e) = te_from_str e"
  "cl_type_error (test_hub e) = te_type_error e" "cl_rfc3339 (test_hub e) = te_rfc3339 e"
  "cl_metadata (test_hub e) = te_metadata e" "cl_upload_requests (test_hub e) = 1" "cl_sleep (test_hub e) d w = w"
  by (simp_all add: test_hub_def)

lemma decoded_answer:
  assumes "env_ok e" and "m w = (Some (if is_success (rp_status r) then Inr (response_of e r)
      else Inl (failure_of (test_hub e) (rp_status r) (rp_body r))), v)"
  shows "try_call m (\<lambda>res. decode_response (test_hub e) dec (rs_body res)) w = (Some (canned_answer e dec r), v)"
  using collect_pieces [OF assms(1)] assms(2)
  by (simp add: try_call_def canned_answer_def decode_response_def response_of_def Let_def split: sum.split)

lemma file_path_plain: "plain_path (''/'' @ i) \<Longrightarrow> plain_path (''/drive/v3/files/'' @ i)"
  by (simp add: plain_path_def starts_with_def in_range_def byte_def)

lemma fake_list:
  assumes "env_ok e"
  shows "client_list (test_hub e) limit c (net fs (r # rs) log) =
    (Some (canned_answer e (file_list_of_json (te_rfc3339 e)) r),
     net fs rs (log @ [call_line ''GET'' ''/drive/v3/files'' (list_params c)]))"
proof -
  have plain: "plain_path ''/drive/v3/files''" by code_simp
  have base: "cl_base_url (test_hub e) @ ''files'' = te_base e @ ''/drive/v3/files''" "cl_rfc3339 (test_hub e) = te_rfc3339 e"
    by (simp_all add: test_hub_def)
  show ?thesis
    unfolding client_list_def base by (rule decoded_answer [OF assms], rule fake_call [OF assms plain])
qed

lemma fake_get:
  assumes "env_ok e" and "plain_path (''/'' @ i)"
  shows "client_get (test_hub e) limit i wanted (net fs (r # rs) log) =
    (Some (canned_answer e (file_of_json (te_rfc3339 e)) r),
     net fs rs (log @ [call_line ''GET'' (''/drive/v3/files/'' @ i) [(''fields'', wanted), (''alt'', ''json'')]]))"
proof -
  have base: "file_url (test_hub e) i = te_base e @ ''/drive/v3/files/'' @ i" "cl_rfc3339 (test_hub e) = te_rfc3339 e"
    by (simp_all add: test_hub_def file_url_def)
  show ?thesis
    unfolding client_get_def base
    by (rule decoded_answer [OF assms(1)], rule fake_call [OF assms(1) file_path_plain [OF assms(2)]])
qed

lemma fake_media:
  assumes "env_ok e" and "plain_path (''/'' @ i)"
  shows "client_media (test_hub e) limit i (net fs (r # rs) log) =
    (Some (if is_success (rp_status r) then Inr (map frame.Data (te_cut e (rp_body r)))
           else Inl (failure_of (test_hub e) (rp_status r) (rp_body r))),
     net fs rs (log @ [call_line ''GET'' (''/drive/v3/files/'' @ i) [(''acknowledgeAbuse'', ''true''), (''alt'', ''media'')]]))"
proof -
  have base: "file_url (test_hub e) i = te_base e @ ''/drive/v3/files/'' @ i" by (simp add: test_hub_def file_url_def)
  show ?thesis
    unfolding client_media_def base try_call_def fake_call [OF assms(1) file_path_plain [OF assms(2)]]
    by (simp add: done_call_def response_of_def)
qed

lemma fake_delete:
  assumes "env_ok e" and "plain_path (''/'' @ i)"
  shows "client_delete (test_hub e) limit i (net fs (r # rs) log) =
    (Some (if is_success (rp_status r) then Inr () else Inl (failure_of (test_hub e) (rp_status r) (rp_body r))),
     net fs rs (log @ [call_line ''DELETE'' (''/drive/v3/files/'' @ i) []]))"
proof -
  have base: "file_url (test_hub e) i = te_base e @ ''/drive/v3/files/'' @ i" by (simp add: test_hub_def file_url_def)
  show ?thesis
    unfolding client_delete_def base try_call_def fake_call [OF assms(1) file_path_plain [OF assms(2)]]
    by (simp add: done_call_def)
qed

section \<open>Answers\<close>

lemma answer_json: "reads_json e j \<Longrightarrow> dec j = Some x \<Longrightarrow> canned_answer e dec (reply_json 200 j) = Inr x"
  by (simp add: canned_answer_def is_success_def reply_json_def reads_json_def)

lemma failure_json:
  "reads_json e j \<Longrightarrow> failure_of (test_hub e) (rp_status (reply_json code j)) (rp_body (reply_json code j)) = GdBadRequest j"
  by (simp add: failure_of_def reply_json_def reads_json_def test_hub_def)

lemma answer_failure:
  "reads_json e j \<Longrightarrow> \<not> is_success code \<Longrightarrow> canned_answer e dec (reply_json code j) = Inl (GdBadRequest j)"
  using failure_json [of e j code] by (simp add: canned_answer_def) (simp add: reply_json_def)

text \<open>The files of the tests, as the client reads them.\<close>

definition read_file :: "test_env \<Rightarrow> string \<Rightarrow> string \<Rightarrow> string \<Rightarrow> gfile" where
  "read_file e i parent md5 =
     default_file\<lparr>f_id := Some i, f_name := Some (''backup_tracker_'' @ i @ ''.pgdump''),
       f_created_time := te_rfc3339 e ''2026-01-01T00:00:00Z'', f_size := Some 5, f_md5_checksum := Some md5,
       f_app_properties := Some (map_of [(''kind'', ''regular''), (''format'', ''pg_custom'')]), f_parents := Some [parent]\<rparr>"

definition read_foreign :: "test_env \<Rightarrow> string \<Rightarrow> gfile" where
  "read_foreign e i =
     default_file\<lparr>f_id := Some i, f_name := Some ''notes.txt'', f_created_time := te_rfc3339 e ''2026-02-01T00:00:00Z'',
       f_parents := Some [FOLDER]\<rparr>"

lemmas json_eval = file_of_json_def opt_field_def json_get_def json_as_str_def json_list_def json_string_map_def json_size_def

lemma file_json_read: "env_ok e \<Longrightarrow> file_of_json (te_rfc3339 e) (file_json i parent md5) = Some (read_file e i parent md5)"
proof -
  assume "env_ok e"
  then obtain t where "te_rfc3339 e ''2026-01-01T00:00:00Z'' = Some t" by (auto simp: env_ok_def)
  moreover have "parse_i64 ''5'' = Inr 5" by (simp add: parse_i64_def digit_val_def)
  ultimately show ?thesis by (simp add: json_eval file_json_def read_file_def default_file_def)
qed

lemma foreign_json_read: "env_ok e \<Longrightarrow> file_of_json (te_rfc3339 e) (foreign_file_json i) = Some (read_foreign e i)"
  by (auto simp: json_eval foreign_file_json_def read_foreign_def default_file_def env_ok_def)

definition read_info :: "test_env \<Rightarrow> string \<Rightarrow> string \<Rightarrow> backup_info" where
  "read_info e i md5 =
     \<lparr>b_id = i, b_name = ''backup_tracker_'' @ i @ ''.pgdump'', b_created_at = the (te_rfc3339 e ''2026-01-01T00:00:00Z''),
      b_size_bytes = Some 5, b_md5 = Some md5, b_format = PgCustom, b_kind = Regular\<rparr>"

lemma read_file_info: "env_ok e \<Longrightarrow> to_backup_info (read_file e i parent md5) = Inr (read_info e i md5)"
  by (auto simp: mapping_eval read_file_def read_info_def default_file_def env_ok_def detect_format_def format_parse_def
      kind_parse_def u64_try_from_def)

lemma read_foreign_info: "res_ok (to_backup_info (read_foreign e i)) = None"
proof -
  have "path_extension ''notes.txt'' = Some ''txt''" by code_simp
  then show ?thesis
    by (cases "te_rfc3339 e ''2026-02-01T00:00:00Z''")
      (simp_all add: mapping_eval read_foreign_def default_file_def detect_format_def)
qed

section \<open>Retries\<close>

lemma retry_succeeds: "call w = (Inr x, w') \<Longrightarrow> retry_loop policy call sleep delay k w = (Inr x, w')"
  by (simp add: retry_loop.simps)

lemma retry_fails: "call w = (Inl err, w') \<Longrightarrow> \<not> is_transient (Inl err :: call_error + unit) \<Longrightarrow>
    retry_loop policy call sleep delay k w = (Inl (into_error err), w')"
  by (cases err) (simp_all add: retry_loop.simps is_transient_def)

lemma retry_again: "call w = (Inl (Transient m), w') \<Longrightarrow> k < attempts policy \<Longrightarrow>
    retry_loop policy call sleep delay k w =
      retry_loop policy call sleep (min (delay * 2) (max_delay policy)) (Suc k) (sleep delay w')"
  by (simp add: retry_loop.simps)

lemma retry_gives_up: "call w = (Inl (Transient m), w') \<Longrightarrow> attempts policy \<le> k \<Longrightarrow>
    retry_loop policy call sleep delay k w = (Inl (Unavailable m), w')"
  by (simp add: retry_loop.simps)

text \<open>Sleeping changes nothing that the tests see.\<close>

lemma test_storage_fields [simp]:
  "hub (test_storage e n) = client_hub (test_hub e)" "folder_id (test_storage e n) = FOLDER" "opts (test_storage e n) = test_opts n"
  by (simp_all add: test_storage_def)

lemma test_opts_retry [simp]: "attempts (opt_retry (test_opts n)) = n"
  by (simp add: test_opts_def)

lemma client_hub_fields [simp]:
  "hub_list (client_hub cl) = client_list cl" "hub_get (client_hub cl) = client_get cl" "hub_media (client_hub cl) = client_media cl"
  "hub_create (client_hub cl) = client_create cl" "hub_delete (client_hub cl) = client_delete cl" "hub_sleep (client_hub cl) = cl_sleep cl"
  by (simp_all add: client_hub_def)

text \<open>What a failed call becomes.\<close>

lemma u16_try_from_ucast: "u16_try_from (ucast (code :: 16 word)) = Some code"
proof -
  have "unat (ucast code :: 64 word) = unat code" by (simp add: unsigned_ucast_eq take_bit_nat_eq_self_iff unsigned_less [THEN less_trans])
  moreover have "unat code < 2 ^ 16" using unsigned_less [of code] by simp
  moreover have "ucast (ucast code :: 64 word) = code" by (rule bit_word_eqI) (simp add: bit_simps)
  ultimately show ?thesis by (simp add: u16_try_from_def word_le_nat_alt)
qed

lemma classify_error_json:
  "classify op (GdBadRequest (error_json (ucast (code :: 16 word)) message reason)) = classify_status op code (Some reason) message"
  by (simp add: error_json_def classify_json_def json_get_def json_as_u64_def u16_try_from_ucast json_at_def json_as_str_def)

definition reads_error :: "test_env \<Rightarrow> 16 word \<Rightarrow> bool" where
  "reads_error e code \<longleftrightarrow> reads_json e (error_json (ucast code) ''boom'' ''x'')"

lemma answer_error:
  "reads_error e code \<Longrightarrow> \<not> is_success code \<Longrightarrow>
     map_err (classify op) (canned_answer e dec (drive_error code)) = Inl (classify_status op code (Some ''x'') ''boom'')"
  by (simp add: reads_error_def drive_error_def answer_failure classify_error_json del: classify.simps)

lemma error_status [simp]: "rp_status (drive_error code) = code"
  by (simp add: drive_error_def reply_json_def)

lemma failure_error:
  "reads_error e code \<Longrightarrow> classify op (failure_of (test_hub e) code (rp_body (drive_error code))) = classify_status op code (Some ''x'') ''boom''"
  using failure_json [of e "error_json (ucast code) ''boom'' ''x''" code]
  by (simp add: reads_error_def drive_error_def classify_error_json reply_json_def del: classify.simps)

lemma no_success: "\<not> is_success 400" "\<not> is_success 403" "\<not> is_success 404" "\<not> is_success 503"
  by (simp_all add: is_success_def)

lemma status_503: "\<exists>m. classify_status op 503 reason detail = Transient m"
  by (simp add: classify_status_def)

section \<open>Listing, evaluated\<close>

definition list_line :: "string \<Rightarrow> 32 word \<Rightarrow> string option \<Rightarrow> string" where
  "list_line query page_size token = call_line ''GET'' ''/drive/v3/files'' (list_params (list_request query page_size token))"

lemma list_step:
  "env_ok e \<Longrightarrow> list_once (test_storage e n) query page_size token (net fs (r # rs) log) =
    (and_then (map_err (classify ''Listing backups'') (canned_answer e (file_list_of_json (te_rfc3339 e)) r)) (\<lambda>l.
       Inr \<lparr>items = backups_of (case fl_files l of None \<Rightarrow> [] | Some fs \<Rightarrow> fs), next_page_token = fl_next_page_token l\<rparr>),
     net fs rs (log @ [list_line query page_size token]))"
  by (simp add: list_once_def Let_def map_io_def fake_list timed_def list_line_def)

lemma page_read:
  "all_some (map (file_of_json (te_rfc3339 e)) js) = Some fs \<Longrightarrow>
     file_list_of_json (te_rfc3339 e) (files_json js) = Some \<lparr>fl_files = Some fs, fl_next_page_token = None\<rparr>"
  "all_some (map (file_of_json (te_rfc3339 e)) js) = Some fs \<Longrightarrow>
     file_list_of_json (te_rfc3339 e) (files_page_json js t) = Some \<lparr>fl_files = Some fs, fl_next_page_token = Some t\<rparr>"
  by (simp_all add: file_list_of_json_def files_json_def files_page_json_def opt_field_def json_get_def json_list_def json_as_str_def)

lemmas list_eval = gd_list_def Let_def retry_def retry_loop.simps fake_world_def map_io_def list_step requests_def
  answer_error no_success answer_json page_read file_json_read foreign_json_read backups_of_def List.map_filter_def
  read_file_info read_foreign_info

text \<open>Every parameter is found in the line of its request.\<close>

lemma extend_pairs_grows: "\<exists>v. extend_pairs q ps = q @ v"
proof (induction ps arbitrary: q)
  case (Cons p ps)
  obtain x where "append_pair q p = q @ x" by (cases "q = []") (simp_all add: append_pair_text)
  moreover obtain v where "extend_pairs (append_pair q p) ps = append_pair q p @ v" using Cons.IH by blast
  ultimately show ?case by (simp add: extend_pairs_def)
qed (simp add: extend_pairs_def)

lemma extend_pairs_found: "p \<in> set ps \<Longrightarrow> \<exists>u v. extend_pairs q ps = u @ pair_text p @ v"
proof (induction ps arbitrary: q)
  case (Cons p' ps)
  have step: "extend_pairs q (p' # ps) = extend_pairs (append_pair q p') ps" by (simp add: extend_pairs_def)
  show ?case
  proof (cases "p = p'")
    case True
    obtain v where "extend_pairs (append_pair q p') ps = append_pair q p' @ v" using extend_pairs_grows by blast
    then show ?thesis unfolding step append_pair_text using True by (metis append.assoc)
  qed (use Cons step in auto)
qed simp

lemma line_contains:
  assumes "p \<in> set ps" and "contains (pair_text p) t"
  shows "contains (call_line verb path ps) t"
  using extend_pairs_found [OF assms(1), of "[]"] assms(2) unfolding contains_iff call_line_def
  by (metis append.assoc)

lemma list_line_contains:
  "contains (list_line query n token) ''orderBy=createdTime''"
  "contains (pair_text (''q'', query)) t \<Longrightarrow> contains (list_line query n token) t"
  "contains (pair_text (''pageToken'', s)) t \<Longrightarrow> contains (list_line query n (Some s)) t"
proof -
  have order: "contains (pair_text (''orderBy'', NEWEST_FIRST)) ''orderBy=createdTime''" by code_simp
  show "contains (list_line query n token) ''orderBy=createdTime''"
    unfolding list_line_def by (rule line_contains [OF _ order]) (simp add: list_params_def list_request_def)
  show "contains (pair_text (''q'', query)) t \<Longrightarrow> contains (list_line query n token) t"
    unfolding list_line_def by (rule line_contains) (simp_all add: list_params_def list_request_def)
  show "contains (pair_text (''pageToken'', s)) t \<Longrightarrow> contains (list_line query n (Some s)) t"
    unfolding list_line_def by (rule line_contains) (simp_all add: list_params_def list_request_def)
qed

lemma test_list_retries_transient_error:
  assumes "env_ok e" and "reads_error e 503" and "reads_json e (files_page_json [file_json ''f1'' FOLDER ''m''] ''t2'')"
  shows "test_list_retries_transient_error e"
proof -
  obtain m where m: "classify_status ''Listing backups'' 503 (Some ''x'') ''boom'' = Transient m" using status_503 by blast
  let ?line = "list_line (folder_query FOLDER) 10 (Some ''t1'')"
  have "contains ?line ''pageToken=t1''" by (rule list_line_contains(3)) code_simp
  moreover have "contains ?line ''folder1''" by (rule list_line_contains(2)) code_simp
  ultimately show ?thesis
    using assms m by (simp add: test_list_retries_transient_error_def list_eval list_line_contains(1) read_info_def)
qed

lemma test_list_skips_files_that_are_not_backups:
  assumes "env_ok e"
    and "reads_json e (files_json [json_replace ''appProperties'' JNull
      (json_replace ''name'' (JString ''notes.txt'') (file_json ''x'' FOLDER ''m'')), file_json ''f1'' FOLDER ''m''])"
  shows "test_list_skips_files_that_are_not_backups e"
proof -
  let ?j = "json_replace ''appProperties'' JNull (json_replace ''name'' (JString ''notes.txt'') (file_json ''x'' FOLDER ''m''))"
  let ?f = "(read_file e ''x'' FOLDER ''m'')\<lparr>f_name := Some ''notes.txt'', f_app_properties := None\<rparr>"
  obtain t where t: "te_rfc3339 e ''2026-01-01T00:00:00Z'' = Some t" using assms(1) by (auto simp: env_ok_def)
  moreover have "parse_i64 ''5'' = Inr 5" by (simp add: parse_i64_def digit_val_def)
  ultimately have read: "file_of_json (te_rfc3339 e) ?j = Some ?f"
    by (simp add: json_eval file_json_def read_file_def default_file_def)
  have "path_extension ''notes.txt'' = Some ''txt''" by code_simp
  then have "res_ok (to_backup_info ?f) = None"
    using t by (simp add: mapping_eval read_file_def default_file_def detect_format_def)
  then show ?thesis
    using assms read
    by (simp add: test_list_skips_files_that_are_not_backups_def list_eval read_info_def del: json_replace.simps)
qed

lemma test_plain_text_forbidden_is_not_retried:
  assumes "env_ok e" and "te_from_str e (from_utf8_lossy ''forbidden'') = Inl err"
  shows "test_plain_text_forbidden_is_not_retried e"
  using assms
  by (simp add: test_plain_text_forbidden_is_not_retried_def list_eval canned_answer_def failure_of_def classify_status_def)

lemma test_rate_limited_forbidden_is_retried:
  assumes "env_ok e" and "reads_json e (error_json 403 ''slow down'' ''rateLimitExceeded'')" and "reads_json e (files_json [])"
  shows "test_rate_limited_forbidden_is_retried e"
proof -
  have "classify op (GdBadRequest (error_json 403 ''slow down'' ''rateLimitExceeded'')) =
      classify_status op 403 (Some ''rateLimitExceeded'') ''slow down''" for op
    using classify_error_json [of op 403] by simp
  moreover have "\<exists>m. classify_status op 403 (Some ''rateLimitExceeded'') ''slow down'' = Transient m" for op
    by (simp add: classify_status_def RATE_LIMIT_REASONS_def)
  then obtain m where "classify_status ''Listing backups'' 403 (Some ''rateLimitExceeded'') ''slow down'' = Transient m" by blast
  ultimately show ?thesis
    using assms by (simp add: test_rate_limited_forbidden_is_retried_def list_eval answer_failure del: classify.simps)
qed

lemma test_bad_page_token_is_invalid_argument:
  assumes "env_ok e" and "reads_error e 400"
  shows "test_bad_page_token_is_invalid_argument e"
proof -
  obtain m where "classify_status ''Listing backups'' 400 (Some ''x'') ''boom'' = BadRequest m" by (simp add: classify_status_def)
  then show ?thesis using assms by (simp add: test_bad_page_token_is_invalid_argument_def list_eval)
qed

lemma test_exhausted_retries_are_unavailable:
  assumes "env_ok e" and "reads_error e 503"
  shows "test_exhausted_retries_are_unavailable e"
proof -
  obtain m where "classify_status ''Listing backups'' 503 (Some ''x'') ''boom'' = Transient m" using status_503 by blast
  then show ?thesis using assms by (simp add: test_exhausted_retries_are_unavailable_def list_eval)
qed

section \<open>The newest backup, evaluated\<close>

lemma two_pages: obtains n where "LATEST_MAX_PAGES = Suc (Suc n)"
  by (rule that [of 8]) (simp add: LATEST_MAX_PAGES_def)

lemmas latest_eval = gd_latest_def latest_page_def try_io_def return_io_def continue_token_def list_eval

lemma test_latest_skips_newer_foreign_files:
  assumes "env_ok e" and "reads_json e (files_page_json [foreign_file_json ''n1''] ''t2'')"
    and "reads_json e (files_json [foreign_file_json ''n2'', file_json ''f1'' FOLDER ''m''])"
  shows "test_latest_skips_newer_foreign_files e"
proof -
  obtain n where n: "LATEST_MAX_PAGES = Suc (Suc n)" by (rule two_pages)
  have "contains (list_line (latest_query FOLDER) LATEST_PAGE_SIZE (Some ''t2'')) ''pageToken=t2''"
    by (rule list_line_contains(3)) code_simp
  then show ?thesis
    using assms by (simp add: test_latest_skips_newer_foreign_files_def latest_eval n read_info_def)
qed

lemma test_latest_with_only_foreign_files:
  assumes "env_ok e" and "reads_json e (files_json [foreign_file_json ''n1''])"
  shows "test_latest_with_only_foreign_files e"
proof -
  obtain n where n: "LATEST_MAX_PAGES = Suc (Suc n)" by (rule two_pages)
  show ?thesis
    using assms by (simp add: test_latest_with_only_foreign_files_def latest_eval n)
qed

lemma test_latest_on_empty_folder:
  assumes "env_ok e" and "reads_json e (files_json [])"
  shows "test_latest_on_empty_folder e"
proof -
  obtain n where n: "LATEST_MAX_PAGES = Suc (Suc n)" by (rule two_pages)
  have "contains (list_line (latest_query FOLDER) LATEST_PAGE_SIZE None) ''pre_restore''"
    by (rule list_line_contains(2)) code_simp
  then show ?thesis
    using assms by (simp add: test_latest_on_empty_folder_def latest_eval n)
qed

section \<open>Single files, evaluated\<close>

definition get_line :: "string \<Rightarrow> string" where
  "get_line i = call_line ''GET'' (''/drive/v3/files/'' @ i) [(''fields'', FILE_FIELDS), (''alt'', ''json'')]"

lemma get_step:
  "env_ok e \<Longrightarrow> plain_path (''/'' @ i) \<Longrightarrow>
     map_io (timed op limit) (client_get (test_hub e) limit i FILE_FIELDS) (net fs (r # rs) log) =
       (map_err (classify op) (canned_answer e (file_of_json (te_rfc3339 e)) r), net fs rs (log @ [get_line i]))"
  by (simp add: map_io_def fake_get timed_def get_line_def)

lemma ids_plain:
  "plain_path (''/'' @ ''f1'')" "plain_path (''/'' @ ''missing'')" "plain_path (''/'' @ ''x'')" "plain_path (''/'' @ ''old'')"
  "plain_path (''/'' @ ''gone'')"
  by code_simp+

lemmas get_eval = gd_get_def Let_def retry_def retry_loop.simps fake_world_def requests_def try_io_def return_io_def
  answer_error no_success answer_json file_json_read read_file_info

lemma test_get_rejects_file_outside_folder:
  assumes "env_ok e" and "reads_json e (file_json ''f1'' ''foreign'' ''m'')"
  shows "test_get_rejects_file_outside_folder e"
  using assms get_step [OF assms(1) ids_plain(1)]
  by (simp add: test_get_rejects_file_outside_folder_def get_eval is_in_folder_def read_file_def FOLDER_def)

lemma test_get_maps_404_without_retry:
  assumes "env_ok e" and "reads_error e 404"
  shows "test_get_maps_404_without_retry e"
proof -
  have "\<exists>m. classify_status op 404 (Some ''x'') ''boom'' = Permanent (NotFound m)" for op by (simp add: classify_status_def)
  then obtain m where "classify_status ''Getting backup'' 404 (Some ''x'') ''boom'' = Permanent (NotFound m)" by blast
  then show ?thesis
    using assms get_step [OF assms(1) ids_plain(2)] by (simp add: test_get_maps_404_without_retry_def get_eval)
qed

lemma get_f1:
  assumes "env_ok e" and "reads_json e (file_json ''f1'' FOLDER md5)"
  shows "gd_get (test_storage e n) ''f1'' (net fs (reply_json 200 (file_json ''f1'' FOLDER md5) # rs) log) =
    (Inr (read_info e ''f1'' md5), net fs rs (log @ [get_line ''f1'']))"
  using assms get_step [OF assms(1) ids_plain(1)]
  by (simp add: get_eval is_in_folder_def) (simp add: read_file_def default_file_def)

section \<open>Downloads, evaluated\<close>

lemma receive_pieces:
  "receive idle dst (map frame.Data cs) h n (net (fs(dst \<mapsto> c)) rs log) =
     (Inr (h @ concat cs, n + of_nat (length (concat cs))), net (fs(dst \<mapsto> c @ concat cs)) rs log)"
  by (induction cs arbitrary: h n c) (simp_all add: try_io_def map_io_def std_write_def with_fault_def add.assoc)

definition media_line :: "string \<Rightarrow> string" where
  "media_line i = call_line ''GET'' (''/drive/v3/files/'' @ i) [(''acknowledgeAbuse'', ''true''), (''alt'', ''media'')]"

lemma download_step:
  assumes "env_ok e" and "plain_path (''/'' @ b_id b)"
  shows "download_once md5 (test_storage e n) b dst (net fs (reply_bytes content # rs) log) =
    (check_md5 md5 b content (of_nat (length content)), net (fs(dst \<mapsto> content)) rs (log @ [media_line (b_id b)]))"
proof -
  have "concat (te_cut e content) = content" using assms(1) by (simp add: env_ok_def)
  then show ?thesis
    using receive_pieces [of _ dst "te_cut e content" "[]" 0 fs "[]"]
    by (simp add: download_once_def Let_def try_io_def map_io_def fake_media [OF assms] reply_bytes_def is_success_def timed_def
        std_create_def std_flush_def with_fault_def media_line_def return_io_def)
qed

lemma check_read_info:
  "check_md5 md5 (read_info e i wanted) content len =
     (if eq_ignore_ascii_case (md5 content) wanted then Inr len
      else Inl (Transient (''Checksum mismatch for '' @ quoted (''backup_tracker_'' @ i @ ''.pgdump'') @ '': expected ''
             @ wanted @ '', got '' @ md5 content)))"
  by (simp add: check_md5_def read_info_def Let_def)

lemma download_f1:
  assumes "env_ok e"
  shows "download_once md5 (test_storage e n) (read_info e ''f1'' wanted) dst (net fs (reply_bytes content # rs) log) =
    (check_md5 md5 (read_info e ''f1'' wanted) content (of_nat (length content)),
     net (fs(dst \<mapsto> content)) rs (log @ [media_line ''f1'']))"
proof -
  have "b_id (read_info e ''f1'' wanted) = ''f1''" by (simp add: read_info_def)
  then show ?thesis using download_step [OF assms, of "read_info e ''f1'' wanted"] ids_plain(1) by simp
qed

lemma eq_ignore_case_refl: "eq_ignore_ascii_case s s"
  by (simp add: eq_ignore_ascii_case_def)

lemmas download_eval = gd_download_def retry_def retry_loop.simps fake_world_def requests_def return_io_def
  check_read_info eq_ignore_case_refl

lemma test_download_writes_content_and_checks_md5:
  assumes "env_ok e" and "reads_json e (file_json ''f1'' FOLDER (te_md5 e (concat (replicate 10000 ''pgdump-bytes''))))"
  shows "test_download_writes_content_and_checks_md5 e dir"
proof -
  define content :: bytes where "content = concat (replicate 10000 ''pgdump-bytes'')"
  have "contains (pair_text (''alt'', ''media'')) ''alt=media''" by code_simp
  then have "contains (media_line ''f1'') ''alt=media''"
    unfolding media_line_def by (rule line_contains [rotated]) simp
  then show ?thesis
    using get_f1 [OF assms(1), of "te_md5 e content"] assms(2)
    unfolding test_download_writes_content_and_checks_md5_def content_def [symmetric]
    by (simp add: Let_def try_io_def download_f1 [OF assms(1)] download_eval)
qed

lemma test_download_retries_on_checksum_mismatch:
  assumes "env_ok e" and "reads_json e (file_json ''f1'' FOLDER (te_md5 e ''good''))"
    and "\<not> eq_ignore_ascii_case (te_md5 e ''corrupted'') (te_md5 e ''good'')"
  shows "test_download_retries_on_checksum_mismatch e dir"
  using get_f1 [OF assms(1,2)] assms(3)
  by (simp add: test_download_retries_on_checksum_mismatch_def Let_def try_io_def download_f1 [OF assms(1)] download_eval)

lemma test_download_fails_on_persistent_checksum_mismatch:
  assumes "env_ok e" and "reads_json e (file_json ''f1'' FOLDER (te_md5 e ''good''))"
    and "\<not> eq_ignore_ascii_case (te_md5 e ''bad'') (te_md5 e ''good'')"
  shows "test_download_fails_on_persistent_checksum_mismatch e dir"
  using get_f1 [OF assms(1,2)] assms(3)
  by (simp add: test_download_fails_on_persistent_checksum_mismatch_def Let_def try_io_def download_f1 [OF assms(1)] download_eval)

section \<open>Uploads, evaluated\<close>

definition session_line :: "string \<Rightarrow> string" where
  "session_line wanted =
     call_line ''POST'' ''/resumable/upload/drive/v3/files'' [(''fields'', wanted), (''alt'', ''json''), (''uploadType'', ''resumable'')]"

lemma upload_url:
  assumes "env_ok e"
  shows "full_url (test_hub e) (cl_root_url (test_hub e) @ ''resumable/upload/drive/v3/files'') ps =
    Inr (te_base e @ ''/resumable/upload/drive/v3/files?'' @ extend_pairs [] ps)"
proof -
  have "plain_path ''/resumable/upload/drive/v3/files''" by code_simp
  then have "te_parse_url e (te_base e @ ''/resumable/upload/drive/v3/files'') =
      Some \<lparr>u_before = te_base e @ ''/resumable/upload/drive/v3/files'', u_query = None, u_fragment = None\<rparr>"
    using assms unfolding env_ok_def by blast
  then show ?thesis by (simp add: full_url_def parse_with_params_def url_as_str_def)
qed

lemma session_fails:
  assumes "env_ok e" and "\<not> is_success (rp_status r)"
  shows "client_create (test_hub e) limit meta wanted content (net fs (r # rs) log) =
    (Some (Inl (failure_of (test_hub e) (rp_status r) (rp_body r))), net fs rs (log @ [session_line wanted]))"
  using assms(2) collect_pieces [OF assms(1)]
  unfolding client_create_def upload_url [OF assms(1)]
  by (simp add: try_call_def done_call_def get_token_def map_io_def static_token_def send_request_def fake_request_def
      Let_def request_line_def session_line_def call_line_def response_of_def)

lemma session_uploads:
  assumes "env_ok e" and "length content \<le> UPLOAD_CHUNK_SIZE" and "is_success (rp_status r)"
  shows "client_create (test_hub e) limit meta wanted content
      (net fs (\<lparr>rp_status = 200, rp_headers = [(''Location'', te_base e @ p)], rp_body = []\<rparr> # r # rs) log) =
    (Some (canned_answer e (file_of_json (te_rfc3339 e)) r), net fs rs (log @ [session_line wanted, ''POST '' @ p]))"
proof -
  have headers: "eq_ignore_ascii_case ''Location'' ''location''" "\<not> eq_ignore_ascii_case ''Content-Length'' ''location''"
    by code_simp+
  have small: "\<not> MAX_UPLOAD_SIZE < length content" using assms(2) by (simp add: MAX_UPLOAD_SIZE_def UPLOAD_CHUNK_SIZE_def)
  have status: "rp_status r \<noteq> PERMANENT_REDIRECT" using assms(3) by (auto simp: redirect_no_success)
  have collect: "collect_body [frame.Data b] = Some b" for b by (simp add: collect_body_def body_whole_def body_data_def)
  have ok: "is_success 200" by (simp add: is_success_def)
  show ?thesis
    using collect_pieces [OF assms(1)] assms(3) small status headers ok
    unfolding client_create_def upload_url [OF assms(1)]
    by (simp add: try_call_def done_call_def get_token_def map_io_def static_token_def send_request_def fake_request_def
        Let_def request_line_def session_line_def call_line_def response_of_def chunk_request_def collect decode_response_def
        canned_answer_def split: sum.split)
qed

lemmas upload_eval = gd_upload_def Let_def fake_world_def requests_def try_io_def map_io_def std_open_def with_fault_def
  pg_dump_def timed_def

lemma test_upload_resumable:
  assumes "env_ok e" and "reads_json e (file_json ''new1'' FOLDER (te_md5 e ''dump!''))"
  shows "test_upload_resumable e dir now"
proof -
  have "starts_with (session_line FILE_FIELDS) ''POST /resumable/upload/drive/v3/files''"
    by (simp add: session_line_def call_line_def starts_with_def)
  moreover have "contains (session_line FILE_FIELDS) ''uploadType=resumable''"
    unfolding session_line_def by (rule line_contains [of "(''uploadType'', ''resumable'')"]) (simp, code_simp)
  moreover have "contains (session_line FILE_FIELDS) ''md5Checksum''"
    unfolding session_line_def by (rule line_contains [of "(''fields'', FILE_FIELDS)"]) (simp, code_simp)
  moreover have "length ''dump!'' \<le> UPLOAD_CHUNK_SIZE" by (simp add: UPLOAD_CHUNK_SIZE_def)
  moreover have "rp_status (reply_json code j) = code" "is_success 200" for code j by (simp_all add: reply_json_def is_success_def)
  ultimately show ?thesis
    using assms session_uploads [OF assms(1), where content = "''dump!''" and p = "''/upload/session-1''"]
    by (simp add: test_upload_resumable_def upload_eval answer_json file_json_read read_file_info) (simp add: read_info_def)
qed

lemma test_failed_upload_is_not_retried:
  assumes "env_ok e" and "reads_error e 503"
  shows "test_failed_upload_is_not_retried e dir now"
proof -
  obtain m where "classify_status ''Uploading backup'' 503 (Some ''x'') ''boom'' = Transient m" using status_503 by blast
  then show ?thesis
    using assms session_fails [OF assms(1), of "drive_error 503"] failure_error [OF assms(2)]
    by (simp add: test_failed_upload_is_not_retried_def upload_eval no_success del: classify.simps)
qed

section \<open>Deletion, evaluated\<close>

lemma delete_step:
  assumes "env_ok e" and "plain_path (''/'' @ i)"
  shows "map_io (timed op limit) (client_delete (test_hub e) limit i) (net fs (r # rs) log) =
    (if is_success (rp_status r) then Inr () else Inl (classify op (failure_of (test_hub e) (rp_status r) (rp_body r))),
     net fs rs (log @ [call_line ''DELETE'' (''/drive/v3/files/'' @ i) []]))"
  by (simp add: map_io_def fake_delete [OF assms] timed_def)

lemmas delete_eval = gd_delete_def Let_def retry_def retry_loop.simps fake_world_def requests_def no_success failure_error

lemma map_missing: "map_io missing_is_deleted m w = (missing_is_deleted (fst (m w)), snd (m w))"
  by (simp add: map_io_def split: prod.split)

lemma test_bad_request_without_client_token_is_internal:
  assumes "env_ok e" and "reads_error e 400"
  shows "test_bad_request_without_client_token_is_internal e"
proof -
  obtain m where "classify_status ''Deleting backup'' 400 (Some ''x'') ''boom'' = BadRequest m" by (simp add: classify_status_def)
  then show ?thesis
    using assms delete_step [OF assms(1) ids_plain(3)]
    by (simp add: test_bad_request_without_client_token_is_internal_def map_missing delete_eval)
qed

lemma test_delete_retries_transient_error:
  assumes "env_ok e" and "reads_error e 503"
  shows "test_delete_retries_transient_error e"
proof -
  obtain m where "classify_status ''Deleting backup'' 503 (Some ''x'') ''boom'' = Transient m" using status_503 by blast
  moreover have "is_success 204" by (simp add: is_success_def)
  ultimately show ?thesis
    using assms delete_step [OF assms(1) ids_plain(4)]
    by (simp add: test_delete_retries_transient_error_def map_missing delete_eval)
qed

lemma test_delete_forbidden_fails:
  assumes "env_ok e" and "reads_error e 403"
  shows "test_delete_forbidden_fails e"
proof -
  obtain m where "classify_status ''Deleting backup'' 403 (Some ''x'') ''boom'' = Permanent (Storage m)"
    by (simp add: classify_status_def RATE_LIMIT_REASONS_def)
  then show ?thesis
    using assms delete_step [OF assms(1) ids_plain(4)]
    by (simp add: test_delete_forbidden_fails_def map_missing delete_eval)
qed

lemma test_delete_treats_missing_file_as_deleted:
  assumes "env_ok e" and "reads_error e 404"
  shows "test_delete_treats_missing_file_as_deleted e"
proof -
  obtain m where "classify_status ''Deleting backup'' 404 (Some ''x'') ''boom'' = Permanent (NotFound m)" by (simp add: classify_status_def)
  then show ?thesis
    using assms delete_step [OF assms(1) ids_plain(5)]
    by (simp add: test_delete_treats_missing_file_as_deleted_def map_missing delete_eval)
qed

section \<open>An environment\<close>

text \<open>What the tests rely on can hold: here for the first of them, with a reader that knows its two documents.\<close>

definition demo_docs :: "json list" where
  "demo_docs = [error_json 503 ''boom'' ''x'', files_page_json [file_json ''f1'' FOLDER ''m''] ''t2'']"

definition demo_test_env :: test_env where
  "demo_test_env =
     \<lparr>te_base = ''http://127.0.0.1:80'', te_parse_url = (\<lambda>s. Some \<lparr>u_before = s, u_query = None, u_fragment = None\<rparr>),
      te_from_str = (\<lambda>s. case find (\<lambda>j. from_utf8_lossy (show_json j) = s) demo_docs of None \<Rightarrow> Inl [] | Some j \<Rightarrow> Inr j),
      te_rfc3339 = (\<lambda>s. Some demo_time), te_md5 = (\<lambda>b. b), te_metadata = (\<lambda>f. ''{}''), te_type_error = (\<lambda>s. []),
      te_cut = (\<lambda>b. [b])\<rparr>"

lemma demo_test_env_replays: "test_list_retries_transient_error demo_test_env"
proof (rule test_list_retries_transient_error)
  show "env_ok demo_test_env" by (simp add: env_ok_def demo_test_env_def)
  show "reads_error demo_test_env 503" by (simp add: reads_error_def reads_json_def demo_test_env_def demo_docs_def)
  have "from_utf8_lossy (show_json (error_json 503 ''boom'' ''x''))
      \<noteq> from_utf8_lossy (show_json (files_page_json [file_json ''f1'' FOLDER ''m''] ''t2''))"
    by (simp add: error_json_def files_page_json_def) code_simp
  then show "reads_json demo_test_env (files_page_json [file_json ''f1'' FOLDER ''m''] ''t2'')"
    by (simp add: reads_json_def demo_test_env_def demo_docs_def)
qed

end
