(* ===== verification/Spec2Isabelle.thy ===== *)
theory Spec2Isabelle
  imports Server Rpc_Wire Server_Tests Grpc_Tests Storage_Tests
begin

text \<open>
  \<^bold>\<open>FastBackup\<close> is a gRPC server that backs up one PostgreSQL database into one Google Drive folder
  and restores it. A client asks for a backup, a listing, the description or the content of a
  backup, or a restore; the server runs \<^verbatim>\<open>pg_dump\<close>, \<^verbatim>\<open>pg_restore\<close> and \<^verbatim>\<open>psql\<close> as child processes, keeps
  dumps in temporary files, and talks to Drive through a generated client. Backups and restores
  exclude each other by one lock; old backups are removed after a new one is stored; before a
  restore the current database is stored as a pre-restore copy.

  \<^bold>\<open>Theories and sources\<close> (paths under \<^verbatim>\<open>src/crates\<close>).

    \<^item> \<open>Prelude\<close>, \<open>Text\<close>: results, effects over a world, decimal numbers, durations, UTF-8 text and
      paths as byte lists; what the program uses of the Rust standard library.
      \<open>Std_Parse\<close>: \<^verbatim>\<open>FromStr\<close> of the integers and of \<^verbatim>\<open>SocketAddr\<close>.
    \<^item> \<open>World\<close>: the local disk with injected faults, and temporary files (\<^verbatim>\<open>vendor/tempfile\<close>). \<open>Chrono\<close>: the
      dates and times of \<^verbatim>\<open>vendor/chrono\<close> that the program observes.
    \<^item> \<open>Core\<close>: \<^verbatim>\<open>backup-core\<close>, with errors, formats, kinds, file names, retention, the database target and
      the decompression of legacy backups.
    \<^item> \<open>Pg\<close>: \<^verbatim>\<open>backup-pg\<close>, with compression level, command lines, the runner and the tools.
    \<^item> \<open>Drive_Retry\<close>, \<open>Drive_Map\<close>, \<open>Drive_Storage\<close>: \<^verbatim>\<open>backup-gdrive\<close>, with the classification of failures and the
      retry loop (\<^verbatim>\<open>errors.rs\<close>, \<^verbatim>\<open>retry.rs\<close>), queries and the mapping of files (\<^verbatim>\<open>query.rs\<close>, \<^verbatim>\<open>mapping.rs\<close>), and the
      operations of the storage (\<^verbatim>\<open>storage.rs\<close>). \<open>Paging\<close>: the contract of paged listings that
      \<^verbatim>\<open>Storage::list\<close> offers and both scans of the program use.
      \<open>Drive_Client\<close>: the generated client that the storage calls (\<^verbatim>\<open>vendor/google-drive3\<close>,
      \<^verbatim>\<open>vendor/google-apis-common\<close>, \<^verbatim>\<open>vendor/form_urlencoded\<close>), from the parameters of a call to its HTTP request
      and from the answer to the result, with the resumable upload.
    \<^item> \<open>Prog\<close>: programs as trees of calls, for code with \<^verbatim>\<open>await\<close> points; events, runs, and the ownership
      of the lock guard and of temporary files. \<open>Service\<close>: \<^verbatim>\<open>backup-server/src/service.rs\<close>, one definition
      per function, and the interpreter on concrete ports (\<^verbatim>\<open>ports.rs\<close>, \<^verbatim>\<open>clock.rs\<close>).
      \<open>Service_Safety\<close>, \<open>Service_Run\<close>: what holds of every event sequence and of every run.
      \<open>Fakes\<close>: the in-memory storage and database of the tests of \<^verbatim>\<open>service.rs\<close>.
    \<^item> \<open>Transition\<close>, \<open>Concurrency\<close>: reachability and invariants; any number of requests at once, with
      cancellation at every await point.
    \<^item> \<open>Wire\<close>: the messages of \<^verbatim>\<open>backup.proto\<close>, \<^verbatim>\<open>convert.rs\<close> and \<^verbatim>\<open>status.rs\<close>. \<open>Stream\<close>: the download stream of
      \<^verbatim>\<open>grpc.rs\<close> with its bounded channel. \<open>Grpc\<close>: the handlers of \<^verbatim>\<open>grpc.rs\<close>.
    \<^item> \<open>Varint\<close>, \<open>Prost\<close>, \<open>Messages\<close>, \<open>Round_Trip\<close>: the binary format of the messages, with the integers and fields of
      \<^verbatim>\<open>vendor/prost\<close>, the code that \<^verbatim>\<open>vendor/prost-derive\<close> generates for each message of \<^verbatim>\<open>backup.proto\<close>, and what it
      guarantees. \<open>Trailers\<close>, \<open>Frames\<close>: statuses as trailers (\<^verbatim>\<open>status.rs\<close> of \<^verbatim>\<open>vendor/tonic\<close>,
      \<^verbatim>\<open>vendor/percent-encoding\<close>) and messages as the frames of a body (\<^verbatim>\<open>codec/encode.rs\<close>, \<^verbatim>\<open>codec/decode.rs\<close>).
      \<open>Rpc_Wire\<close>: a call from the bytes of its request to the bytes of its answer (\<^verbatim>\<open>server/grpc.rs\<close>,
      \<^verbatim>\<open>client/grpc.rs\<close>, and the routing that \<^verbatim>\<open>vendor/tonic-build\<close> generates).
    \<^item> \<open>Core_Tests\<close>, \<open>Drive_Tests\<close>, \<open>Storage_Tests\<close>, \<open>Service_Tests\<close>, \<open>Grpc_Tests\<close>, \<open>Server_Tests\<close>: the unit tests of the
      sources, each with its inputs and assertions as a statement on the model, evaluated. \<open>Fake_Drive\<close>: the
      HTTP server of the tests of \<^verbatim>\<open>storage.rs\<close> (\<^verbatim>\<open>fake.rs\<close>), which these tests reach through the generated client.
    \<^item> \<open>Settings\<close>: \<^verbatim>\<open>settings.rs\<close>. \<open>Server\<close>: \<^verbatim>\<open>client.rs\<close> and the assembly in \<^verbatim>\<open>main.rs\<close>. This theory: the
      properties of the assembled server.

  \<^bold>\<open>How code is modelled.\<close> A Rust string, path or byte vector is the list of its bytes. A \<^verbatim>\<open>Result\<close> is a
  sum with the error on the left; the question mark is \<open>try_io\<close> or \<open>try_prog\<close>. A synchronous operation is
  a function on the world: the files, faults that the environment injects into file operations,
  the random names of temporary files, and an \<open>outside\<close> of any type that the external services
  change. An asynchronous use case is a program tree whose nodes are the calls to ports, the
  lock, temporary files and drops; a drop at the end of a scope is an explicit \<open>Release\<close>. The machine
  integers keep their width where the value can overflow (\<open>32 word\<close> page sizes, \<open>64 word\<close> levels, sizes and
  timestamps); durations are natural numbers of nanoseconds.

  \<^bold>\<open>Interfaces.\<close> \<open>named_enum\<close> (names of formats and kinds), \<open>paged_listing\<close> (listings by page; provided by
  Drive and by the fakes, used by \<^verbatim>\<open>latest\<close>, by the scan of retention and by the \<^verbatim>\<open>ListBackups\<close> handler),
  \<open>local_ports\<close> (a port writes no local file but the one it is given; provided by the fakes and by the
  assembled server), its extension \<open>content_ports\<close> (a download writes content of the backup),
  \<open>invariant_system\<close> (inductive invariants; the concurrent requests and the streams), and \<open>proto_message\<close> (the
  fields of an encoding merge into the message; each message type of \<^verbatim>\<open>backup.proto\<close> and its timestamps).

  \<^bold>\<open>What is shown.\<close>

    \<^item> The database is safe: the order of the steps of a restore, its guards, mutual exclusion of dumps
      and restores under every interleaving and cancellation, the refinement of a single-owner lock,
      and that no command ever names another database.
    \<^item> Backups are safe: what retention removes, that it acts only after the new backup is stored and the
      whole storage is listed, the scans over pages, and retention from end to end on the fakes.
    \<^item> Data arrive whole: the checksum of downloads, the stream of a download, and both together from
      Drive to the client; the chunks of an upload. A listing asks Drive for exactly its parameters.
    \<^item> Nothing is left behind: locks and temporary files are released on every path, by every run on
      local ports, and after cancellation; streams end and remove their file.
    \<^item> Failures are reported faithfully and without secrets: classification, retries, statuses,
      configuration errors, the password only in the environment of a child.
    \<^item> Values are converted without loss: file names, metadata, messages, levels, configuration.
    \<^item> The network changes nothing: messages survive their encoding, the optimised decoder of integers
      equals the plain one, calls and downloads arrive as the handlers answer them however the
      connection cuts the bytes, and no handler sees a string that is not UTF-8.

  \<^bold>\<open>Bounds.\<close> Every loop of the sources has its own bound, which the model keeps: the pages of \<^verbatim>\<open>latest\<close>
  (10) and of the scan of retention (100), the attempts of \<^verbatim>\<open>retry\<close>, and the random names of a temporary
  file (65536) are the recursion arguments themselves; the loop of \<^verbatim>\<open>tail\<close> ends at the end of the
  string. The loop of \<^verbatim>\<open>stream_file\<close> is a transition system whose length is bounded by the size of the
  file. The loops of the message decoders consume at least one byte per round, so the length of the
  buffer bounds them; the lemmas on the bounds show that a larger one gives the same result. The
  encoder of a body is polled once per answer of its source and once more for the trailers. The loop
  over the chunks of an upload has no bound in the source but the time limit of the call, so the
  number of chunks that fit into the limit is an argument of the client, and running out of it is
  running into the limit.

  \<^bold>\<open>Parameters.\<close> Code outside the repository enters as an argument: child processes, time limits, the
  blocking pool, the clock, the zstd decoder and MD5 (\<open>platform\<close>), and the HTTP, TLS and OAuth libraries
  (\<open>google\<close>). The storage takes any Drive client (\<open>drive_hub\<close>); the generated one is an instance (\<open>client_hub\<close>), whose
  own arguments are HTTP requests, tokens, the JSON reader and the parsers of URLs and of times. What is
  assumed of them is named where it is used: \<open>platform_ok\<close>, \<open>hub_local\<close>, \<open>hub_quiet\<close>, \<open>decoder_ok\<close>, \<open>drive_serves\<close>,
  \<open>drive_uploads\<close>, \<open>env_ok\<close>; each has an instance.

  \<^bold>\<open>Not modelled.\<close> Log output but for the record of \<^verbatim>\<open>to_status\<close>, \<^verbatim>\<open>logger.rs\<close>, signal handling and the HTTP/2
  connection under \<^verbatim>\<open>main.rs\<close> (what it promises is the relation \<open>delivered\<close>), compression of messages, which
  the server does not enable, the JSON reader of \<^verbatim>\<open>vendor/serde_json\<close> and the parser of \<^verbatim>\<open>vendor/url\<close>, and the tests
  that need a database or the real Drive. Of a file that Drive describes only the fields that the
  storage asks for are read. \<^verbatim>\<open>tempfile\<close> makes a relative folder
  absolute before it creates a file; paths are joined here as they are configured. A panic of a fake
  is an error value of its own.
\<close>

section \<open>The generated client is quiet\<close>

text \<open>
  Over a transport, tokens and a timer that leave local files alone, every call of the generated
  client leaves them alone, which is what the assembled server relies on (\<^const>\<open>hub_quiet\<close>).
\<close>

definition client_quiet :: "'e drive_client \<Rightarrow> bool" where
  "client_quiet cl \<longleftrightarrow>
     (\<forall>limit scopes. local_op {} (cl_get_token cl limit scopes)) \<and> (\<forall>limit rq. local_op {} (cl_request cl limit rq))
     \<and> (\<forall>d w. files (cl_sleep cl d w) = files w)"

lemma local_try_call: "local_op {} m \<Longrightarrow> (\<And>x. local_op {} (k x)) \<Longrightarrow> local_op {} (try_call m k)"
  unfolding local_op_empty
  by (auto simp: try_call_def split: prod.split option.split sum.split) (metis snd_conv)+

lemma local_map_io: "local_op {} m \<Longrightarrow> local_op {} (map_io f m)"
  by (simp add: local_op_empty map_io_def split_beta)

lemma local_done_call: "local_op {} (done_call r)"
  by (simp add: local_op_empty done_call_def)

lemma local_decode_response: "local_op {} (decode_response cl dec fs)"
  by (simp add: local_op_empty decode_response_def)

lemma local_get_token: "client_quiet cl \<Longrightarrow> local_op {} (get_token cl limit)"
  by (simp add: get_token_def client_quiet_def local_map_io)

lemma local_send_request: "client_quiet cl \<Longrightarrow> local_op {} (send_request cl limit rq)"
  unfolding send_request_def
  by (intro local_try_call local_map_io) (simp_all add: client_quiet_def, simp add: local_op_empty)

lemma local_upload_loop: "client_quiet cl \<Longrightarrow> local_op {} (upload_loop cl limit session content n first)"
proof (induction n arbitrary: first)
  case (Suc n)
  have "upload_loop cl limit session content (Suc n) first =
      try_call (map_io (map_option (map_err GdHttpError)) (cl_request cl limit (chunk_request cl session content first)))
       (\<lambda>res w'.
         if rs_status res = PERMANENT_REDIRECT
         then upload_loop cl limit session content n (first + min UPLOAD_CHUNK_SIZE (length content - first)) w'
         else (map_option (\<lambda>bytes. Inr (res\<lparr>rs_body := [frame.Data bytes]\<rparr>)) (collect_body (rs_body res)), w'))"
    by (rule ext) simp
  moreover have "local_op {} \<dots>"
    by (intro local_try_call local_map_io) (use Suc in \<open>auto simp: client_quiet_def local_op_empty\<close>)
  ultimately show ?case by simp
qed (simp add: local_op_empty)

lemmas local_calls = local_try_call local_done_call local_decode_response local_get_token local_send_request local_upload_loop

lemma client_hub_quiet:
  assumes "client_quiet cl"
  shows "hub_quiet (client_hub cl)"
proof -
  have simple: "local_op {} (simple_call cl limit verb u ps)" for limit verb u ps
    unfolding simple_call_def by (intro local_calls assms)
  have "local_op {} (client_create cl limit meta wanted content)" for limit meta wanted content
    unfolding client_create_def
    by (intro local_calls assms) (auto intro!: local_calls assms split: option.split)
  then show ?thesis
    using assms
    by (auto simp: hub_quiet_def client_hub_def client_list_def client_get_def client_media_def client_delete_def client_quiet_def
        intro!: local_try_call simple local_decode_response local_done_call)
qed

section \<open>The assembled server\<close>



text \<open>
  Claim C17 (only_configured_database). The server never runs a command on another database: its behaviour
  depends on child processes only through commands whose arguments name the configured database,
  so exchanging what any other command does changes nothing.
\<close>

theorem only_configured_database:
  assumes "\<forall>prog xs vars. names_db (db_name (cfg_db cfg)) xs \<longrightarrow> spawn prog xs vars = os_spawn os prog xs vars"
  shows "main_ports (os\<lparr>os_spawn := spawn\<rparr>) cfg storage = main_ports os cfg storage"
proof -
  let ?os = "os\<lparr>os_spawn := spawn\<rparr>"
  have run: "tokio_run spawn (pg_command_of prog flags (cfg_db cfg) rest)
      = tokio_run (os_spawn os) (pg_command_of prog flags (cfg_db cfg) rest)" for prog flags rest
    using assms names_db_command [of "cfg_db cfg" prog flags rest] by (simp add: tokio_run_def)
  have exec: "execute (main_tools ?os cfg) (pg_command_of prog flags (cfg_db cfg) rest) limit
      = execute (main_tools os cfg) (pg_command_of prog flags (cfg_db cfg) rest) limit" for prog flags rest limit
    by (simp add: execute_def main_tools_def run)
  have tools: "target (main_tools o' cfg) = cfg_db cfg" "level (main_tools o' cfg) = cfg_comp_level cfg"
    "command_timeout (main_tools o' cfg) = cfg_pg_timeout cfg" for o' :: "'a platform"
    by (simp_all add: main_tools_def)
  have "pg_dump_to (main_tools ?os cfg) = pg_dump_to (main_tools os cfg)"
    "pg_restore_from (main_tools ?os cfg) = pg_restore_from (main_tools os cfg)"
    "pg_ping (main_tools ?os cfg) = pg_ping (main_tools os cfg)"
    by (simp_all add: fun_eq_iff pg_dump_to_def pg_restore_from_def pg_ping_def tools
        dump_command_def restore_command_def query_command_def exec)
  then show ?thesis by (simp add: main_ports_def Let_def system_clock_def pg_db_name_def main_tools_def)
qed

text \<open>
  Claim C30 (main_startup). The server comes up only with a valid configuration and readable credentials, and
  otherwise fails before anything is touched. The service then works on the configured database
  for both dumping and restoring, on the configured folder, keeps at least one backup, and talks
  to Drive over TLS only, with a bounded connection time.
\<close>

theorem main_startup:
  "case main os g environment w of
     (Inr (addr, D), w') \<Rightarrow>
       \<exists>cfg con auth. from_env environment = Inr cfg \<and> addr = cfg_listen_addr cfg
         \<and> is_ok (parse_service_account_key g (expose (cfg_drive_creds cfg)))
         \<and> D = main_ports os cfg \<lparr>hub = new_hub g con auth, folder_id = cfg_drive_folder_id cfg, opts = default_options\<rparr>
         \<and> restorer_db_name D = db_name (cfg_db cfg) \<and> dumper_db_name D = db_name (cfg_db cfg)
         \<and> retention D \<noteq> Some 0
         \<and> https_only con \<and> connect_timeout con = Some (from_secs 10)
   | (Inl e, w') \<Rightarrow>
       (case from_env environment of
          Inl e' \<Rightarrow> w' = w
        | Inr cfg \<Rightarrow> is_ok (parse_service_account_key g (expose (cfg_drive_creds cfg))) \<or> w' = w)"
proof (cases "from_env environment")
  case (Inl e)
  then show ?thesis by (simp add: main_def return_io_def)
next
  case (Inr cfg)
  have keep: "cfg_retention cfg \<noteq> Some 0"
    using Inr unfolding from_env_def from_source_Inr_iff read_retention_Inr_iff by (auto split: option.splits)
  show ?thesis
  proof (cases "parse_service_account_key g (expose (cfg_drive_creds cfg))")
    case (Inl e)
    then show ?thesis using Inr by (simp add: main_def connect_def build_hub_def try_io_def return_io_def)
  next
    case key: (Inr k)
    show ?thesis
      using keep Inr key
      by (auto simp: main_def connect_def build_hub_def build_connector_def try_io_def return_io_def map_io_def
          main_ports_def main_tools_def pg_db_name_def Let_def CONNECT_TIMEOUT_def split: prod.split sum.split)
  qed
qed

section \<open>Witnesses\<close>

text \<open>A platform on which every command succeeds at once and \<^verbatim>\<open>pg_dump\<close> writes its file.\<close>

definition demo_os :: "nat platform" where
  "demo_os =
     \<lparr>os_spawn = (\<lambda>prog xs vars w.
        (Inr \<lparr>exit_success = True, exit_display = ''exit status: 0'', out_bytes = [], err_bytes = []\<rparr>,
         if prog = ''pg_dump'' then w\<lparr>files := (files w)(last xs \<mapsto> ''dump'')\<rparr> else w)),
      os_timeout = (\<lambda>limit. map_io Some), os_blocking = map_io Inr, os_now = return_io demo_time,
      os_copy_decode = stored_decode, os_md5_hex = (\<lambda>d. d)\<rparr>"

lemma demo_os_ok: "platform_ok demo_os"
proof -
  have dump: "local_op {dst} (tokio_run (os_spawn demo_os) (dump_command t l dst))" for t l dst
    by (rule local_opI)
      (auto simp: tokio_run_def map_io_def demo_os_def dump_command_def pg_command_of_def)
  have other: "local_op {} (tokio_run (os_spawn demo_os) c)" if "program c \<noteq> ''pg_dump''" for c
    using that by (simp add: local_op_empty tokio_run_def map_io_def demo_os_def)
  have "local_op {} (tokio_run (os_spawn demo_os) (restore_command t src))"
    "local_op {} (tokio_run (os_spawn demo_os) (query_command t sql))" for t src sql
    by (simp_all add: other restore_command_def query_command_def pg_command_of_def fb_const)
  then show ?thesis
    unfolding platform_ok_def
    by (intro conjI allI impI dump)
      (simp_all add: demo_os_def local_op_return stored_decode_def local_op_std)
qed

lemma demo_hub_quiet: "hub_quiet (hub (demo_drive fs))"
  by (simp add: hub_quiet_def local_op_empty demo_drive_def demo_hub_def Let_def)

lemma demo_decoder_ok: "decoder_ok demo_os Some"
  unfolding decoder_ok_def
  by (auto simp: demo_os_def stored_decode_def std_write_def with_fault_def map_io_def
      split: list.splits option.splits prod.splits)

definition demo_cfg :: settings where
  "demo_cfg =
     \<lparr>cfg_listen_addr = V4 [0, 0, 0, 0] 50051,
      cfg_db = \<lparr>host = ''tracker-db'', port = 5432, user = ''tracker'', password = Secret ''secret'', db_name = ''tracker''\<rparr>,
      cfg_comp_level = zstd_default, cfg_drive_creds = Secret ''{}'', cfg_drive_folder_id = ''folder1'',
      cfg_data_folder = ''/data'', cfg_retention = None, cfg_pg_timeout = from_secs 3600\<rparr>"

definition demo_server :: "nat ports" where
  "demo_server = main_ports demo_os demo_cfg (demo_drive demo_files)"

definition demo_service :: "nat service_state" where
  "demo_service = \<lparr>write_lock = False, machine = demo_world\<lparr>rand_names := [''Ab12Cd'']\<rparr>\<rparr>"


theorem only_configured_database_witness:
  "main_ports (demo_os\<lparr>os_spawn := \<lambda>prog xs vars. if names_db ''tracker'' xs then os_spawn demo_os prog xs vars
     else return_io (Inl ''destroyed'')\<rparr>) demo_cfg (demo_drive []) = main_ports demo_os demo_cfg (demo_drive [])
   \<and> names_db ''tracker'' (args (dump_command (cfg_db demo_cfg) zstd_default ''f''))"
  using only_configured_database [of demo_cfg
      "\<lambda>prog xs vars. if names_db ''tracker'' xs then os_spawn demo_os prog xs vars else return_io (Inl ''destroyed'')"
      demo_os "demo_drive []"] names_db_command [of "cfg_db demo_cfg"]
  by (simp add: demo_cfg_def dump_command_def)

text \<open>The first response breaks off, the second arrives whole.\<close>

lemma demo_retried_download:
  assumes "faults w = []" and "outside w = 0" and "b_md5 b = None"
  shows "\<exists>w'. gd_download (\<lambda>d. d) (demo_drive fs) b f w = (Inr (), w') \<and> files w' f = Some ''abc''"
  using assms
  by (simp add: gd_download_def retry_def retry_loop.simps download_once_def demo_drive_def demo_hub_def
      default_options_def default_policy_def try_io_def map_io_def timed_def
      std_create_def std_write_def std_flush_def with_fault_def check_md5_def)

lemma demo_served:
  "\<exists>h s'. run demo_server (grpc_download_backup \<lparr>ref_target = Some (ProtoId ''b'')\<rparr>) demo_service
     = (Inr (h, ''/data/backup_Ab12Cd.download''), s')
     \<and> files (machine s') ''/data/backup_Ab12Cd.download'' = Some ''abc''"
proof -
  let ?f = "''/data/backup_Ab12Cd.download''" and ?w = "machine demo_service"
  obtain b where b: "to_backup_info (demo_file ''b'' ''backup_x.pgdump'') = Inr b" "b_md5 b = None" "b_format b = PgCustom"
    using demo_info(1) by auto
  have "find (\<lambda>f. f_id f = Some ''b'') demo_files = Some (demo_file ''b'' ''backup_x.pgdump'')"
    by (simp add: demo_files_def demo_file_def default_file_def numeral_eq_Suc)
  moreover have "is_in_folder (demo_file ''b'' ''backup_x.pgdump'') ''folder1''"
    by (simp add: demo_file_def default_file_def is_in_folder_def)
  ultimately have get: "gd_get (demo_drive demo_files) ''b'' ?w = (Inr b, ?w)"
    using b(1)
    by (simp add: gd_get_def demo_drive_def demo_hub_def retry_def retry_loop.simps map_io_def timed_def try_io_def)
  obtain w where t: "tempfile_in ''/data'' ''backup_'' ''.download'' ?w = (Inr ?f, w)" "faults w = []" "outside w = 0"
    by (simp add: demo_service_def demo_world_def tempfile_in_def NUM_RETRIES_def with_fault_def Let_def
        path_join_def tmpname_def)
  obtain w' where w': "gd_download (\<lambda>d. d) (demo_drive demo_files) b ?f w = (Inr (), w')" "files w' ?f = Some ''abc''"
    using demo_retried_download [OF t(2,3) b(2)] by blast
  have ops: "get_op demo_server = gd_get (demo_drive demo_files)" "data_folder demo_server = ''/data''"
    "download_op demo_server = gd_download (\<lambda>d. d) (demo_drive demo_files)"
    by (simp_all add: demo_server_def main_ports_def Let_def demo_cfg_def demo_os_def)
  have "to_backup_target (Some \<lparr>ref_target = Some (ProtoId ''b'')\<rparr>) = Inr (Id ''b'')"
    by (simp add: to_backup_target_def Let_def)
  then show ?thesis
    using b(3) get t(1) w'
    by (simp add: grpc_download_backup_def download_def run_bind run_try run_temp_file service_calls
        on_machine_def ops)
qed

lemma demo_stream_abc:
  "stream_run info ''abc'' [Sent, Opened (Inr ()), ReadBytes (Inr 3), Receive, Sent, Receive, ReadBytes (Inr 0)] start_stream
     = Some \<lparr>stage = Ended, unread = [], buffer = [], received = [header_item info, data_item ''abc''],
             rx_open = True, on_disk = False\<rparr>"
  by (simp add: start_stream_def stream_defs STREAM_BUFFER_def CHUNK_SIZE_def)


end
